(* ===== verification/Rxe_Prelude.thy ===== *)
theory Rxe_Prelude
  imports Main "HOL-Library.Word"
begin

text \<open>
  Shared vocabulary of the development: the machine integers of the target
  (a 32-bit little-endian ARM kernel: \<open>unsigned int\<close>, \<open>size_t\<close> and
  pointers have 32 bits), the kernel's error codes, the power-of-two helpers of
  \<open>include/linux/log2.h\<close> that the queue code calls, and the facts on masked
  word arithmetic and lists that the component proofs share.
\<close>

unbundle bit_operations_syntax

named_theorems rxe_defs \<open>definitions unfolded by the component proofs\<close>

type_synonym u8 = "8 word"
type_synonym u16 = "16 word"
type_synonym u32 = "32 word"
type_synonym u64 = "64 word"

text \<open>The negative return values the driver uses; a result type puts them on the left.\<close>

datatype errno = EINVAL | ENOMEM | EFAULT | EAGAIN | ENOSPC | EBUSY

type_synonym 'a result = "errno + 'a"

subsection \<open>Powers of two (linux/log2.h, asm-generic/bitops/fls.h)\<close>

text \<open>One halving step of \<open>fls\<close>: when the bits selected by \<open>m\<close> are clear, shift.\<close>

definition fls_step :: "u32 \<Rightarrow> nat \<Rightarrow> u32 \<times> nat \<Rightarrow> u32 \<times> nat" where
  "fls_step m k xr = (if fst xr AND m = 0 then (push_bit k (fst xr), snd xr - k) else xr)"

definition fls :: "u32 \<Rightarrow> nat" where
  "fls x = (if x = 0 then 0
     else snd (fls_step 0x80000000 1 (fls_step 0xc0000000 2 (fls_step 0xf0000000 4
            (fls_step 0xff000000 8 (fls_step 0xffff0000 16 (x, 32)))))))"

definition is_power_of_2 :: "u32 \<Rightarrow> bool" where
  "is_power_of_2 n \<longleftrightarrow> n \<noteq> 0 \<and> n AND (n - 1) = 0"

definition roundup_pow_of_two :: "u32 \<Rightarrow> u32" where
  "roundup_pow_of_two n = push_bit (fls (n - 1)) 1"

definition ilog2 :: "u32 \<Rightarrow> nat" where
  "ilog2 n = fls n - 1"

definition order_base_2 :: "u32 \<Rightarrow> nat" where
  "order_base_2 n = ilog2 (roundup_pow_of_two n)"

text \<open>The reference \<open>fls\<close> is compared with: the number of binary digits.\<close>

fun bitlen :: "nat \<Rightarrow> nat" where
  "bitlen n = (if n = 0 then 0 else Suc (bitlen (n div 2)))"

declare bitlen.simps [simp del]

subsection \<open>Number of binary digits\<close>

lemma bitlen_0 [simp]: "bitlen 0 = 0"
  by (simp add: bitlen.simps)

lemma bitlen_pos: "0 < n \<Longrightarrow> 0 < bitlen n"
  by (simp add: bitlen.simps [of n])

lemma bitlen_upper: "n < 2 ^ bitlen n"
proof (induction n rule: bitlen.induct)
  case (1 n)
  show ?case
  proof (cases "n = 0")
    case False
    with 1 have "n div 2 < 2 ^ bitlen (n div 2)" by simp
    then have "n < 2 * 2 ^ bitlen (n div 2)" by simp
    with False show ?thesis by (simp add: bitlen.simps [of n])
  qed simp
qed

lemma bitlen_lower: "0 < n \<Longrightarrow> 2 ^ (bitlen n - 1) \<le> n"
proof (induction n rule: bitlen.induct)
  case (1 n)
  show ?case
  proof (cases "n div 2 = 0")
    case True
    with 1 show ?thesis by (simp add: bitlen.simps [of n])
  next
    case False
    then have pos: "0 < bitlen (n div 2)" by (simp add: bitlen.simps [of "n div 2"])
    from False 1 have "2 ^ (bitlen (n div 2) - 1) \<le> n div 2" by simp
    then have "2 * 2 ^ (bitlen (n div 2) - 1) \<le> n" by simp
    with pos have "2 ^ bitlen (n div 2) \<le> n" by (simp add: power_eq_if)
    with 1 show ?thesis by (simp add: bitlen.simps [of n])
  qed
qed

lemma bitlen_unique:
  assumes "2 ^ k \<le> n" and "n < 2 ^ Suc k"
  shows "bitlen n = Suc k"
proof -
  have "(0::nat) < 2 ^ k" by simp
  with assms(1) have "0 < n" by linarith
  then have lo: "2 ^ (bitlen n - 1) \<le> n" and b: "0 < bitlen n"
    by (rule bitlen_lower, rule bitlen_pos)
  note hi = bitlen_upper [of n]
  from assms lo hi have "(2::nat) ^ k < 2 ^ bitlen n" and "(2::nat) ^ (bitlen n - 1) < 2 ^ Suc k"
    by linarith+
  then have "k < bitlen n" and "bitlen n - 1 < Suc k"
    using power_less_imp_less_exp [of "2::nat" "bitlen n - 1" "Suc k"] by simp_all
  with b show ?thesis by simp
qed

lemma bitlen_le: "n < 2 ^ k \<Longrightarrow> bitlen n \<le> k"
proof (cases "n = 0")
  case False
  assume "n < 2 ^ k"
  with False bitlen_lower [of n] have "(2::nat) ^ (bitlen n - 1) < 2 ^ k" by linarith
  then have "bitlen n - 1 < k" by simp
  then show ?thesis by simp
qed simp

lemma bitlen_ge: "2 ^ k \<le> n \<Longrightarrow> Suc k \<le> bitlen n"
  using bitlen_upper [of n]
  by (metis Suc_leI le_less_trans one_less_numeral_iff power_less_imp_less_exp semiring_norm(76))

lemma bitlen_mult_pow: "0 < n \<Longrightarrow> bitlen (2 ^ k * n) = bitlen n + k"
  by (induction k) (simp_all add: bitlen.simps [of "2 * 2 ^ _ * n"])

subsection \<open>Masked words\<close>

text \<open>An index mask is \<open>2 ^ k - 1\<close>: masking is reduction modulo \<open>2 ^ k\<close>.\<close>

lemma and_mask_take_bit: "(x :: 'a::len word) AND mask k = take_bit k x"
  by (simp add: take_bit_eq_mask)

lemma unat_take_bit: "unat (take_bit k (x :: 'a::len word)) = unat x mod 2 ^ k"
  by (simp only: unsigned_take_bit_eq) (simp add: take_bit_eq_mod)

lemma unat_take_bit_Suc:
  fixes x :: u32
  assumes "k \<le> 32"
  shows "unat (take_bit k (x + 1)) = (unat (take_bit k x) + 1) mod 2 ^ k"
proof -
  have d: "(2::nat) ^ k dvd 2 ^ 32" using assms by (rule le_imp_power_dvd)
  have "unat (take_bit k (x + 1)) = ((unat x + 1) mod 2 ^ 32) mod 2 ^ k"
    by (simp add: unat_take_bit unat_word_ariths)
  also have "\<dots> = (unat x + 1) mod 2 ^ k" using d by (rule mod_mod_cancel)
  also have "\<dots> = (unat (take_bit k x) + 1) mod 2 ^ k"
    by (simp add: unat_take_bit mod_simps)
  finally show ?thesis .
qed

lemma and_not_mask_zero_iff:
  "(x :: u32) AND NOT (mask n) = 0 \<longleftrightarrow> unat x < 2 ^ n" if "n < 32"
proof -
  have "x AND NOT (mask n) = 0 \<longleftrightarrow> take_bit n x = x"
    by (auto simp: bit_eq_iff bit_simps)
  also have "\<dots> \<longleftrightarrow> unat x < 2 ^ n"
  proof
    assume "take_bit n x = x"
    then have "unat x = unat x mod 2 ^ n" by (metis unat_take_bit)
    also have "\<dots> < 2 ^ n" by simp
    finally show "unat x < 2 ^ n" .
  next
    assume "unat x < 2 ^ n"
    then have "unat (take_bit n x) = unat x" by (simp only: unat_take_bit mod_less)
    then show "take_bit n x = x" by (simp only: word_unat_eq_iff)
  qed
  finally show ?thesis .
qed

subsection \<open>fls computes the number of binary digits\<close>

text \<open>
  The invariant of the five steps: the current value has \<open>32 - r\<close> more digits than
  the argument, and after the step that shifts by \<open>k\<close> it has more than \<open>32 - k\<close>.
\<close>

definition fls_inv :: "nat \<Rightarrow> nat \<Rightarrow> u32 \<times> nat \<Rightarrow> bool" where
  "fls_inv n k xr \<longleftrightarrow> snd xr \<le> 32 \<and> bitlen (unat (fst xr)) + snd xr = n + 32
     \<and> 32 - k < bitlen (unat (fst xr))"

lemma fls_step_inv:
  assumes inv: "fls_inv n (2 * k) xr" and k: "0 < k" "k \<le> 16"
  shows "fls_inv n k (fls_step (NOT (mask (32 - k))) k xr)"
proof (cases "fst xr AND NOT (mask (32 - k)) = 0")
  case True
  define x where "x = unat (fst xr)"
  from True k have lt: "x < 2 ^ (32 - k)"
    using and_not_mask_zero_iff [of "32 - k" "fst xr"] by (simp add: x_def)
  from inv have gt: "32 - 2 * k < bitlen x" by (simp add: fls_inv_def x_def)
  then have "0 < x" by (cases "x = 0") simp_all
  have "2 ^ k * x < 2 ^ k * 2 ^ (32 - k)" using lt by simp
  also have "\<dots> = (2::nat) ^ 32" using k by (simp add: power_add [symmetric])
  finally have "2 ^ k * x < 2 ^ 32" .
  then have "unat (push_bit k (fst xr)) = 2 ^ k * x"
    by (simp only: unsigned_push_bit_eq) (simp add: x_def push_bit_eq_mult take_bit_eq_mod mult.commute)
  then have len: "bitlen (unat (push_bit k (fst xr))) = bitlen x + k"
    using \<open>0 < x\<close> by (simp add: bitlen_mult_pow)
  have "bitlen x \<le> 32 - k" using lt by (rule bitlen_le)
  with inv gt len k True show ?thesis
    by (auto simp: fls_inv_def fls_step_def x_def)
next
  case False
  then have "\<not> unat (fst xr) < 2 ^ (32 - k)"
    using k and_not_mask_zero_iff [of "32 - k" "fst xr"] by simp
  then have "Suc (32 - k) \<le> bitlen (unat (fst xr))" by (intro bitlen_ge) simp
  with inv False show ?thesis by (auto simp: fls_inv_def fls_step_def)
qed

lemma fls_eq_bitlen: "fls x = bitlen (unat x)"
proof (cases "x = 0")
  case True
  then show ?thesis by (simp add: fls_def)
next
  case False
  then have pos: "0 < bitlen (unat x)" by (intro bitlen_pos) (simp add: unat_gt_0)
  let ?s = "\<lambda>k. fls_step (NOT (mask (32 - k))) k"
  have "fls_inv (bitlen (unat x)) 32 (x, 32)" using pos by (simp add: fls_inv_def)
  then have "fls_inv (bitlen (unat x)) 16 (?s 16 (x, 32))"
    using fls_step_inv [of "bitlen (unat x)" 16] by simp
  then have "fls_inv (bitlen (unat x)) 8 (?s 8 (?s 16 (x, 32)))"
    using fls_step_inv [of "bitlen (unat x)" 8] by simp
  then have "fls_inv (bitlen (unat x)) 4 (?s 4 (?s 8 (?s 16 (x, 32))))"
    using fls_step_inv [of "bitlen (unat x)" 4] by simp
  then have "fls_inv (bitlen (unat x)) 2 (?s 2 (?s 4 (?s 8 (?s 16 (x, 32)))))"
    using fls_step_inv [of "bitlen (unat x)" 2] by simp
  then have inv: "fls_inv (bitlen (unat x)) 1 (?s 1 (?s 2 (?s 4 (?s 8 (?s 16 (x, 32))))))"
    using fls_step_inv [of "bitlen (unat x)" 1] by simp
  define r where "r = ?s 1 (?s 2 (?s 4 (?s 8 (?s 16 (x, 32)))))"
  have masks: "0xffff0000 = NOT (mask 16 :: u32)" "0xff000000 = NOT (mask 24 :: u32)"
    "0xf0000000 = NOT (mask 28 :: u32)" "0xc0000000 = NOT (mask 30 :: u32)"
    "0x80000000 = NOT (mask 31 :: u32)"
    by (simp_all add: mask_eq_exp_minus_1)
  have "fls x = snd r" using False by (simp only: fls_def r_def masks) simp
  moreover have "bitlen (unat (fst r)) \<le> 32" 
    by (rule bitlen_le) (use unsigned_less [of "fst r"] in simp)
  ultimately show ?thesis using inv by (simp add: fls_inv_def r_def)
qed

subsection \<open>Rounding up to a power of two\<close>

lemma unat_push_bit_1: "k < 32 \<Longrightarrow> unat (push_bit k 1 :: u32) = 2 ^ k"
  by (simp only: unsigned_push_bit_eq)
    (simp add: push_bit_eq_mult take_bit_eq_mod power_strict_increasing_iff
      [of "2::nat" k 32, simplified])

lemma roundup_pow_of_two_correct:
  assumes "0 < n" and "unat n \<le> 2 ^ 31"
  obtains k where "k \<le> 31" and "roundup_pow_of_two n = push_bit k 1"
    and "unat n \<le> 2 ^ k" and "2 ^ k < 2 * unat n"
proof -
  let ?k = "bitlen (unat n - 1)"
  have pos: "0 < unat n" using assms(1) by (simp add: unat_gt_0)
  have eq: "unat (n - 1) = unat n - 1" using assms(1) by (simp add: unat_minus_one)
  have "unat n - 1 < 2 ^ 31" using assms(2) pos by simp
  then have "?k \<le> 31" by (rule bitlen_le)
  moreover have "roundup_pow_of_two n = push_bit ?k 1"
    by (simp add: roundup_pow_of_two_def fls_eq_bitlen eq)
  moreover have "unat n \<le> 2 ^ ?k" using bitlen_upper [of "unat n - 1"] by linarith
  moreover have "2 ^ ?k < 2 * unat n"
  proof (cases "unat n = 1")
    case False
    with pos have "0 < unat n - 1" by simp
    then have "2 ^ (?k - 1) \<le> unat n - 1" and "0 < ?k"
      by (rule bitlen_lower, rule bitlen_pos)
    then have "(2::nat) ^ ?k \<le> 2 * (unat n - 1)" by (simp add: power_eq_if)
    with pos show ?thesis by linarith
  qed simp
  ultimately show ?thesis by (rule that)
qed

lemma push_bit_1_minus_1: "push_bit k 1 - 1 = (mask k :: u32)"
  by (simp add: mask_eq_exp_minus_1 push_bit_eq_mult)

subsection \<open>Masked word arithmetic\<close>

lemma word_take_bit_add_left: "take_bit k (take_bit k a + b) = take_bit k (a + b :: 'a::len word)"
proof (cases "k \<le> LENGTH('a)")
  case True
  have d: "2 ^ k dvd (2 ^ LENGTH('a) :: nat)" using True by (simp add: le_imp_power_dvd)
  have "unat (take_bit k (take_bit k a + b)) = unat (take_bit k (a + b))"
    by (simp only: unat_take_bit unat_word_ariths mod_mod_cancel [OF d] mod_add_left_eq)
  then show ?thesis by (simp only: word_unat_eq_iff)
next
  case False
  then show ?thesis by (simp add: take_bit_word_eq_self)
qed

lemma word_take_bit_add_right: "take_bit k (a + take_bit k b) = take_bit k (a + b :: 'a::len word)"
  using word_take_bit_add_left [of k b a] by (simp add: add.commute)

lemma word_take_bit_add_cong:
  "take_bit k a = take_bit k b \<Longrightarrow> take_bit k (a + c) = take_bit k (b + c :: 'a::len word)"
  by (metis word_take_bit_add_left)

lemma word_take_bit_add_cancel:
  "take_bit k (a + c) = take_bit k (b + c) \<longleftrightarrow> take_bit k a = take_bit k (b :: 'a::len word)"
  using word_take_bit_add_cong [of k "a + c" "b + c" "- c"] word_take_bit_add_cong [of k a b c]
  by auto

lemma word_take_bit_diff_left: "take_bit k (take_bit k a - b) = take_bit k (a - b :: 'a::len word)"
  using word_take_bit_add_left [of k a "- b"] by simp

lemma word_take_bit_diff_right: "take_bit k (a - take_bit k b) = take_bit k (a - b :: 'a::len word)"
proof -
  have "take_bit k ((a - take_bit k b) + b) = take_bit k ((a - take_bit k b) + take_bit k b)"
    by (simp only: word_take_bit_add_right)
  also have "\<dots> = take_bit k ((a - b) + b)" by simp
  finally show ?thesis by (simp only: word_take_bit_add_cancel)
qed

lemma word_take_bit_of_nat_eq_iff:
  "k \<le> LENGTH('a) \<Longrightarrow> i < 2 ^ k \<Longrightarrow> j < 2 ^ k \<Longrightarrow>
   take_bit k (of_nat i :: 'a::len word) = take_bit k (of_nat j) \<longleftrightarrow> i = j"
proof -
  assume k: "k \<le> LENGTH('a)" and ij: "i < 2 ^ k" "j < 2 ^ k"
  have le: "(2::nat) ^ k \<le> 2 ^ LENGTH('a)" using k by simp
  have "unat (take_bit k (of_nat n :: 'a word)) = n" if "n < 2 ^ k" for n
    using that order.strict_trans2 [OF that le] by (simp only: unat_take_bit unat_of_nat) simp
  with ij show ?thesis by metis
qed

lemma push_bit_take_bit_inj:
  assumes "k + l \<le> LENGTH('a)" 
  shows "push_bit l (take_bit k a) = push_bit l (take_bit k b) \<longleftrightarrow> take_bit k a = take_bit k (b :: 'a::len word)"
proof
  assume *: "push_bit l (take_bit k a) = push_bit l (take_bit k b)"
  show "take_bit k a = take_bit k b"
  proof (rule bit_word_eqI)
    fix n assume "n < LENGTH('a)"
    show "bit (take_bit k a) n \<longleftrightarrow> bit (take_bit k b) n"
    proof (cases "n < k")
      case True
      with assms have "n + l < LENGTH('a)" by simp
      with True arg_cong [OF *, of "\<lambda>w. bit w (n + l)"] show ?thesis
        by (simp add: bit_simps)
    qed (simp add: bit_simps)
  qed
qed simp

lemma unat_push_bit_take_bit:
  assumes "k + l \<le> LENGTH('a)" "l < LENGTH('a)"
  shows "unat (push_bit l (take_bit k (a::'a::len word))) = 2 ^ l * (unat a mod 2 ^ k)"
proof -
  have "unat a mod 2 ^ k < 2 ^ k" by simp
  then have "2 ^ l * (unat a mod 2 ^ k) < 2 ^ (k + l)" by (simp add: power_add)
  also have "\<dots> \<le> 2 ^ LENGTH('a)" using assms by simp
  finally show ?thesis
    by (simp only: unsigned_push_bit_eq unsigned_take_bit_eq)
      (simp add: take_bit_nat_eq_self push_bit_eq_mult take_bit_eq_mod mult.commute)
qed
lemma unat_mask: "k < LENGTH('a) \<Longrightarrow> unat (mask k :: 'a::len word) = 2 ^ k - 1"
  using uint_mask_eq [of k, where 'a = 'a] 
  by (simp add: min_def mask_eq_exp_minus_1 nat_diff_distrib nat_power_eq flip: nat_uint_eq)

lemma unat_u32_less: "unat (w :: u32) < 4294967296"
  by (rule order.strict_trans2 [OF unsigned_less]) simp

lemma unat_of_nat_u32: "n < unat (w :: u32) \<Longrightarrow> unat (of_nat n :: u32) = n"
  using unat_u32_less [of w] by (simp add: unat_of_nat)

lemma int_le_uint: "int n \<le> uint (w :: 'a::len word) \<longleftrightarrow> n \<le> unat w"
  by (simp only: uint_nat of_nat_le_iff)

subsection \<open>Between the widths\<close>

lemma unat_ucast_u64 [simp]: "unat (ucast (w :: u32) :: u64) = unat w"
proof -
  have "unat w < 2 ^ 64" using unat_u32_less [of w] by simp
  then show ?thesis by (simp add: unsigned_ucast_eq take_bit_nat_eq_self)
qed

lemma unat_ucast_u32: "unat (w :: u64) < 4294967296 \<Longrightarrow> unat (ucast w :: u32) = unat w"
  by (simp add: unsigned_ucast_eq take_bit_nat_eq_self)

lemma sint_unat: "unat (w :: u32) < 2147483648 \<Longrightarrow> sint w = int (unat w)"
proof -
  assume "unat w < 2147483648"
  then have "int (unat w) < 2147483648" by linarith
  then show ?thesis using int_word_sint [where x = "uint w" and 'a = 32] by simp
qed

subsection \<open>Options\<close>

lemma option_eqI: "(\<And>v. x = Some v \<longleftrightarrow> y = Some v) \<Longrightarrow> x = y"
  by (metis not_None_eq)

subsection \<open>Invariants of step relations\<close>

text \<open>The contract of a state machine: an invariant that holds initially and is kept by every
  step holds in every reachable state.\<close>

locale step_invariant =
  fixes step :: "'s \<Rightarrow> 's \<Rightarrow> bool"
    and init :: "'s \<Rightarrow> bool"
    and inv :: "'s \<Rightarrow> bool"
  assumes inv_init: "init s \<Longrightarrow> inv s"
    and inv_step: "inv s \<Longrightarrow> step s t \<Longrightarrow> inv t"
begin

lemma inv_steps: "rtranclp step s t \<Longrightarrow> inv s \<Longrightarrow> inv t"
  by (induction rule: rtranclp_induct) (auto intro: inv_step)

lemma inv_reachable: "init s \<Longrightarrow> rtranclp step s t \<Longrightarrow> inv t"
  using inv_steps inv_init by blast

end

end
