(* ===== verification/Rxe_Queue.thy ===== *)
theory Rxe_Queue
  imports Rxe_Prelude
begin

text \<open>
  The circular buffer of \<open>rxe_queue.h\<close> and \<open>rxe_queue.c\<close>: send, receive and
  completion queues are all of this type. \<open>struct rxe_queue_buf\<close> is the part shared
  with user space; its \<open>data\<close> bytes are read and written one element at a time at
  slot addresses, so the model maps the byte offset of a slot to the element stored there.
  The lemmas show that the operations implement a bounded FIFO, that the kernel's slot
  addresses stay inside the buffer whatever user space writes into the indices, that
  \<open>rxe_queue_init\<close> builds a queue of at least the requested capacity, and that
  \<open>resize_finish\<close> keeps every element in order.
\<close>

subsection \<open>The structures\<close>

record 'e rxe_queue_buf =
  qb_log2_elem_size :: u32
  qb_index_mask :: u32
  qb_producer_index :: u32
  qb_consumer_index :: u32
  qb_data :: "u32 \<Rightarrow> 'e"

record 'e rxe_queue =
  buf :: "'e rxe_queue_buf"
  buf_size :: u32
  elem_size :: u32
  log2_elem_size :: u32
  index_mask :: u32

text \<open>\<open>sizeof(struct rxe_queue_buf)\<close>: seven groups of words, three of them padded
  to a cache-line pair of 128 bytes.\<close>

definition sizeof_rxe_queue_buf :: u32 where
  "sizeof_rxe_queue_buf = 4 + 4 + 4 * 30 + 4 + 4 * 31 + 4 + 4 * 31"

definition cache_line_size :: u32 where
  "cache_line_size = push_bit 6 1"

subsection \<open>Index arithmetic and element access (rxe_queue.h)\<close>

definition next_index :: "'e rxe_queue \<Rightarrow> u32 \<Rightarrow> u32" where
  "next_index q index = (index + 1) AND qb_index_mask (buf q)"

definition queue_empty :: "'e rxe_queue \<Rightarrow> bool" where
  "queue_empty q \<longleftrightarrow>
     (qb_producer_index (buf q) - qb_consumer_index (buf q)) AND index_mask q = 0"

definition queue_full :: "'e rxe_queue \<Rightarrow> bool" where
  "queue_full q \<longleftrightarrow>
     (qb_producer_index (buf q) + 1 - qb_consumer_index (buf q)) AND index_mask q = 0"

definition advance_producer :: "'e rxe_queue \<Rightarrow> 'e rxe_queue" where
  "advance_producer q = q\<lparr>buf := (buf q)\<lparr>qb_producer_index :=
     (qb_producer_index (buf q) + 1) AND index_mask q\<rparr>\<rparr>"

definition advance_consumer :: "'e rxe_queue \<Rightarrow> 'e rxe_queue" where
  "advance_consumer q = q\<lparr>buf := (buf q)\<lparr>qb_consumer_index :=
     (qb_consumer_index (buf q) + 1) AND index_mask q\<rparr>\<rparr>"

text \<open>Addresses are byte offsets from \<open>q->buf->data\<close>.\<close>

definition producer_addr :: "'e rxe_queue \<Rightarrow> u32" where
  "producer_addr q =
     push_bit (unat (log2_elem_size q)) (qb_producer_index (buf q) AND index_mask q)"

definition consumer_addr :: "'e rxe_queue \<Rightarrow> u32" where
  "consumer_addr q =
     push_bit (unat (log2_elem_size q)) (qb_consumer_index (buf q) AND index_mask q)"

definition producer_index :: "'e rxe_queue \<Rightarrow> u32" where
  "producer_index q = qb_producer_index (buf q)"

definition consumer_index :: "'e rxe_queue \<Rightarrow> u32" where
  "consumer_index q = qb_consumer_index (buf q)"

text \<open>Unlike the two functions above, \<open>addr_from_index\<close> shifts by the copy of the
  element size in the shared header.\<close>

definition addr_from_index :: "'e rxe_queue \<Rightarrow> u32 \<Rightarrow> u32" where
  "addr_from_index q index =
     push_bit (unat (qb_log2_elem_size (buf q))) (index AND index_mask q)"

definition index_from_addr :: "'e rxe_queue \<Rightarrow> u32 \<Rightarrow> u32" where
  "index_from_addr q addr = drop_bit (unat (log2_elem_size q)) addr AND index_mask q"

definition queue_count :: "'e rxe_queue \<Rightarrow> u32" where
  "queue_count q =
     (qb_producer_index (buf q) - qb_consumer_index (buf q)) AND index_mask q"

definition queue_head :: "'e rxe_queue \<Rightarrow> u32 option" where
  "queue_head q = (if queue_empty q then None else Some (consumer_addr q))"

text \<open>Reading an element through a slot address, and the \<open>memcpy\<close> that stores one.\<close>

definition queue_read :: "'e rxe_queue \<Rightarrow> u32 \<Rightarrow> 'e" where
  "queue_read q addr = qb_data (buf q) addr"

definition queue_write :: "'e rxe_queue \<Rightarrow> u32 \<Rightarrow> 'e \<Rightarrow> 'e rxe_queue" where
  "queue_write q addr x = q\<lparr>buf := (buf q)\<lparr>qb_data := (qb_data (buf q))(addr := x)\<rparr>\<rparr>"

subsection \<open>Creation and resizing (rxe_queue.c)\<close>

text \<open>
  \<open>kmalloc_ok\<close> and \<open>vmalloc_ok\<close> say whether the two allocations succeed;
  \<open>zero\<close> is the element of zeroed memory. The source's first test,
  \<open>*num_elem < 0\<close>, compares an unsigned value and is never true. The result is the
  queue and the new value of \<open>*num_elem\<close>.
\<close>

definition rxe_queue_init ::
    "bool \<Rightarrow> bool \<Rightarrow> 'e \<Rightarrow> u32 \<Rightarrow> u32 \<Rightarrow> ('e rxe_queue \<times> u32) option" where
  "rxe_queue_init kmalloc_ok vmalloc_ok zero num_elem elem_sz =
     (if \<not> kmalloc_ok then None
      else let
        esz = roundup_pow_of_two (if elem_sz < cache_line_size then cache_line_size
                                  else elem_sz);
        log2 = of_nat (order_base_2 esz);
        num_slots = roundup_pow_of_two (num_elem + 1);
        m = num_slots - 1;
        bsize = sizeof_rxe_queue_buf + num_slots * esz
      in if \<not> vmalloc_ok then None
         else Some (\<lparr>buf = \<lparr>qb_log2_elem_size = log2, qb_index_mask = m,
                           qb_producer_index = 0, qb_consumer_index = 0,
                           qb_data = (\<lambda>_. zero)\<rparr>,
                     buf_size = bsize, elem_size = elem_sz, log2_elem_size = log2,
                     index_mask = m\<rparr>, num_slots - 1))"

text \<open>The copying loop of \<open>resize_finish\<close>; \<open>None\<close> means it does not end.\<close>

partial_function (option) resize_copy ::
    "'e rxe_queue \<Rightarrow> 'e rxe_queue \<Rightarrow> ('e rxe_queue \<times> 'e rxe_queue) option" where
  "resize_copy q new_q =
     (if queue_empty q then Some (q, new_q)
      else resize_copy (advance_consumer q)
             (advance_producer
                (queue_write new_q (producer_addr new_q) (queue_read q (consumer_addr q)))))"

text \<open>The result is the pair \<open>(*q, *new_q)\<close> after the swap; on an error both are
  unchanged.\<close>

definition resize_finish ::
    "'e rxe_queue \<Rightarrow> 'e rxe_queue \<Rightarrow> u32 \<Rightarrow> ('e rxe_queue \<times> 'e rxe_queue) result option" where
  "resize_finish q new_q num_elem =
     (if \<not> queue_empty q \<and> num_elem < queue_count q then Some (Inl EINVAL)
      else map_option (\<lambda>(q', new_q'). Inr (new_q', q')) (resize_copy q new_q))"

subsection \<open>Abstract contents, invariant and specification interface\<close>

text \<open>The queue as the list of its elements, oldest first.\<close>

definition queue_slot :: "'e rxe_queue \<Rightarrow> nat \<Rightarrow> 'e" where
  "queue_slot q i = qb_data (buf q) (push_bit (unat (log2_elem_size q))
     ((qb_consumer_index (buf q) + of_nat i) AND index_mask q))"

definition queue_list :: "'e rxe_queue \<Rightarrow> 'e list" where
  "queue_list q = map (queue_slot q) [0..<unat (queue_count q)]"

text \<open>The mask is \<open>2 ^ k - 1\<close>, the slots fit the 32-bit address space, and the
  shared copies of mask and size agree with the kernel's.\<close>

definition queue_bits :: "'e rxe_queue \<Rightarrow> nat" where
  "queue_bits q = bitlen (unat (index_mask q))"

definition queue_inv :: "'e rxe_queue \<Rightarrow> bool" where
  "queue_inv q \<longleftrightarrow> index_mask q = mask (queue_bits q)
     \<and> queue_bits q + unat (log2_elem_size q) < 32
     \<and> qb_index_mask (buf q) = index_mask q
     \<and> qb_log2_elem_size (buf q) = log2_elem_size q"

text \<open>Storing an element is \<open>memcpy\<close> to \<open>producer_addr\<close> and
  \<open>advance_producer\<close>, as every producer of the driver does it.\<close>

definition queue_push :: "'e \<Rightarrow> 'e rxe_queue \<Rightarrow> 'e rxe_queue" where
  "queue_push x q = advance_producer (queue_write q (producer_addr q) x)"

definition queue_cap :: "'e rxe_queue \<Rightarrow> nat" where
  "queue_cap q = unat (index_mask q)"

text \<open>What the clients of a work or completion queue rely on: a bounded FIFO.\<close>

locale bounded_fifo =
  fixes push :: "'e \<Rightarrow> 'q \<Rightarrow> 'q"
    and pop :: "'q \<Rightarrow> 'q"
    and head :: "'q \<Rightarrow> 'e"
    and is_full :: "'q \<Rightarrow> bool"
    and is_empty :: "'q \<Rightarrow> bool"
    and contents :: "'q \<Rightarrow> 'e list"
    and capacity :: "'q \<Rightarrow> nat"
    and inv :: "'q \<Rightarrow> bool"
  assumes contents_push: "inv q \<Longrightarrow> \<not> is_full q \<Longrightarrow> contents (push x q) = contents q @ [x]"
    and contents_pop: "inv q \<Longrightarrow> \<not> is_empty q \<Longrightarrow> contents (pop q) = tl (contents q)"
    and contents_head: "inv q \<Longrightarrow> \<not> is_empty q \<Longrightarrow> contents q \<noteq> [] \<and> head q = hd (contents q)"
    and contents_empty: "inv q \<Longrightarrow> is_empty q \<longleftrightarrow> contents q = []"
    and contents_full: "inv q \<Longrightarrow> is_full q \<longleftrightarrow> length (contents q) = capacity q"
    and contents_bound: "inv q \<Longrightarrow> length (contents q) \<le> capacity q"
    and capacity_push: "capacity (push x q) = capacity q"
    and capacity_pop: "capacity (pop q) = capacity q"
    and inv_push: "inv q \<Longrightarrow> inv (push x q)"
    and inv_pop: "inv q \<Longrightarrow> inv (pop q)"
begin

text \<open>Pushing while there is room, then popping, returns the elements in order.\<close>

lemma push_all:
  assumes "inv q" and "length (contents q) + length xs \<le> capacity q"
  shows "contents (fold push xs q) = contents q @ xs \<and> inv (fold push xs q)
    \<and> capacity (fold push xs q) = capacity q"
  using assms
proof (induction xs arbitrary: q)
  case Nil
  then show ?case by simp
next
  case (Cons x xs)
  from Cons.prems have nf: "\<not> is_full q" by (simp add: contents_full)
  with Cons.prems have c: "contents (push x q) = contents q @ [x]" by (simp add: contents_push)
  from Cons.prems have "inv (push x q)"
    and "length (contents (push x q)) + length xs \<le> capacity (push x q)"
    by (simp_all add: inv_push c capacity_push)
  from Cons.IH [OF this] show ?case by (simp add: c capacity_push)
qed

lemma pop_all:
  assumes "inv q" and "n \<le> length (contents q)"
  shows "contents ((pop ^^ n) q) = drop n (contents q) \<and> inv ((pop ^^ n) q)
    \<and> capacity ((pop ^^ n) q) = capacity q"
  using assms
proof (induction n)
  case 0
  then show ?case by simp
next
  case (Suc n)
  then have IH: "contents ((pop ^^ n) q) = drop n (contents q)" "inv ((pop ^^ n) q)"
    "capacity ((pop ^^ n) q) = capacity q" by simp_all
  from Suc.prems IH have "\<not> is_empty ((pop ^^ n) q)" by (simp add: contents_empty)
  with IH show ?case by (simp add: contents_pop inv_pop capacity_pop tl_drop drop_Suc)
qed

end

subsection \<open>Counting and contents\<close>

lemma queue_invD:
  assumes "queue_inv q"
  shows "index_mask q = mask (queue_bits q)"
    and "queue_bits q + unat (log2_elem_size q) < 32" and "queue_bits q < 32"
    and "qb_index_mask (buf q) = index_mask q"
    and "qb_log2_elem_size (buf q) = log2_elem_size q"
  using assms by (simp_all add: queue_inv_def)

lemma queue_cap_eq: "queue_inv q \<Longrightarrow> queue_cap q = 2 ^ queue_bits q - 1"
  by (simp add: queue_cap_def queue_invD(1) unat_mask queue_invD(3))

lemma queue_count_take_bit:
  "queue_inv q \<Longrightarrow>
     queue_count q = take_bit (queue_bits q) (qb_producer_index (buf q) - qb_consumer_index (buf q))"
  by (simp add: queue_count_def queue_invD(1) and_mask_take_bit)

lemma queue_count_bound: "queue_inv q \<Longrightarrow> unat (queue_count q) < 2 ^ queue_bits q"
  by (simp add: queue_count_take_bit unat_take_bit)

lemma queue_empty_count: "queue_empty q \<longleftrightarrow> queue_count q = 0"
  by (simp add: queue_empty_def queue_count_def)

lemma queue_full_count:
  assumes "queue_inv q"
  shows "queue_full q \<longleftrightarrow> unat (queue_count q) = queue_cap q"
proof -
  let ?k = "queue_bits q"
  let ?d = "qb_producer_index (buf q) - qb_consumer_index (buf q)"
  have "queue_full q \<longleftrightarrow> take_bit ?k (?d + 1) = 0"
    by (simp add: queue_full_def queue_invD(1) [OF assms] and_mask_take_bit algebra_simps)
  also have "\<dots> \<longleftrightarrow> (unat (queue_count q) + 1) mod 2 ^ ?k = 0"
    using unat_take_bit_Suc [of ?k ?d] queue_invD(3) [OF assms]
    by (simp add: queue_count_take_bit [OF assms] flip: unat_eq_zero)
  also have "\<dots> \<longleftrightarrow> unat (queue_count q) = 2 ^ ?k - 1"
    using queue_count_bound [OF assms]
    by (metis Suc_eq_plus1 Suc_lessI add_diff_cancel_right' mod_less mod_self nat.distinct(1) Suc_pred' zero_less_numeral zero_less_power)
  finally show ?thesis by (simp add: queue_cap_eq [OF assms])
qed

lemma queue_inv_ops [simp]:
  "queue_inv (advance_producer q) = queue_inv q"
  "queue_inv (advance_consumer q) = queue_inv q"
  "queue_inv (queue_write q a x) = queue_inv q"
  "queue_bits (advance_producer q) = queue_bits q"
  "queue_bits (advance_consumer q) = queue_bits q"
  "queue_bits (queue_write q a x) = queue_bits q"
  "queue_cap (advance_producer q) = queue_cap q"
  "queue_cap (advance_consumer q) = queue_cap q"
  "queue_cap (queue_write q a x) = queue_cap q"
  by (simp_all add: queue_inv_def queue_bits_def queue_cap_def advance_producer_def
        advance_consumer_def queue_write_def)

lemma queue_push_simps [simp]:
  "queue_inv (queue_push x q) = queue_inv q" "queue_cap (queue_push x q) = queue_cap q"
  "queue_bits (queue_push x q) = queue_bits q"
  by (simp_all add: queue_push_def)

lemma queue_count_push:
  assumes "queue_inv q" and "\<not> queue_full q"
  shows "unat (queue_count (queue_push x q)) = Suc (unat (queue_count q))"
proof -
  let ?k = "queue_bits q"
  let ?d = "qb_producer_index (buf q) - qb_consumer_index (buf q)"
  have "queue_count (queue_push x q) = take_bit ?k (?d + 1)"
    using assms(1) by (simp add: queue_count_take_bit)
      (simp add: queue_push_def advance_producer_def queue_write_def queue_invD(1)
        and_mask_take_bit word_take_bit_diff_left algebra_simps)
  then have "unat (queue_count (queue_push x q)) = (unat (queue_count q) + 1) mod 2 ^ ?k"
    using unat_take_bit_Suc [of ?k ?d] queue_invD(3) [OF assms(1)]
    by (simp add: queue_count_take_bit [OF assms(1)])
  moreover have "unat (queue_count q) + 1 < 2 ^ ?k"
    using assms queue_count_bound [OF assms(1)] queue_full_count [OF assms(1)]
    by (simp add: queue_cap_eq)
  ultimately show ?thesis by simp
qed

lemma queue_count_pop:
  assumes "queue_inv q" and "\<not> queue_empty q"
  shows "Suc (unat (queue_count (advance_consumer q))) = unat (queue_count q)"
proof -
  let ?k = "queue_bits q"
  let ?d = "qb_producer_index (buf q) - qb_consumer_index (buf q)"
  have c: "queue_count (advance_consumer q) = take_bit ?k (?d - 1)"
    using assms(1) by (simp add: queue_count_take_bit)
      (simp add: advance_consumer_def queue_invD(1) and_mask_take_bit word_take_bit_diff_right
        algebra_simps)
  have "unat (queue_count q) = (unat (queue_count (advance_consumer q)) + 1) mod 2 ^ ?k"
    using unat_take_bit_Suc [of ?k "?d - 1"] queue_invD(3) [OF assms(1)]
    by (simp add: queue_count_take_bit [OF assms(1)] c)
  moreover have "unat (queue_count q) \<noteq> 0" using assms(2) by (simp add: queue_empty_count unat_eq_zero)
  moreover have "unat (queue_count (advance_consumer q)) < 2 ^ ?k"
    using queue_count_bound [of "advance_consumer q"] assms(1) by simp
  ultimately show ?thesis
    by (metis Suc_eq_plus1 Suc_lessI mod_less mod_self)
qed

lemma queue_slot_take_bit:
  "queue_inv q \<Longrightarrow> queue_slot q i = qb_data (buf q) (push_bit (unat (log2_elem_size q))
     (take_bit (queue_bits q) (qb_consumer_index (buf q) + of_nat i)))"
  by (simp add: queue_slot_def queue_invD(1) and_mask_take_bit)

lemma producer_addr_slot:
  assumes "queue_inv q"
  shows "producer_addr q = push_bit (unat (log2_elem_size q))
     (take_bit (queue_bits q) (qb_consumer_index (buf q) + of_nat (unat (queue_count q))))"
  by (simp add: queue_count_take_bit [OF assms] producer_addr_def queue_invD(1) [OF assms]
        and_mask_take_bit word_take_bit_add_right)

lemma queue_slot_push:
  assumes inv: "queue_inv q" and i: "i < 2 ^ queue_bits q"
  shows "queue_slot (queue_push x q) i =
           (if i = unat (queue_count q) then x else queue_slot q i)"
proof -
  let ?k = "queue_bits q" let ?l = "unat (log2_elem_size q)"
  let ?c = "qb_consumer_index (buf q)"
  have len32: "?k + ?l \<le> LENGTH(32)" using queue_invD(2) [OF inv] by simp
  let ?a = "\<lambda>i. push_bit ?l (take_bit ?k (?c + of_nat i)) :: u32"
  have "?a i = ?a (unat (queue_count q)) \<longleftrightarrow>
      take_bit ?k (of_nat i :: u32) = take_bit ?k (of_nat (unat (queue_count q)))"
    by (simp only: push_bit_take_bit_inj [OF len32] add.commute [of ?c]
          word_take_bit_add_cancel)
  also have "\<dots> \<longleftrightarrow> i = unat (queue_count q)"
    using i queue_count_bound [OF inv] queue_invD(3) [OF inv]
    by (intro word_take_bit_of_nat_eq_iff) simp_all
  finally have "?a i = producer_addr q \<longleftrightarrow> i = unat (queue_count q)"
    by (simp only: producer_addr_slot [OF inv])
  moreover have "queue_slot (queue_push x q) i = ((qb_data (buf q))(producer_addr q := x)) (?a i)"
    by (simp add: queue_slot_def queue_push_def advance_producer_def queue_write_def
          queue_invD(1) [OF inv] and_mask_take_bit)
  ultimately show ?thesis
    by (simp add: queue_slot_take_bit [OF inv])
qed

lemma queue_slot_pop:
  "queue_inv q \<Longrightarrow> queue_slot (advance_consumer q) i = queue_slot q (Suc i)"
  by (simp add: queue_slot_def advance_consumer_def queue_invD(1) and_mask_take_bit
        word_take_bit_add_left add.assoc)

lemma queue_list_push:
  assumes "queue_inv q" and "\<not> queue_full q"
  shows "queue_list (queue_push x q) = queue_list q @ [x]"
proof -
  let ?n = "unat (queue_count q)"
  have s: "queue_slot (queue_push x q) i = (if i = ?n then x else queue_slot q i)" if "i \<le> ?n" for i
    using queue_slot_push [OF assms(1), of i x] that queue_count_bound [OF assms(1)] by simp
  have "map (queue_slot (queue_push x q)) [0..<?n] = map (queue_slot q) [0..<?n]"
    by (rule map_cong) (simp_all add: s)
  then show ?thesis by (simp add: queue_list_def queue_count_push [OF assms] s)
qed

lemma queue_list_pop:
  assumes "queue_inv q" and "\<not> queue_empty q"
  shows "queue_list (advance_consumer q) = tl (queue_list q)"
proof -
  have "map (queue_slot (advance_consumer q)) [0..<n] = tl (map (queue_slot q) [0..<Suc n])" for n
    by (simp add: map_upt_Suc queue_slot_pop [OF assms(1)] del: upt_Suc)
  then show ?thesis by (simp only: queue_list_def flip: queue_count_pop [OF assms])
qed

lemma queue_list_head:
  assumes "queue_inv q" and "\<not> queue_empty q"
  shows "queue_list q \<noteq> [] \<and> queue_read q (consumer_addr q) = hd (queue_list q)"
proof -
  have "queue_slot q 0 = queue_read q (consumer_addr q)"
    by (simp add: queue_slot_def queue_read_def consumer_addr_def)
  then show ?thesis
    by (simp add: queue_list_def upt_conv_Cons del: upt_Suc flip: queue_count_pop [OF assms])
qed

lemma length_queue_list [simp]: "length (queue_list q) = unat (queue_count q)"
  by (simp add: queue_list_def)

interpretation rq: bounded_fifo queue_push advance_consumer "\<lambda>q. queue_read q (consumer_addr q)"
  queue_full queue_empty queue_list queue_cap queue_inv
proof unfold_locales
  fix q :: "'a rxe_queue" and x :: 'a
  show "queue_inv q \<Longrightarrow> queue_empty q \<longleftrightarrow> queue_list q = []"
    by (simp add: queue_empty_count queue_list_def unat_eq_zero)
  show "queue_inv q \<Longrightarrow> length (queue_list q) \<le> queue_cap q"
    using queue_count_bound [of q] by (simp add: queue_cap_eq)
qed (simp_all add: queue_list_push queue_list_pop queue_list_head queue_full_count)


subsection \<open>Addresses and creation\<close>

lemma slot_addr_in_buffer:
  assumes "queue_inv q" 
  shows "unat (push_bit (unat (log2_elem_size q)) (i AND index_mask q)) + 2 ^ unat (log2_elem_size q)
    \<le> (queue_cap q + 1) * 2 ^ unat (log2_elem_size q)"
proof -
  let ?k = "queue_bits q" let ?l = "unat (log2_elem_size q)"
  have kl: "?k + ?l \<le> LENGTH(32)" "?l < LENGTH(32)" using queue_invD(2) [OF assms] by simp_all
  have "unat (push_bit ?l (i AND index_mask q)) = 2 ^ ?l * (unat i mod 2 ^ ?k)"
    by (simp only: queue_invD(1) [OF assms] and_mask_take_bit unat_push_bit_take_bit [OF kl])
  moreover have "unat i mod 2 ^ ?k + 1 \<le> 2 ^ ?k" by (simp add: Suc_leI)
  then have "2 ^ ?l * (unat i mod 2 ^ ?k + 1) \<le> 2 ^ ?l * 2 ^ ?k" by (rule mult_le_mono2)
  ultimately show ?thesis by (simp add: queue_cap_eq [OF assms] algebra_simps)
qed

lemma index_from_addr_slot:
  assumes "queue_inv q"
  shows "index_from_addr q (addr_from_index q i) = i AND index_mask q"
proof -
  let ?k = "queue_bits q" let ?l = "unat (log2_elem_size q)"
  have "drop_bit ?l (push_bit ?l (take_bit ?k i)) = take_bit ?k i"
    using queue_invD(2) [OF assms] by (auto simp: bit_eq_iff bit_simps)
  then show ?thesis
    by (simp add: index_from_addr_def addr_from_index_def queue_invD [OF assms] and_mask_take_bit)
qed

lemma bitlen_mask: "bitlen (2 ^ k - Suc 0) = k"
proof (cases k)
  case (Suc j)
  have "(2::nat) ^ j \<le> 2 ^ Suc j - 1" by simp
  then show ?thesis using bitlen_unique [of j "2 ^ k - 1"] Suc by simp
qed simp

lemma order_base_2_pow: "l < 32 \<Longrightarrow> order_base_2 (push_bit l 1) = l"
proof -
  assume l: "l < 32"
  have "roundup_pow_of_two (push_bit l 1) = push_bit l 1"
    using l by (simp only: roundup_pow_of_two_def push_bit_1_minus_1 fls_eq_bitlen)
      (simp add: unat_mask bitlen_mask)
  moreover have "bitlen (2 ^ l) = Suc l" by (rule bitlen_unique) simp_all
  ultimately show "order_base_2 (push_bit l 1) = l"
    using l by (simp only: order_base_2_def ilog2_def fls_eq_bitlen unat_push_bit_1)
qed

text \<open>What \<open>rxe_queue_init\<close> computes, with the two rounded sizes as powers of two.\<close>

lemma rxe_queue_init_shape:
  assumes "(unat num_elem + 1) * max 64 (unat elem_sz) \<le> 2 ^ 29"
  obtains k l where "k + l < 31" and "unat num_elem + 1 \<le> 2 ^ k" and "2 ^ k < 2 * (unat num_elem + 1)"
    and "max 64 (unat elem_sz) \<le> 2 ^ l" and "roundup_pow_of_two (num_elem + 1) = push_bit k 1"
    and "roundup_pow_of_two (if elem_sz < cache_line_size then cache_line_size else elem_sz)
           = push_bit l 1"
proof -
  let ?e = "if elem_sz < cache_line_size then cache_line_size else elem_sz"
  let ?m = "max 64 (unat elem_sz)"
  have e: "unat ?e = ?m"
    by (auto simp: cache_line_size_def word_less_nat_alt max_def)
  have m1: "1 \<le> ?m" by simp
  have n31: "unat num_elem + 1 \<le> 2 ^ 29"
    using assms mult_le_mono2 [of 1 ?m "unat num_elem + 1"] m1 by simp
  have m31: "?m \<le> 2 ^ 29"
    using assms mult_le_mono1 [of 1 "unat num_elem + 1" ?m] by simp
  have n1: "unat (num_elem + 1) = unat num_elem + 1"
    using n31 by (simp add: unat_word_ariths)
  obtain k where k: "roundup_pow_of_two (num_elem + 1) = push_bit k 1"
    "unat num_elem + 1 \<le> 2 ^ k" "2 ^ k < 2 * (unat num_elem + 1)"
    using roundup_pow_of_two_correct [of "num_elem + 1"] n31 n1
    by (auto simp: word_less_nat_alt)
  have "0 < ?e" using e m1 by (simp only: word_less_nat_alt) simp
  moreover have "unat ?e \<le> 2 ^ 31" using e m31 by simp
  ultimately obtain l where l: "roundup_pow_of_two ?e = push_bit l 1" "?m \<le> 2 ^ l" "2 ^ l < 2 * ?m"
    using roundup_pow_of_two_correct [of ?e] unfolding e by blast
  have "(2::nat) ^ (k + l) < 2 * (unat num_elem + 1) * (2 * ?m)"
    unfolding power_add using k(3) l(3) by (intro mult_strict_mono) simp_all
  also have "\<dots> \<le> 2 ^ 31" using assms by simp
  finally have "k + l < 31" by (rule power_less_imp_less_exp [rotated]) simp
  then show ?thesis using that k l by blast
qed

lemma rxe_queue_init_Some:
  assumes "(unat num_elem + 1) * max 64 (unat elem_sz) \<le> 2 ^ 29"
  obtains q where "rxe_queue_init True True zero num_elem elem_sz = Some (q, index_mask q)"
    and "queue_inv q" and "queue_list q = []" and "unat num_elem \<le> queue_cap q"
    and "queue_cap q \<le> 2 * unat num_elem"
    and "max 64 (unat elem_sz) \<le> 2 ^ unat (log2_elem_size q)"
    and "unat (buf_size q) = 384 + (queue_cap q + 1) * 2 ^ unat (log2_elem_size q)"
proof -
  obtain k l where kl: "k + l < 31" and k: "unat num_elem + 1 \<le> 2 ^ k" "2 ^ k < 2 * (unat num_elem + 1)"
    and l: "max 64 (unat elem_sz) \<le> 2 ^ l"
    and rn: "roundup_pow_of_two (num_elem + 1) = push_bit k 1"
    and re: "roundup_pow_of_two (if elem_sz < cache_line_size then cache_line_size else elem_sz)
           = push_bit l 1"
    using rxe_queue_init_shape [OF assms] by blast
  define q where "q = \<lparr>buf = \<lparr>qb_log2_elem_size = of_nat l, qb_index_mask = mask k,
      qb_producer_index = 0, qb_consumer_index = 0, qb_data = (\<lambda>_. zero)\<rparr>,
      buf_size = sizeof_rxe_queue_buf + push_bit k 1 * push_bit l 1, elem_size = elem_sz,
      log2_elem_size = of_nat l, index_mask = mask k\<rparr>"
  have [simp]: "unat (of_nat l :: u32) = l" using kl by (simp add: unat_of_nat)
  have eq: "rxe_queue_init True True zero num_elem elem_sz = Some (q, index_mask q)"
    using kl by (simp only: rxe_queue_init_def rn re Let_def order_base_2_pow push_bit_1_minus_1)
      (simp add: q_def order_base_2_pow)
  have bits: "queue_bits q = k" using kl by (simp add: queue_bits_def q_def unat_mask bitlen_mask)
  then have inv: "queue_inv q" using kl by (simp add: queue_inv_def) (simp add: q_def)
  have cap: "queue_cap q = 2 ^ k - 1" using inv by (simp add: queue_cap_eq bits)
  have "queue_list q = []" by (simp add: queue_list_def queue_count_def q_def)
  moreover have "unat num_elem \<le> queue_cap q" "queue_cap q \<le> 2 * unat num_elem"
    using k unfolding cap by simp_all
  moreover have log2: "unat (log2_elem_size q) = l" by (simp add: q_def)
  moreover have "unat (buf_size q) = 384 + (queue_cap q + 1) * 2 ^ l"
  proof -
    have "unat (push_bit k 1 * push_bit l 1 :: u32) = 2 ^ (k + l)"
      using kl unat_push_bit_1 [of "k + l"] by (simp add: push_bit_eq_mult power_add)
    moreover have "(2::nat) ^ (k + l) < 2 ^ 31"
      using kl by (intro power_strict_increasing) simp_all
    ultimately have "unat (buf_size q) = 384 + 2 ^ (k + l)"
      by (simp add: q_def unat_word_ariths(1) sizeof_rxe_queue_buf_def)
    then show ?thesis by (simp add: cap power_add)
  qed
  ultimately show ?thesis using that [OF eq inv] l by simp
qed

subsection \<open>Resizing\<close>

lemma resize_copy_moves:
  assumes "queue_inv q" and "queue_inv n"
    and "length (queue_list n) + length (queue_list q) \<le> queue_cap n"
  shows "\<exists>q' n'. resize_copy q n = Some (q', n') \<and> queue_list n' = queue_list n @ queue_list q
    \<and> queue_list q' = [] \<and> queue_inv n' \<and> queue_cap n' = queue_cap n \<and> queue_inv q'"
  using assms
proof (induction "queue_list q" arbitrary: q n)
  case Nil
  then have "queue_empty q" by (simp add: rq.contents_empty)
  with Nil show ?case by (simp add: resize_copy.simps)
next
  case (Cons x xs)
  from Cons.prems have ne: "\<not> queue_empty q"
    by (simp add: rq.contents_empty flip: Cons.hyps(2))
  have x: "queue_read q (consumer_addr q) = x"
    using rq.contents_head [OF Cons.prems(1) ne] by (simp flip: Cons.hyps(2))
  have xs: "queue_list (advance_consumer q) = xs"
    using rq.contents_pop [OF Cons.prems(1) ne] by (simp flip: Cons.hyps(2))
  have "\<not> queue_full n"
    using Cons.prems(2,3) by (simp add: rq.contents_full del: length_queue_list flip: Cons.hyps(2))
  then have p: "queue_list (queue_push x n) = queue_list n @ [x]"
    using Cons.prems(2) by (simp add: queue_list_push)
  have "resize_copy q n = resize_copy (advance_consumer q) (queue_push x n)"
    by (subst resize_copy.simps) (simp add: ne x queue_push_def)
  moreover have "length (queue_list (queue_push x n)) + length (queue_list (advance_consumer q))
      \<le> queue_cap (queue_push x n)"
    using Cons.prems(3) by (simp add: p xs del: length_queue_list flip: Cons.hyps(2))
  ultimately show ?case
    using Cons.hyps(1) [of "advance_consumer q" "queue_push x n"] Cons.prems p xs
    by (simp flip: Cons.hyps(2))
qed

subsection \<open>Properties\<close>

text \<open>A queue of three elements of four bytes, for the witnesses.\<close>

definition sample_queue :: "nat rxe_queue" where
  "sample_queue = \<lparr>buf = \<lparr>qb_log2_elem_size = 6, qb_index_mask = 3, qb_producer_index = 2,
      qb_consumer_index = 1, qb_data = (\<lambda>a. if a = 64 then 7 else 0)\<rparr>,
    buf_size = 640, elem_size = 4, log2_elem_size = 6, index_mask = 3\<rparr>"

lemma sample_queue_facts:
  "queue_inv sample_queue" "queue_list sample_queue = [7]" "queue_cap sample_queue = 3"
  by code_simp+



text \<open>
  C24: the kernel never leaves the data area. Whatever user space writes into the shared header
  (here an arbitrary one, \<open>b\<close>), the slots at \<open>producer_addr\<close> and
  \<open>consumer_addr\<close> lie wholly inside the slots of the buffer and the count is at most
  the capacity.
\<close>

theorem queue_addresses_in_buffer:
  assumes "queue_inv q"
  shows "unat (producer_addr (q\<lparr>buf := b\<rparr>)) + 2 ^ unat (log2_elem_size q)
      \<le> (queue_cap q + 1) * 2 ^ unat (log2_elem_size q)
    \<and> unat (consumer_addr (q\<lparr>buf := b\<rparr>)) + 2 ^ unat (log2_elem_size q)
      \<le> (queue_cap q + 1) * 2 ^ unat (log2_elem_size q)
    \<and> unat (queue_count (q\<lparr>buf := b\<rparr>)) \<le> queue_cap q"
proof -
  have "unat (queue_count (q\<lparr>buf := b\<rparr>)) < 2 ^ queue_bits q"
    by (simp add: queue_count_def queue_invD(1) [OF assms] and_mask_take_bit unat_take_bit)
  then show ?thesis
    using slot_addr_in_buffer [OF assms]
    by (simp add: producer_addr_def consumer_addr_def queue_cap_eq [OF assms])
qed

theorem queue_addresses_in_buffer_witness:
  "unat (producer_addr (sample_queue\<lparr>buf := (buf sample_queue)\<lparr>qb_producer_index := 0xffffffff\<rparr>\<rparr>)) + 64
     \<le> 256"
  using queue_addresses_in_buffer
    [of sample_queue "(buf sample_queue)\<lparr>qb_producer_index := 0xffffffff\<rparr>"]
  by (simp add: sample_queue_facts) (simp add: sample_queue_def)

text \<open>
  C25: \<open>rxe_queue_init\<close> succeeds when its two allocations do, for every request whose
  padded size fits the address space, and builds an empty well-formed queue that holds at least
  the requested and at most twice the requested number of elements, each in a slot of at least
  a cache line; the new \<open>*num_elem\<close> is the capacity, and the buffer size it allocates
  does not wrap.
\<close>

theorem rxe_queue_init_correct:
  assumes "(unat num_elem + 1) * max 64 (unat elem_sz) \<le> 2 ^ 29"
  shows "\<exists>q. rxe_queue_init True True zero num_elem elem_sz = Some (q, index_mask q)
    \<and> queue_inv q \<and> queue_list q = [] \<and> unat num_elem \<le> queue_cap q
    \<and> queue_cap q \<le> 2 * unat num_elem
    \<and> max 64 (unat elem_sz) \<le> 2 ^ unat (log2_elem_size q)
    \<and> unat (buf_size q) = 384 + (queue_cap q + 1) * 2 ^ unat (log2_elem_size q)"
  by (rule rxe_queue_init_Some [OF assms, of zero]) blast

theorem rxe_queue_init_correct_witness:
  "\<exists>q. rxe_queue_init True True (0::nat) 100 72 = Some (q, index_mask q)
     \<and> queue_inv q \<and> 100 \<le> queue_cap q"
  using rxe_queue_init_correct [of 100 72 "0::nat"] by auto

text \<open>
  C26: \<open>resize_finish\<close> always returns. It refuses with \<open>EINVAL\<close> exactly when
  the queue holds more elements than the new size, and otherwise leaves a queue with the new
  capacity and exactly the old elements in the old order.
\<close>

theorem resize_finish_correct:
  assumes "queue_inv q" and "queue_inv n" and "queue_list n = []" and "unat num_elem = queue_cap n"
  shows "(queue_cap n < length (queue_list q) \<longrightarrow> resize_finish q n num_elem = Some (Inl EINVAL))
    \<and> (length (queue_list q) \<le> queue_cap n \<longrightarrow> (\<exists>q' old. resize_finish q n num_elem = Some (Inr (q', old))
         \<and> queue_list q' = queue_list q \<and> queue_inv q' \<and> queue_cap q' = queue_cap n
         \<and> queue_list old = []))"
proof -
  have lt: "num_elem < queue_count q \<longleftrightarrow> queue_cap n < length (queue_list q)"
    using assms(4) by (simp add: word_less_nat_alt)
  have "queue_empty q \<longleftrightarrow> queue_list q = []" by (rule rq.contents_empty) fact
  then show ?thesis
    using resize_copy_moves [OF assms(1,2)] assms(3)
    by (auto simp: resize_finish_def lt simp del: length_queue_list)
qed

theorem resize_finish_correct_witness:
  "\<exists>n. queue_inv n \<and> queue_list n = [] \<and> (\<exists>q' old.
     resize_finish sample_queue n (index_mask n) = Some (Inr (q', old)) \<and> queue_list q' = [7])"
proof -
  obtain n where n: "queue_inv n" "queue_list n = ([] :: nat list)" "1 \<le> queue_cap n"
    using rxe_queue_init_Some [of 1 4 "0::nat"] by auto
  with resize_finish_correct [of sample_queue n "index_mask n"] show ?thesis
    by (auto simp: sample_queue_facts queue_cap_def)
qed

text \<open>
  \<open>addr_from_index\<close> has no such bound: it shifts by the user-writable copy of the
  element size, so a changed header sends it past the last slot.
\<close>

lemma addr_from_index_escapes:
  "\<exists>b. (queue_cap sample_queue + 1) * 2 ^ unat (log2_elem_size sample_queue)
     \<le> unat (addr_from_index (sample_queue\<lparr>buf := b\<rparr>) 3)"
  by (rule exI [of _ "(buf sample_queue)\<lparr>qb_log2_elem_size := 20\<rparr>"])
    (simp add: queue_cap_def sample_queue_def addr_from_index_def push_bit_eq_mult)

subsection \<open>Elements updated in place\<close>

text \<open>Overwriting the oldest element in place, as the requester and the completer do with a work
  request.\<close>

lemma queue_list_write_head:
  assumes "queue_inv q" and "\<not> queue_empty q"
  shows "queue_list (queue_write q (consumer_addr q) x) = x # tl (queue_list q)"
proof -
  let ?w = "queue_write q (consumer_addr q) x" and ?k = "queue_bits q" and ?l = "unat (log2_elem_size q)"
  have len32: "?k + ?l \<le> LENGTH(32)" using queue_invD(2) [OF assms(1)] by simp
  have c: "queue_count ?w = queue_count q" by (simp add: queue_count_def queue_write_def)
  have s: "queue_slot ?w i = (if i = 0 then x else queue_slot q i)" if "i < unat (queue_count q)" for i
  proof -
    have i: "i < 2 ^ ?k" using that queue_count_bound [OF assms(1)] by simp
    let ?a = "\<lambda>i. push_bit ?l (take_bit ?k (qb_consumer_index (buf q) + of_nat i)) :: u32"
    have "?a i = ?a 0 \<longleftrightarrow> take_bit ?k (of_nat i :: u32) = take_bit ?k (of_nat 0)"
      by (simp only: push_bit_take_bit_inj [OF len32] add.commute [of "qb_consumer_index (buf q)"]
        word_take_bit_add_cancel)
    also have "\<dots> \<longleftrightarrow> i = 0"
      using i queue_invD(3) [OF assms(1)] by (intro word_take_bit_of_nat_eq_iff) simp_all
    finally show ?thesis
      by (simp add: queue_slot_take_bit assms(1))
        (simp add: queue_write_def consumer_addr_def queue_invD(1) [OF assms(1)] and_mask_take_bit)
  qed
  obtain n where n: "unat (queue_count q) = Suc n" using queue_count_pop [OF assms] by metis
  have "map (queue_slot ?w) [0..<Suc n] = x # tl (map (queue_slot q) [0..<Suc n])"
    using s unfolding n by (simp add: map_upt_Suc del: upt_Suc)
  then show ?thesis by (simp add: queue_list_def c n del: upt_Suc)
qed

lemma queue_write_simps [simp]:
  "queue_empty (queue_write q a x) = queue_empty q" "consumer_addr (queue_write q a x) = consumer_addr q"
  "queue_read (queue_write q a x) a = x" "queue_head (queue_write q a x) = queue_head q"
  "queue_write (queue_write q a x) a y = queue_write q a y"
  by (simp_all add: queue_empty_def consumer_addr_def queue_read_def queue_write_def queue_head_def)

lemma queue_head_list:
  "queue_inv q \<Longrightarrow> queue_head q = (if queue_list q = [] then None else Some (consumer_addr q))"
  by (simp add: queue_head_def rq.contents_empty)

end
