(* ===== verification/Rxe_Task.thy ===== *)
theory Rxe_Task
  imports Rxe_Prelude
begin

text \<open>
  The task scheduler of \<open>rxe_task.c\<close>. A task is a function that is called again as long as it
  returns 0; several threads may try to run it at once and the task state under its lock decides
  who does. The two critical sections of \<open>rxe_do_task\<close> are functions of the task; the
  interleavings of any number of threads are a step relation over them. The lemmas show that the
  task function never runs in two threads at once and that no request to run it is lost.
\<close>

subsection \<open>The task structure\<close>

abbreviation (input) TASK_STATE_START :: int where "TASK_STATE_START \<equiv> 0"
abbreviation (input) TASK_STATE_BUSY :: int where "TASK_STATE_BUSY \<equiv> 1"
abbreviation (input) TASK_STATE_ARMED :: int where "TASK_STATE_ARMED \<equiv> 2"

text \<open>The tasklet is its pending bit and its disable count.\<close>

record rxe_task =
  task_fast :: int
  tasklet_pending :: bool
  tasklet_disabled :: nat
  task_state :: int
  task_ret :: int
  task_name :: string

definition rxe_init_task :: "int \<Rightarrow> string \<Rightarrow> rxe_task" where
  "rxe_init_task fast name = \<lparr>task_fast = fast, tasklet_pending = False, tasklet_disabled = 0,
     task_state = TASK_STATE_START, task_ret = 0, task_name = take 15 name\<rparr>"

text \<open>\<open>__rxe_do_task\<close>: \<open>None\<close> when the function never returns non-zero.\<close>

partial_function (option) rxe_do_task_raw ::
    "('s \<Rightarrow> int \<times> 's) \<Rightarrow> 's \<Rightarrow> (int \<times> 's) option" where
  "rxe_do_task_raw func s = (case func s of (ret, s') \<Rightarrow>
     if ret = 0 then rxe_do_task_raw func s' else Some (ret, s'))"

text \<open>The first critical section of \<open>rxe_do_task\<close>: whether this caller runs the function.\<close>

definition rxe_do_task_enter :: "rxe_task \<Rightarrow> rxe_task \<times> bool" where
  "rxe_do_task_enter t =
     (if task_state t = TASK_STATE_START then (t\<lparr>task_state := TASK_STATE_BUSY\<rparr>, True)
      else if task_state t = TASK_STATE_BUSY then (t\<lparr>task_state := TASK_STATE_ARMED\<rparr>, False)
      else if task_state t = TASK_STATE_ARMED then (t, False)
      else (t, False))"

text \<open>The second one, after the function returned \<open>ret\<close>: whether to continue. On leaving the
  loop the return value is recorded.\<close>

definition rxe_do_task_check :: "rxe_task \<Rightarrow> int \<Rightarrow> rxe_task \<times> bool" where
  "rxe_do_task_check t ret =
     (if task_state t = TASK_STATE_BUSY
      then (if ret \<noteq> 0 then (t\<lparr>task_state := TASK_STATE_START, task_ret := ret\<rparr>, False)
            else (t, True))
      else if task_state t = TASK_STATE_ARMED
      then (t\<lparr>task_state := TASK_STATE_BUSY\<rparr>, True)
      else (t\<lparr>task_ret := ret\<rparr>, False))"

definition rxe_fast_path_ok :: "bool \<Rightarrow> bool \<Rightarrow> int \<Rightarrow> bool" where
  "rxe_fast_path_ok in_irq irqs_disabled fast =
     (if fast = 0 \<or> (fast = 1 \<and> (in_irq \<or> irqs_disabled)) then False else True)"

text \<open>\<open>rxe_run_task\<close>: the result says whether the caller goes on into
  \<open>rxe_do_task\<close> itself.\<close>

definition rxe_run_task :: "bool \<Rightarrow> bool \<Rightarrow> rxe_task \<Rightarrow> int \<Rightarrow> rxe_task \<times> bool" where
  "rxe_run_task in_irq irqs_disabled t sched =
     (if sched \<noteq> 0 \<or> \<not> rxe_fast_path_ok in_irq irqs_disabled (task_fast t)
      then (t\<lparr>tasklet_pending := True\<rparr>, False) else (t, True))"

definition rxe_disable_task :: "rxe_task \<Rightarrow> rxe_task" where
  "rxe_disable_task t = t\<lparr>tasklet_disabled := tasklet_disabled t + 1\<rparr>"

definition rxe_enable_task :: "rxe_task \<Rightarrow> rxe_task" where
  "rxe_enable_task t = t\<lparr>tasklet_disabled := tasklet_disabled t - 1\<rparr>"

definition rxe_cleanup_task :: "rxe_task \<Rightarrow> rxe_task" where
  "rxe_cleanup_task t = t\<lparr>tasklet_pending := False\<rparr>"

subsection \<open>One uninterrupted caller\<close>

text \<open>\<open>rxe_do_task\<close> when no other thread comes between: the loop over both sections.\<close>

partial_function (option) do_task_loop ::
    "('s \<Rightarrow> int \<times> 's) \<Rightarrow> rxe_task \<Rightarrow> 's \<Rightarrow> (rxe_task \<times> 's) option" where
  "do_task_loop func t s = (case func s of (ret, s') \<Rightarrow>
     (case rxe_do_task_check t ret of (t', cont) \<Rightarrow>
        if cont then do_task_loop func t' s' else Some (t', s')))"

definition rxe_do_task :: "('s \<Rightarrow> int \<times> 's) \<Rightarrow> rxe_task \<Rightarrow> 's \<Rightarrow> (rxe_task \<times> 's) option" where
  "rxe_do_task func t s = (case rxe_do_task_enter t of (t', run) \<Rightarrow>
     if run then do_task_loop func t' s else Some (t', s))"

subsection \<open>Interleavings\<close>

text \<open>Where a thread is in \<open>rxe_do_task\<close>: outside, before the first lock, about to call the
  function, inside it, or holding its result before the second lock.\<close>

datatype task_pc = Outside | Entering | Calling | InFunc | Returned int

text \<open>\<open>owed\<close> is a ghost flag: someone asked for the task since the function was last called.\<close>

record 'th task_sys =
  sys_task :: rxe_task
  sys_pc :: "'th \<Rightarrow> task_pc"
  sys_owed :: bool

inductive task_step :: "'th task_sys \<Rightarrow> 'th task_sys \<Rightarrow> bool" where
  run: "sys_pc s th = Outside \<Longrightarrow> rxe_run_task irq dis (sys_task s) sched = (t, direct) \<Longrightarrow>
    task_step s (s\<lparr>sys_task := t, sys_owed := True,
      sys_pc := (sys_pc s)(th := if direct then Entering else Outside)\<rparr>)"
| tasklet: "sys_pc s th = Outside \<Longrightarrow> tasklet_pending (sys_task s) \<Longrightarrow>
    tasklet_disabled (sys_task s) = 0 \<Longrightarrow>
    task_step s (s\<lparr>sys_task := (sys_task s)\<lparr>tasklet_pending := False\<rparr>,
      sys_pc := (sys_pc s)(th := Entering)\<rparr>)"
| enter: "sys_pc s th = Entering \<Longrightarrow> rxe_do_task_enter (sys_task s) = (t, go) \<Longrightarrow>
    task_step s (s\<lparr>sys_task := t,
      sys_pc := (sys_pc s)(th := if go then Calling else Outside)\<rparr>)"
| call: "sys_pc s th = Calling \<Longrightarrow>
    task_step s (s\<lparr>sys_owed := False, sys_pc := (sys_pc s)(th := InFunc)\<rparr>)"
| return: "sys_pc s th = InFunc \<Longrightarrow>
    task_step s (s\<lparr>sys_pc := (sys_pc s)(th := Returned ret)\<rparr>)"
| check: "sys_pc s th = Returned ret \<Longrightarrow> rxe_do_task_check (sys_task s) ret = (t, cont) \<Longrightarrow>
    task_step s (s\<lparr>sys_task := t,
      sys_pc := (sys_pc s)(th := if cont then Calling else Outside)\<rparr>)"
| disable: "task_step s (s\<lparr>sys_task := rxe_disable_task (sys_task s)\<rparr>)"
| enable: "task_step s (s\<lparr>sys_task := rxe_enable_task (sys_task s)\<rparr>)"

inductive_cases task_stepE: "task_step s s'"

definition task_init :: "'th task_sys \<Rightarrow> bool" where
  "task_init s \<longleftrightarrow> (\<exists>fast name. sys_task s = rxe_init_task fast name)
     \<and> (\<forall>th. sys_pc s th = Outside) \<and> \<not> sys_owed s"

fun pc_runs :: "task_pc \<Rightarrow> bool" where
  "pc_runs Calling = True"
| "pc_runs InFunc = True"
| "pc_runs (Returned _) = True"
| "pc_runs _ = False"

text \<open>The state is START exactly when no thread is in the loop, and then at most one thread is.\<close>

definition task_exclusive :: "'th task_sys \<Rightarrow> bool" where
  "task_exclusive s \<longleftrightarrow> task_state (sys_task s) \<in> {TASK_STATE_START, TASK_STATE_BUSY, TASK_STATE_ARMED}
     \<and> (task_state (sys_task s) = TASK_STATE_START \<longleftrightarrow> (\<forall>th. \<not> pc_runs (sys_pc s th)))
     \<and> (\<forall>th th'. pc_runs (sys_pc s th) \<longrightarrow> pc_runs (sys_pc s th') \<longrightarrow> th = th')"

text \<open>An owed call is somewhere: in the pending tasklet, in a caller on its way in, in a thread
  about to call, or in the ARMED state.\<close>

definition pc_pledged :: "('th \<Rightarrow> task_pc) \<Rightarrow> bool" where
  "pc_pledged pc \<longleftrightarrow> (\<exists>th. pc th \<in> {Entering, Calling})"

definition task_pledge :: "'th task_sys \<Rightarrow> bool" where
  "task_pledge s \<longleftrightarrow> sys_owed s \<longrightarrow> tasklet_pending (sys_task s)
     \<or> pc_pledged (sys_pc s) \<or> task_state (sys_task s) = TASK_STATE_ARMED"

definition task_inv :: "'th task_sys \<Rightarrow> bool" where
  "task_inv s \<longleftrightarrow> task_exclusive s \<and> task_pledge s"

subsection \<open>Invariant\<close>

text \<open>A step that keeps the state and who runs keeps the exclusion.\<close>

lemma task_exclusive_frame:
  assumes "task_state (sys_task s') = task_state (sys_task s)"
    and "\<And>th. pc_runs (sys_pc s' th) = pc_runs (sys_pc s th)"
  shows "task_exclusive s' = task_exclusive s"
  by (simp add: task_exclusive_def assms)

lemma task_exclusive_step:
  assumes "task_exclusive s" and "task_step s s'"
  shows "task_exclusive s'"
  using assms(2)
proof cases
  case (enter th t go)
  then show ?thesis using assms(1)
    by (auto simp: task_exclusive_def rxe_do_task_enter_def split: if_splits) force+
next
  case (check th ret t cont)
  from check(2) have "pc_runs (sys_pc s th)" by simp
  then show ?thesis using assms(1) check
    by (auto simp: task_exclusive_def rxe_do_task_check_def split: if_splits)
next
  case (run th irq dis t sched direct)
  then have "task_exclusive s' = task_exclusive s"
    by (intro task_exclusive_frame) (auto simp: rxe_run_task_def split: if_splits)
  then show ?thesis using assms(1) by simp
next
  case (tasklet th)
  then have "task_exclusive s' = task_exclusive s" by (intro task_exclusive_frame) auto
  then show ?thesis using assms(1) by simp
next
  case (call th)
  then have "task_exclusive s' = task_exclusive s" by (intro task_exclusive_frame) auto
  then show ?thesis using assms(1) by simp
next
  case (return th ret)
  then have "task_exclusive s' = task_exclusive s" by (intro task_exclusive_frame) auto
  then show ?thesis using assms(1) by simp
qed (use assms(1) in \<open>auto simp: task_exclusive_def rxe_disable_task_def rxe_enable_task_def\<close>)

text \<open>A thread that moves on from a place that holds no pledge leaves the others in place.\<close>

lemma pc_pledged_upd:
  "pc_pledged (pc(th := Entering))" "pc_pledged (pc(th := Calling))"
  "pc_pledged pc \<Longrightarrow> pc th \<noteq> Entering \<Longrightarrow> pc th \<noteq> Calling \<Longrightarrow> pc_pledged (pc(th := c))"
  by (auto simp: pc_pledged_def)

lemma task_pledge_step:
  assumes "task_exclusive s" and "task_pledge s" and "task_step s s'"
  shows "task_pledge s'"
  using assms(3)
proof cases
  case (enter th t go)
  then show ?thesis using assms(1,2)
    by (auto simp: task_exclusive_def task_pledge_def rxe_do_task_enter_def pc_pledged_upd
        split: if_splits)
next
  case (check th ret t cont)
  then show ?thesis using assms(1,2)
    by (auto simp: task_exclusive_def task_pledge_def rxe_do_task_check_def pc_pledged_upd
        split: if_splits)
next
  case (return th ret)
  then show ?thesis using assms(2) by (auto simp: task_pledge_def pc_pledged_upd)
next
  case (run th irq dis t sched direct)
  then show ?thesis
    by (auto simp: task_pledge_def rxe_run_task_def pc_pledged_upd split: if_splits)
qed (use assms(2) in \<open>auto simp: task_pledge_def rxe_disable_task_def rxe_enable_task_def
      pc_pledged_upd\<close>)

interpretation tk: step_invariant task_step task_init task_inv
proof unfold_locales
  fix s :: "'a task_sys"
  show "task_init s \<Longrightarrow> task_inv s"
    by (auto simp: task_init_def task_inv_def task_exclusive_def task_pledge_def
        rxe_init_task_def)
next
  fix s t :: "'a task_sys"
  show "task_inv s \<Longrightarrow> task_step s t \<Longrightarrow> task_inv t"
    by (auto simp: task_inv_def intro: task_exclusive_step task_pledge_step)
qed

subsection \<open>Termination of one caller\<close>

lemma rxe_do_task_raw_returns:
  assumes "\<And>s s'. func s = (0, s') \<Longrightarrow> m s' < (m s :: nat)"
  shows "\<exists>ret s'. rxe_do_task_raw func s = Some (ret, s') \<and> ret \<noteq> 0"
proof (induction "m s" arbitrary: s rule: less_induct)
  case less
  obtain ret s' where f: "func s = (ret, s')" by (cases "func s")
  show ?case
  proof (cases "ret = 0")
    case True
    with f assms have "m s' < m s" by simp
    from less [OF this] f True show ?thesis by (subst rxe_do_task_raw.simps) simp
  next
    case False
    then show ?thesis by (subst rxe_do_task_raw.simps) (simp add: f)
  qed
qed

lemma do_task_loop_raw:
  assumes "rxe_do_task_raw func s = Some (ret, s')" and "task_state t = TASK_STATE_BUSY"
  shows "do_task_loop func t s = Some (t\<lparr>task_state := TASK_STATE_START, task_ret := ret\<rparr>, s')"
proof -
  have "do_task_loop func t s = Some (t\<lparr>task_state := TASK_STATE_START, task_ret := fst r\<rparr>, snd r)"
    if "rxe_do_task_raw func s = Some r" for r
    using that
  proof (rule rxe_do_task_raw.raw_induct [where P = "\<lambda>func s r. do_task_loop func t s =
      Some (t\<lparr>task_state := TASK_STATE_START, task_ret := fst r\<rparr>, snd r)", rotated])
    fix rec func s r
    assume "\<And>func s r. rec func s = Some r \<Longrightarrow> do_task_loop func t s =
        Some (t\<lparr>task_state := TASK_STATE_START, task_ret := fst r\<rparr>, snd r)"
      and "(case func s of (ret, s') \<Rightarrow> if ret = 0 then rec func s' else Some (ret, s')) = Some r"
    moreover obtain ret s' where f: "func s = (ret, s')" by (cases "func s")
    ultimately show "do_task_loop func t s =
        Some (t\<lparr>task_state := TASK_STATE_START, task_ret := fst r\<rparr>, snd r)"
      using assms(2) by (subst do_task_loop.simps)
        (auto simp: f rxe_do_task_check_def split: if_splits)
  qed
  from this [OF assms(1)] show ?thesis by simp
qed

subsection \<open>Properties\<close>

text \<open>
  C8: mutual exclusion. In every interleaving of any number of threads that run, schedule, disable
  and enable a task, at most one thread is inside the loop of \<open>rxe_do_task\<close>, so the task
  function never runs twice at once; and the task is in state START exactly when no thread is there.
\<close>

theorem task_mutual_exclusion:
  assumes "task_init s" and "rtranclp task_step s s'"
  shows "(\<forall>th th'. pc_runs (sys_pc s' th) \<and> pc_runs (sys_pc s' th') \<longrightarrow> th = th')
    \<and> (task_state (sys_task s') = TASK_STATE_START \<longleftrightarrow> (\<forall>th. \<not> pc_runs (sys_pc s' th)))"
  using tk.inv_reachable [OF assms] by (simp add: task_inv_def task_exclusive_def)

text \<open>Two threads: the first runs the function, the second finds it busy and arms it.\<close>

definition sample_sys :: "bool task_sys" where
  "sample_sys = \<lparr>sys_task = rxe_init_task 2 ''req'', sys_pc = (\<lambda>_. Outside), sys_owed = False\<rparr>"

lemma sample_sys_run:
  "task_init sample_sys"
  "rtranclp task_step sample_sys (sample_sys\<lparr>sys_owed := True, sys_pc := (\<lambda>_. Outside)(True := Entering)\<rparr>)"
proof -
  show "task_init sample_sys" by (auto simp: task_init_def sample_sys_def)
  have "task_step sample_sys (sample_sys\<lparr>sys_task := sys_task sample_sys, sys_owed := True,
      sys_pc := (sys_pc sample_sys)(True := if True then Entering else Outside)\<rparr>)"
    by (rule task_step.run) (simp_all add: sample_sys_def rxe_run_task_def rxe_fast_path_ok_def
        rxe_init_task_def)
  then show "rtranclp task_step sample_sys
      (sample_sys\<lparr>sys_owed := True, sys_pc := (\<lambda>_. Outside)(True := Entering)\<rparr>)"
    by (simp add: sample_sys_def r_into_rtranclp)
qed

theorem task_mutual_exclusion_witness:
  "task_state (sys_task (sample_sys\<lparr>sys_owed := True, sys_pc := (\<lambda>_. Outside)(True := Entering)\<rparr>))
     = TASK_STATE_START"
  using task_mutual_exclusion [OF sample_sys_run] by simp



text \<open>
  C32: for a function that makes progress (some measure decreases with every call that returns 0)
  the loop of \<open>__rxe_do_task\<close> ends, and an undisturbed \<open>rxe_do_task\<close> on an idle task
  does exactly the same work, records the same return value and leaves the task idle.
\<close>

theorem rxe_do_task_terminates:
  assumes "\<And>s s'. func s = (0, s') \<Longrightarrow> m s' < (m s :: nat)" and "task_state t = TASK_STATE_START"
  shows "\<exists>ret s'. ret \<noteq> 0 \<and> rxe_do_task_raw func s = Some (ret, s')
    \<and> rxe_do_task func t s = Some (t\<lparr>task_ret := ret\<rparr>, s')"
proof -
  obtain ret s' where r: "rxe_do_task_raw func s = Some (ret, s')" "ret \<noteq> 0"
    using rxe_do_task_raw_returns [of func m s] assms(1) by blast
  have "t\<lparr>task_state := TASK_STATE_START\<rparr> = t" using assms(2) by simp
  with do_task_loop_raw [OF r(1), of "t\<lparr>task_state := TASK_STATE_BUSY\<rparr>"] r assms(2)
  show ?thesis by (simp add: rxe_do_task_def rxe_do_task_enter_def)
qed

theorem rxe_do_task_terminates_witness:
  "\<exists>ret s'. ret \<noteq> 0 \<and>
     rxe_do_task (\<lambda>n :: nat. if n = 0 then (-11, 0) else (0, n - 1)) (rxe_init_task 0 ''comp'') 3
       = Some ((rxe_init_task 0 ''comp'')\<lparr>task_ret := ret\<rparr>, s')"
proof -
  have "m' < m" if "(\<lambda>n :: nat. if n = 0 then (-11 :: int, 0) else (0, n - 1)) m = (0, m')"
    for m m' :: nat
    using that by (auto split: if_splits)
  from rxe_do_task_terminates [where m = "\<lambda>n. n" and func = "\<lambda>n. if n = 0 then (-11, 0) else (0, n - 1)" and t = "rxe_init_task 0 ''comp''" and s = 3,
      OF this]
  show ?thesis by (auto simp: rxe_init_task_def)
qed

end
