(* ===== verification/Rxe_Pool.thy ===== *)
theory Rxe_Pool
  imports Rxe_Prelude "HOL-Library.Tree" "HOL-Library.List_Lexorder"
begin

text \<open>
  Pools of managed objects, \<open>rxe_pool.h\<close> and \<open>rxe_pool.c\<close>: allocation with a limit,
  reference counts, index allocation from a bit table, and lookup by index or by key in a search
  tree. An element is a handle (its address); the pool holds the entry of every live element.
  The walks down the search tree are those of the source; the rebalancing of the kernel's
  red-black tree library and its removal of a node are parameters of which only the effect on the
  order of the nodes is used. The lemmas show that indices are fresh and in range, that lookup
  finds exactly what was added, and that the element limit holds.
\<close>

subsection \<open>Types\<close>

abbreviation (input) RXE_POOL_ATOMIC :: u32 where "RXE_POOL_ATOMIC \<equiv> 1"
abbreviation (input) RXE_POOL_INDEX :: u32 where "RXE_POOL_INDEX \<equiv> 2"
abbreviation (input) RXE_POOL_KEY :: u32 where "RXE_POOL_KEY \<equiv> 4"

datatype rxe_elem_type = RXE_TYPE_UC | RXE_TYPE_PD | RXE_TYPE_AH | RXE_TYPE_SRQ | RXE_TYPE_QP
  | RXE_TYPE_CQ | RXE_TYPE_MR | RXE_TYPE_MW | RXE_TYPE_FMR | RXE_TYPE_MC_GRP | RXE_TYPE_MC_ELEM

abbreviation (input) RXE_NUM_TYPES :: nat where "RXE_NUM_TYPES \<equiv> 11"

record rxe_type_info =
  ti_name :: string
  ti_cleanup :: bool
  ti_flags :: u32
  ti_max_index :: u32
  ti_min_index :: u32
  ti_key_size :: u32

datatype rxe_pool_state = rxe_pool_invalid | rxe_pool_valid

text \<open>The tree node of an entry is the entry's handle in the pool's tree.\<close>

record rxe_pool_entry =
  pe_ref :: nat
  pe_index :: u32
  pe_key :: "u8 list"

record rxe_pool =
  pool_dev_ref :: nat
  pool_ref :: nat
  pool_cleanup :: bool
  pool_state :: rxe_pool_state
  pool_flags :: u32
  pool_type :: rxe_elem_type
  pool_max_elem :: u32
  pool_num_elem :: int
  pool_tree :: "nat tree"
  pool_table :: "bool list"
  pool_max_index :: u32
  pool_min_index :: u32
  pool_last :: u32
  pool_key_size :: u32
  pool_elems :: "nat \<rightharpoonup> rxe_pool_entry"

subsection \<open>The type table (rxe_pool.c, rxe_param.h)\<close>

abbreviation (input) RXE_MIN_QP_INDEX :: u32 where "RXE_MIN_QP_INDEX \<equiv> 16"
abbreviation (input) RXE_MAX_QP_INDEX :: u32 where "RXE_MAX_QP_INDEX \<equiv> 0x00020000"
abbreviation (input) RXE_MIN_SRQ_INDEX :: u32 where "RXE_MIN_SRQ_INDEX \<equiv> 0x00020001"
abbreviation (input) RXE_MAX_SRQ_INDEX :: u32 where "RXE_MAX_SRQ_INDEX \<equiv> 0x00040000"
abbreviation (input) RXE_MIN_MR_INDEX :: u32 where "RXE_MIN_MR_INDEX \<equiv> 0x00000001"
abbreviation (input) RXE_MAX_MR_INDEX :: u32 where "RXE_MAX_MR_INDEX \<equiv> 0x00020000"
abbreviation (input) RXE_MIN_FMR_INDEX :: u32 where "RXE_MIN_FMR_INDEX \<equiv> 0x00020001"
abbreviation (input) RXE_MAX_FMR_INDEX :: u32 where "RXE_MAX_FMR_INDEX \<equiv> 0x00040000"
abbreviation (input) RXE_MIN_MW_INDEX :: u32 where "RXE_MIN_MW_INDEX \<equiv> 0x00040001"
abbreviation (input) RXE_MAX_MW_INDEX :: u32 where "RXE_MAX_MW_INDEX \<equiv> 0x00060000"

fun rxe_type_info_table :: "rxe_elem_type \<Rightarrow> rxe_type_info" where
  "rxe_type_info_table RXE_TYPE_UC = \<lparr>ti_name = ''rxe_uc'', ti_cleanup = False, ti_flags = 0,
     ti_max_index = 0, ti_min_index = 0, ti_key_size = 0\<rparr>"
| "rxe_type_info_table RXE_TYPE_PD = \<lparr>ti_name = ''rxe_pd'', ti_cleanup = False, ti_flags = 0,
     ti_max_index = 0, ti_min_index = 0, ti_key_size = 0\<rparr>"
| "rxe_type_info_table RXE_TYPE_AH = \<lparr>ti_name = ''rxe_ah'', ti_cleanup = False,
     ti_flags = RXE_POOL_ATOMIC, ti_max_index = 0, ti_min_index = 0, ti_key_size = 0\<rparr>"
| "rxe_type_info_table RXE_TYPE_SRQ = \<lparr>ti_name = ''rxe_srq'', ti_cleanup = True,
     ti_flags = RXE_POOL_INDEX, ti_max_index = RXE_MAX_SRQ_INDEX,
     ti_min_index = RXE_MIN_SRQ_INDEX, ti_key_size = 0\<rparr>"
| "rxe_type_info_table RXE_TYPE_QP = \<lparr>ti_name = ''rxe_qp'', ti_cleanup = True,
     ti_flags = RXE_POOL_INDEX, ti_max_index = RXE_MAX_QP_INDEX,
     ti_min_index = RXE_MIN_QP_INDEX, ti_key_size = 0\<rparr>"
| "rxe_type_info_table RXE_TYPE_CQ = \<lparr>ti_name = ''rxe_cq'', ti_cleanup = True, ti_flags = 0,
     ti_max_index = 0, ti_min_index = 0, ti_key_size = 0\<rparr>"
| "rxe_type_info_table RXE_TYPE_MR = \<lparr>ti_name = ''rxe_mr'', ti_cleanup = True,
     ti_flags = RXE_POOL_INDEX, ti_max_index = RXE_MAX_MR_INDEX,
     ti_min_index = RXE_MIN_MR_INDEX, ti_key_size = 0\<rparr>"
| "rxe_type_info_table RXE_TYPE_FMR = \<lparr>ti_name = ''rxe_fmr'', ti_cleanup = True,
     ti_flags = RXE_POOL_INDEX, ti_max_index = RXE_MAX_FMR_INDEX,
     ti_min_index = RXE_MIN_FMR_INDEX, ti_key_size = 0\<rparr>"
| "rxe_type_info_table RXE_TYPE_MW = \<lparr>ti_name = ''rxe_mw'', ti_cleanup = False,
     ti_flags = RXE_POOL_INDEX, ti_max_index = RXE_MAX_MW_INDEX,
     ti_min_index = RXE_MIN_MW_INDEX, ti_key_size = 0\<rparr>"
| "rxe_type_info_table RXE_TYPE_MC_GRP = \<lparr>ti_name = ''rxe_mc_grp'', ti_cleanup = True,
     ti_flags = RXE_POOL_KEY, ti_max_index = 0, ti_min_index = 0, ti_key_size = 16\<rparr>"
| "rxe_type_info_table RXE_TYPE_MC_ELEM = \<lparr>ti_name = ''rxe_mc_elem'', ti_cleanup = False,
     ti_flags = RXE_POOL_ATOMIC, ti_max_index = 0, ti_min_index = 0, ti_key_size = 0\<rparr>"

definition pool_name :: "rxe_pool \<Rightarrow> string" where
  "pool_name pool = drop 4 (ti_name (rxe_type_info_table (pool_type pool)))"

subsection \<open>Slab caches\<close>




definition rxe_cache_exit :: "(nat \<Rightarrow> bool) \<Rightarrow> (nat \<Rightarrow> bool) \<times> nat option list" where
  "rxe_cache_exit caches = fold (\<lambda>i (c, log). (c(i := False), log @ [if c i then Some i else None]))
     [0..<RXE_NUM_TYPES] (caches, [])"

subsection \<open>Creating and destroying a pool\<close>

text \<open>The bit table is one truth value per index; \<open>kmalloc_ok\<close> is the outcome of its
  allocation.\<close>

definition rxe_pool_init_index :: "bool \<Rightarrow> rxe_pool \<Rightarrow> u32 \<Rightarrow> u32 \<Rightarrow> rxe_pool \<times> errno option" where
  "rxe_pool_init_index kmalloc_ok pool mx mn =
     (if mx - mn + 1 < pool_max_elem pool then (pool, Some EINVAL)
      else let pool = pool\<lparr>pool_max_index := mx, pool_min_index := mn\<rparr>
        in if \<not> kmalloc_ok then (pool, Some ENOMEM)
           else (pool\<lparr>pool_table := replicate (unat (mx - mn + 1)) False\<rparr>, None))"

definition rxe_pool_init :: "bool \<Rightarrow> nat \<Rightarrow> rxe_elem_type \<Rightarrow> u32 \<Rightarrow> rxe_pool \<times> errno option" where
  "rxe_pool_init kmalloc_ok dev_ref ty max_elem =
     (let info = rxe_type_info_table ty;
          pool = \<lparr>pool_dev_ref = dev_ref, pool_ref = 1, pool_cleanup = ti_cleanup info,
            pool_state = rxe_pool_invalid, pool_flags = ti_flags info, pool_type = ty,
            pool_max_elem = max_elem, pool_num_elem = 0, pool_tree = Leaf, pool_table = [],
            pool_max_index = 0, pool_min_index = 0, pool_last = 0, pool_key_size = 0,
            pool_elems = Map.empty\<rparr>;
          (pool, err) = (if ti_flags info AND RXE_POOL_INDEX \<noteq> 0
            then rxe_pool_init_index kmalloc_ok pool (ti_max_index info) (ti_min_index info)
            else (pool, None))
      in if err \<noteq> None then (pool, err)
         else let pool = (if ti_flags info AND RXE_POOL_KEY \<noteq> 0
                          then pool\<lparr>pool_key_size := ti_key_size info\<rparr> else pool)
           in (pool\<lparr>pool_state := rxe_pool_valid\<rparr>, None))"

definition rxe_pool_release :: "rxe_pool \<Rightarrow> rxe_pool" where
  "rxe_pool_release pool = pool\<lparr>pool_state := rxe_pool_invalid, pool_table := []\<rparr>"

text \<open>\<open>kref_put(&pool->ref_cnt, rxe_pool_release)\<close>.\<close>

definition pool_put :: "rxe_pool \<Rightarrow> rxe_pool" where
  "pool_put pool = (let pool = pool\<lparr>pool_ref := pool_ref pool - 1\<rparr>
     in if pool_ref pool = 0 then rxe_pool_release pool else pool)"

definition rxe_pool_cleanup :: "rxe_pool \<Rightarrow> rxe_pool" where
  "rxe_pool_cleanup pool = pool_put (pool\<lparr>pool_state := rxe_pool_invalid\<rparr>)"

subsection \<open>Index allocation\<close>

text \<open>The kernel's bit searches: the first clear bit at or after an offset, or the size.\<close>

fun first_zero :: "bool list \<Rightarrow> nat \<Rightarrow> nat" where
  "first_zero [] i = i"
| "first_zero (b # bs) i = (if b then first_zero bs (Suc i) else i)"

definition find_next_zero_bit :: "bool list \<Rightarrow> u32 \<Rightarrow> u32 \<Rightarrow> u32" where
  "find_next_zero_bit bits sz off = (if sz \<le> off then sz
     else of_nat (first_zero (drop (unat off) (take (unat sz) bits)) (unat off)))"

definition find_first_zero_bit :: "bool list \<Rightarrow> u32 \<Rightarrow> u32" where
  "find_first_zero_bit bits sz = find_next_zero_bit bits sz 0"

text \<open>\<open>None\<close> when no index is free and \<open>set_bit\<close> would set a bit past the last one.\<close>

definition alloc_index :: "rxe_pool \<Rightarrow> (u32 \<times> rxe_pool) option" where
  "alloc_index pool =
     (let rng = pool_max_index pool - pool_min_index pool + 1;
          index = find_next_zero_bit (pool_table pool) rng (pool_last pool);
          index = (if rng \<le> index then find_first_zero_bit (pool_table pool) rng else index)
      in if length (pool_table pool) \<le> unat index then None
         else Some (index + pool_min_index pool,
           pool\<lparr>pool_table := (pool_table pool)[unat index := True], pool_last := index\<rparr>))"

subsection \<open>The search tree\<close>

text \<open>\<open>cmp h\<close> compares the element at a node with the one looked for, as \<open>memcmp\<close> does:
  positive when the node's is greater.\<close>

fun rb_search :: "('h \<Rightarrow> int) \<Rightarrow> 'h tree \<Rightarrow> 'h option" where
  "rb_search cmp Leaf = None"
| "rb_search cmp (Node l h r) =
     (if cmp h > 0 then rb_search cmp l else if cmp h < 0 then rb_search cmp r else Some h)"

text \<open>The insertion walk; \<open>None\<close> is the jump to \<open>out\<close> when the key is already there.\<close>

fun rb_link :: "('h \<Rightarrow> int) \<Rightarrow> 'h \<Rightarrow> 'h tree \<Rightarrow> 'h tree option" where
  "rb_link cmp new Leaf = Some (Node Leaf new Leaf)"
| "rb_link cmp new (Node l h r) =
     (if cmp h = 0 then None
      else if cmp h > 0 then map_option (\<lambda>l'. Node l' h r) (rb_link cmp new l)
      else map_option (\<lambda>r'. Node l h r') (rb_link cmp new r))"

fun memcmp :: "u8 list \<Rightarrow> u8 list \<Rightarrow> int" where
  "memcmp (a # as) (b # bs) = (if a = b then memcmp as bs else uint a - uint b)"
| "memcmp _ _ = 0"

definition elem_index :: "rxe_pool \<Rightarrow> nat \<Rightarrow> u32" where
  "elem_index pool h = (case pool_elems pool h of Some e \<Rightarrow> pe_index e | None \<Rightarrow> 0)"

definition elem_key :: "rxe_pool \<Rightarrow> nat \<Rightarrow> u8 list" where
  "elem_key pool h = (case pool_elems pool h of Some e \<Rightarrow> pe_key e | None \<Rightarrow> [])"

definition index_cmp :: "rxe_pool \<Rightarrow> u32 \<Rightarrow> nat \<Rightarrow> int" where
  "index_cmp pool index h =
     (if elem_index pool h > index then 1 else if elem_index pool h < index then -1 else 0)"

definition key_cmp :: "rxe_pool \<Rightarrow> u8 list \<Rightarrow> nat \<Rightarrow> int" where
  "key_cmp pool key h = memcmp (elem_key pool h) key"

text \<open>\<open>rebalance\<close> is \<open>rb_insert_color\<close>, \<open>rb_erase\<close> the removal of a node.\<close>

definition insert_index :: "(nat tree \<Rightarrow> nat tree) \<Rightarrow> rxe_pool \<Rightarrow> nat \<Rightarrow> rxe_pool" where
  "insert_index rebalance pool new =
     (case rb_link (index_cmp pool (elem_index pool new)) new (pool_tree pool) of
        None \<Rightarrow> pool | Some t \<Rightarrow> pool\<lparr>pool_tree := rebalance t\<rparr>)"

definition insert_key :: "(nat tree \<Rightarrow> nat tree) \<Rightarrow> rxe_pool \<Rightarrow> nat \<Rightarrow> rxe_pool" where
  "insert_key rebalance pool new =
     (case rb_link (key_cmp pool (elem_key pool new)) new (pool_tree pool) of
        None \<Rightarrow> pool | Some t \<Rightarrow> pool\<lparr>pool_tree := rebalance t\<rparr>)"

definition upd_elem :: "nat \<Rightarrow> (rxe_pool_entry \<Rightarrow> rxe_pool_entry) \<Rightarrow> rxe_pool \<Rightarrow> rxe_pool" where
  "upd_elem h f pool = pool\<lparr>pool_elems := (pool_elems pool)(h := map_option f (pool_elems pool h))\<rparr>"

definition rxe_add_key :: "(nat tree \<Rightarrow> nat tree) \<Rightarrow> rxe_pool \<Rightarrow> nat \<Rightarrow> u8 list \<Rightarrow> rxe_pool" where
  "rxe_add_key rebalance pool h key =
     insert_key rebalance (upd_elem h (\<lambda>e. e\<lparr>pe_key := take (unat (pool_key_size pool)) key\<rparr>) pool) h"

definition rxe_drop_key :: "(nat \<Rightarrow> nat tree \<Rightarrow> nat tree) \<Rightarrow> rxe_pool \<Rightarrow> nat \<Rightarrow> rxe_pool" where
  "rxe_drop_key rb_erase pool h = pool\<lparr>pool_tree := rb_erase h (pool_tree pool)\<rparr>"

definition rxe_add_index :: "(nat tree \<Rightarrow> nat tree) \<Rightarrow> rxe_pool \<Rightarrow> nat \<Rightarrow> rxe_pool option" where
  "rxe_add_index rebalance pool h = (case alloc_index pool of None \<Rightarrow> None
     | Some (index, pool) \<Rightarrow>
         Some (insert_index rebalance (upd_elem h (\<lambda>e. e\<lparr>pe_index := index\<rparr>) pool) h))"

definition rxe_drop_index :: "(nat \<Rightarrow> nat tree \<Rightarrow> nat tree) \<Rightarrow> rxe_pool \<Rightarrow> nat \<Rightarrow> rxe_pool" where
  "rxe_drop_index rb_erase pool h = pool\<lparr>
     pool_table := (pool_table pool)[unat (elem_index pool h - pool_min_index pool) := False],
     pool_tree := rb_erase h (pool_tree pool)\<rparr>"

subsection \<open>Allocation, release and lookup\<close>

text \<open>\<open>zalloc\<close> is the result of \<open>kmem_cache_zalloc\<close>, the address of a fresh element or
  null. The outer \<open>None\<close> is the dereference of a null element: the source does not test it.\<close>

definition rxe_alloc :: "nat option \<Rightarrow> rxe_pool \<Rightarrow> (nat option \<times> rxe_pool) option" where
  "rxe_alloc zalloc pool =
     (if pool_state pool \<noteq> rxe_pool_valid then Some (None, pool)
      else let pool = pool\<lparr>pool_ref := pool_ref pool + 1, pool_dev_ref := pool_dev_ref pool + 1,
                 pool_num_elem := pool_num_elem pool + 1\<rparr>
        in if pool_num_elem pool > uint (pool_max_elem pool)
           then Some (None, pool_put (pool\<lparr>pool_num_elem := pool_num_elem pool - 1,
                  pool_dev_ref := pool_dev_ref pool - 1\<rparr>))
           else case zalloc of None \<Rightarrow> None
             | Some h \<Rightarrow> Some (Some h, pool\<lparr>pool_elems := (pool_elems pool)
                 (h \<mapsto> \<lparr>pe_ref = 1, pe_index = 0, pe_key = replicate (unat (pool_key_size pool)) 0\<rparr>)\<rparr>))"

text \<open>The type's cleanup function runs before the element is freed; it may act on the pool (a
  multicast group drops its key there) and on state outside it.\<close>

definition rxe_elem_release ::
    "(nat \<Rightarrow> rxe_pool \<times> 'w \<Rightarrow> rxe_pool \<times> 'w) \<Rightarrow> nat \<Rightarrow> rxe_pool \<times> 'w \<Rightarrow> rxe_pool \<times> 'w" where
  "rxe_elem_release cleanup h pw =
     (case (if pool_cleanup (fst pw) then cleanup h pw else pw) of (pool, w) \<Rightarrow>
        (pool_put (pool\<lparr>pool_elems := (pool_elems pool)(h := None),
           pool_num_elem := pool_num_elem pool - 1, pool_dev_ref := pool_dev_ref pool - 1\<rparr>), w))"

definition rxe_add_ref :: "nat \<Rightarrow> rxe_pool \<Rightarrow> rxe_pool" where
  "rxe_add_ref h pool = upd_elem h (\<lambda>e. e\<lparr>pe_ref := pe_ref e + 1\<rparr>) pool"

definition rxe_drop_ref ::
    "(nat \<Rightarrow> rxe_pool \<times> 'w \<Rightarrow> rxe_pool \<times> 'w) \<Rightarrow> nat \<Rightarrow> rxe_pool \<times> 'w \<Rightarrow> rxe_pool \<times> 'w" where
  "rxe_drop_ref cleanup h pw = (case pw of (pool, w) \<Rightarrow>
     let pool = upd_elem h (\<lambda>e. e\<lparr>pe_ref := pe_ref e - 1\<rparr>) pool
     in (case pool_elems pool h of
           Some e \<Rightarrow> if pe_ref e = 0 then rxe_elem_release cleanup h (pool, w) else (pool, w)
         | None \<Rightarrow> (pool, w)))"

definition rxe_pool_get_index :: "rxe_pool \<Rightarrow> u32 \<Rightarrow> nat option \<times> rxe_pool" where
  "rxe_pool_get_index pool index =
     (if pool_state pool \<noteq> rxe_pool_valid then (None, pool)
      else case rb_search (index_cmp pool index) (pool_tree pool) of
          None \<Rightarrow> (None, pool)
        | Some h \<Rightarrow> (Some h, rxe_add_ref h pool))"

definition rxe_pool_get_key :: "rxe_pool \<Rightarrow> u8 list \<Rightarrow> nat option \<times> rxe_pool" where
  "rxe_pool_get_key pool key =
     (if pool_state pool \<noteq> rxe_pool_valid then (None, pool)
      else case rb_search (key_cmp pool key) (pool_tree pool) of
          None \<Rightarrow> (None, pool)
        | Some h \<Rightarrow> (Some h, rxe_add_ref h pool))"

subsection \<open>Search trees by key\<close>

text \<open>What the walks rely on: a comparison that agrees with a linear order of the keys, for keys
  of the kind the tree holds.\<close>

locale search_tree =
  fixes key :: "'h \<Rightarrow> 'k::linorder"
    and cmp :: "'k \<Rightarrow> 'h \<Rightarrow> int"
    and ok :: "'k \<Rightarrow> bool"
  assumes cmp_pos: "ok k \<Longrightarrow> ok (key h) \<Longrightarrow> cmp k h > 0 \<longleftrightarrow> key h > k"
    and cmp_neg: "ok k \<Longrightarrow> ok (key h) \<Longrightarrow> cmp k h < 0 \<longleftrightarrow> key h < k"
begin

definition tsorted :: "'h tree \<Rightarrow> bool" where
  "tsorted t \<longleftrightarrow> sorted_wrt (\<lambda>x y. key x < key y) (inorder t) \<and> (\<forall>h \<in> set_tree t. ok (key h))"

lemma tsorted_Node:
  "tsorted (Node l h r) \<longleftrightarrow> tsorted l \<and> tsorted r \<and> ok (key h)
     \<and> (\<forall>x \<in> set_tree l. key x < key h) \<and> (\<forall>y \<in> set_tree r. key h < key y)
     \<and> (\<forall>x \<in> set_tree l. \<forall>y \<in> set_tree r. key x < key y)"
  by (auto simp: tsorted_def sorted_wrt_append set_inorder)

lemma cmp_cases:
  assumes "tsorted (Node l h r)" and "ok k"
  shows "cmp k h > 0 \<longleftrightarrow> k < key h" "cmp k h < 0 \<longleftrightarrow> key h < k" "cmp k h = 0 \<longleftrightarrow> k = key h"
proof -
  have "ok (key h)" using assms(1) by (simp add: tsorted_Node)
  from cmp_pos [OF assms(2) this] cmp_neg [OF assms(2) this]
  show "cmp k h > 0 \<longleftrightarrow> k < key h" "cmp k h < 0 \<longleftrightarrow> key h < k" "cmp k h = 0 \<longleftrightarrow> k = key h"
    by auto
qed

lemma search_Some:
  assumes "tsorted t" and "ok k"
  shows "rb_search (cmp k) t = Some h \<longleftrightarrow> h \<in> set_tree t \<and> key h = k"
  using assms(1)
proof (induction t)
  case (Node l g r)
  note c = cmp_cases [OF Node.prems assms(2)]
  have sub: "tsorted l" "tsorted r" "\<And>x. x \<in> set_tree l \<Longrightarrow> key x < key g"
    "\<And>y. y \<in> set_tree r \<Longrightarrow> key g < key y"
    using Node.prems by (simp_all add: tsorted_Node)
  consider "k < key g" | "key g < k" | "k = key g" by fastforce
  then show ?case
  proof cases
    case 1
    with c Node.IH(1) [OF sub(1)] show ?thesis by (auto dest: sub(4))
  next
    case 2
    with c Node.IH(2) [OF sub(2)] show ?thesis by (auto dest: sub(3))
  next
    case 3
    with c show ?thesis by (auto dest: sub(3,4))
  qed
qed simp

lemma tsorted_inj: "tsorted t \<Longrightarrow> x \<in> set_tree t \<Longrightarrow> y \<in> set_tree t \<Longrightarrow> key x = key y \<Longrightarrow> x = y"
  using search_Some [of t "key x" x] search_Some [of t "key x" y] by (simp add: tsorted_def)

lemma link_fresh:
  assumes "tsorted t" and "ok (key n)" and "\<And>h. h \<in> set_tree t \<Longrightarrow> key h \<noteq> key n"
  shows "\<exists>t'. rb_link (cmp (key n)) n t = Some t' \<and> tsorted t' \<and> set_tree t' = insert n (set_tree t)"
  using assms
proof (induction t)
  case Leaf
  then show ?case by (simp add: tsorted_def)
next
  case (Node l h r)
  note c = cmp_cases [OF Node.prems(1,2)]
  have sub: "tsorted l" "tsorted r" using Node.prems(1) by (simp_all add: tsorted_Node)
  consider "key n < key h" | "key h < key n" using Node.prems(3) [of h] by fastforce
  then show ?case
  proof cases
    case 1
    obtain l' where "rb_link (cmp (key n)) n l = Some l'" "tsorted l'" "set_tree l' = insert n (set_tree l)"
      using Node.IH(1) [OF sub(1) Node.prems(2)] Node.prems(3) by auto
    with 1 c Node.prems(1) show ?thesis by (auto simp: tsorted_Node)
  next
    case 2
    obtain r' where "rb_link (cmp (key n)) n r = Some r'" "tsorted r'" "set_tree r' = insert n (set_tree r)"
      using Node.IH(2) [OF sub(2) Node.prems(2)] Node.prems(3) by auto
    with 2 c Node.prems(1) show ?thesis by (auto simp: tsorted_Node)
  qed
qed

lemma link_present:
  assumes "tsorted t" and "ok k" and "g \<in> set_tree t" and "key g = k"
  shows "rb_link (cmp k) n t = None"
  using assms(1,3)
proof (induction t)
  case (Node l h r)
  note c = cmp_cases [OF Node.prems(1) assms(2)]
  have sub: "tsorted l" "tsorted r" "\<And>x. x \<in> set_tree l \<Longrightarrow> key x < key h"
    "\<And>y. y \<in> set_tree r \<Longrightarrow> key h < key y"
    using Node.prems(1) by (simp_all add: tsorted_Node)
  consider "g = h" | "g \<in> set_tree l" | "g \<in> set_tree r" using Node.prems(2) by auto
  then show ?case
  proof cases
    case 1
    then show ?thesis using c assms(4) by simp
  next
    case 2
    then show ?thesis using c assms(4) sub(3) [OF 2] Node.IH(1) [OF sub(1) 2] by auto
  next
    case 3
    then show ?thesis using c assms(4) sub(4) [OF 3] Node.IH(2) [OF sub(2) 3] by auto
  qed
qed simp

lemma tsorted_inorder: "inorder t = inorder t' \<Longrightarrow> tsorted t = tsorted t'"
  by (metis tsorted_def set_inorder)

text \<open>Inserting a new key and removing a node, in terms of lookup.\<close>

lemma search_link:
  assumes "tsorted t" and "ok (key n)" and "\<And>h. h \<in> set_tree t \<Longrightarrow> key h \<noteq> key n"
    and "\<And>t. inorder (rebalance t) = inorder t"
  shows "\<exists>t'. rb_link (cmp (key n)) n t = Some t' \<and> tsorted (rebalance t')
    \<and> set_tree (rebalance t') = insert n (set_tree t)
    \<and> (\<forall>k. ok k \<longrightarrow> rb_search (cmp k) (rebalance t')
        = (if k = key n then Some n else rb_search (cmp k) t))"
proof -
  obtain t' where t': "rb_link (cmp (key n)) n t = Some t'" "tsorted t'"
    "set_tree t' = insert n (set_tree t)"
    using link_fresh [OF assms(1,2,3)] by blast
  have s: "tsorted (rebalance t')" "set_tree (rebalance t') = insert n (set_tree t)"
    using t' assms(4) [of t'] tsorted_inorder [of "rebalance t'" t'] by (auto simp flip: set_inorder)
  have "rb_search (cmp k) (rebalance t') = (if k = key n then Some n else rb_search (cmp k) t)"
    if k: "ok k" for k
    by (intro option_eqI)
      (auto simp: search_Some [OF s(1) k] search_Some [OF assms(1) k] s(2) dest: assms(3))
  with t' s show ?thesis by blast
qed

lemma search_erase:
  assumes "tsorted t" and "inorder t' = removeAll n (inorder t)"
  shows "tsorted t' \<and> set_tree t' = set_tree t - {n}
    \<and> (\<forall>k. ok k \<longrightarrow> rb_search (cmp k) t' = (if n \<in> set_tree t \<and> k = key n then None else rb_search (cmp k) t))"
proof -
  have st: "set_tree t' = set_tree t - {n}" using assms(2) by (metis set_inorder set_removeAll)
  have ts: "tsorted t'"
    using assms st by (auto simp: tsorted_def removeAll_filter_not_eq sorted_wrt_filter)
  have "rb_search (cmp k) t' = (if n \<in> set_tree t \<and> k = key n then None else rb_search (cmp k) t)"
    if k: "ok k" for k
    by (intro option_eqI) (auto simp: search_Some [OF ts k] search_Some [OF assms(1) k] st
        dest: tsorted_inj [OF assms(1)])
  with ts st show ?thesis by blast
qed

end
lemma memcmp_less:
  "length as = length bs \<Longrightarrow> (memcmp as bs < 0 \<longleftrightarrow> as < bs) \<and> (memcmp as bs > 0 \<longleftrightarrow> bs < as)"
proof (induction as bs rule: memcmp.induct)
  case (1 a as b bs)
  then show ?case by (auto simp: word_less_def)
qed auto

interpretation ix: search_tree "elem_index pool" "index_cmp pool" "\<lambda>_. True" for pool
  by unfold_locales (auto simp: index_cmp_def)

interpretation ky: search_tree "elem_key pool" "key_cmp pool" "\<lambda>k. length k = n" for pool n
  by unfold_locales (auto simp: key_cmp_def memcmp_less)

subsection \<open>Index allocation\<close>

lemma first_zero_spec:
  "False \<in> set bs \<Longrightarrow>
     i \<le> first_zero bs i \<and> first_zero bs i < i + length bs \<and> \<not> bs ! (first_zero bs i - i)"
proof (induction bs arbitrary: i)
  case (Cons b bs)
  show ?case
  proof (cases b)
    case True
    with Cons.prems have "False \<in> set bs" by auto
    from Cons.IH [OF this, of "Suc i"] True show ?thesis by (simp add: Suc_diff_le nth_Cons')
  qed simp
qed simp

lemma first_zero_none: "False \<notin> set bs \<Longrightarrow> first_zero bs i = i + length bs"
  by (induction bs arbitrary: i) auto

lemma find_next_zero_bit_free:
  assumes len: "length bs = unat sz" and lt: "find_next_zero_bit bs sz off < sz"
  shows "\<not> bs ! unat (find_next_zero_bit bs sz off)"
proof -
  have off: "off < sz" using lt by (simp add: find_next_zero_bit_def not_le [symmetric] split: if_splits)
  then have o: "unat off < length bs" by (simp add: len word_less_nat_alt)
  let ?d = "drop (unat off) bs" let ?z = "first_zero ?d (unat off)"
  have eq: "find_next_zero_bit bs sz off = of_nat ?z"
    using off [unfolded not_le [symmetric]] len by (simp add: find_next_zero_bit_def)
  have ex: "False \<in> set ?d"
  proof (rule ccontr)
    assume "False \<notin> set ?d"
    then have "?z = unat sz" using o len by (simp add: first_zero_none)
    with lt show False by (simp add: eq)
  qed
  note z = first_zero_spec [OF ex, of "unat off"]
  have "?z < unat sz" using z o len by simp
  then have "unat (of_nat ?z :: u32) = ?z" by (rule unat_of_nat_u32)
  then show ?thesis using z o unfolding eq by auto
qed

lemma find_first_zero_bit_lt:
  assumes len: "length bs = unat sz" and ex: "False \<in> set bs"
  shows "find_first_zero_bit bs sz < sz"
proof -
  have lt: "first_zero bs 0 < unat sz" using first_zero_spec [OF ex, of 0] len by simp
  then have "\<not> sz \<le> 0" by (simp only: word_le_nat_alt) simp
  then have "find_first_zero_bit bs sz = of_nat (first_zero bs 0)"
    using len by (simp add: find_first_zero_bit_def find_next_zero_bit_def)
  with lt unat_of_nat_u32 [OF lt] show ?thesis by (simp add: word_less_nat_alt)
qed

subsection \<open>The pool invariant\<close>

definition pool_range :: "rxe_pool \<Rightarrow> nat" where
  "pool_range pool = unat (pool_max_index pool - pool_min_index pool + 1)"

text \<open>The table has one bit per index of a range that does not wrap; the tree is sorted by index and
  holds live elements; a bit is set exactly when an element of the tree has that index; and the
  number of live elements is counted and limited.\<close>

definition pool_inv :: "rxe_pool \<Rightarrow> bool" where
  "pool_inv pool \<longleftrightarrow> unat (pool_min_index pool) + pool_range pool = unat (pool_max_index pool) + 1
     \<and> length (pool_table pool) = pool_range pool
     \<and> ix.tsorted pool (pool_tree pool)
     \<and> set_tree (pool_tree pool) \<subseteq> dom (pool_elems pool)
     \<and> (\<forall>h \<in> set_tree (pool_tree pool). unat (pool_min_index pool) \<le> unat (elem_index pool h)
          \<and> unat (elem_index pool h) \<le> unat (pool_max_index pool))
     \<and> (\<forall>i < pool_range pool. pool_table pool ! i \<longleftrightarrow>
          (\<exists>h \<in> set_tree (pool_tree pool). unat (elem_index pool h) = unat (pool_min_index pool) + i))
     \<and> finite (dom (pool_elems pool)) \<and> pool_num_elem pool = int (card (dom (pool_elems pool)))
     \<and> pool_num_elem pool \<le> uint (pool_max_elem pool)
     \<and> unat (pool_max_elem pool) \<le> pool_range pool"

lemma pool_invD:
  assumes "pool_inv pool"
  shows "unat (pool_min_index pool) + pool_range pool = unat (pool_max_index pool) + 1"
    and "length (pool_table pool) = pool_range pool"
    and "ix.tsorted pool (pool_tree pool)"
    and "set_tree (pool_tree pool) \<subseteq> dom (pool_elems pool)"
    and "\<And>h. h \<in> set_tree (pool_tree pool) \<Longrightarrow> unat (pool_min_index pool) \<le> unat (elem_index pool h)
          \<and> unat (elem_index pool h) \<le> unat (pool_max_index pool)"
    and "\<And>i. i < pool_range pool \<Longrightarrow> pool_table pool ! i \<longleftrightarrow>
          (\<exists>h \<in> set_tree (pool_tree pool). unat (elem_index pool h) = unat (pool_min_index pool) + i)"
    and "finite (dom (pool_elems pool))"
    and "pool_num_elem pool = int (card (dom (pool_elems pool)))"
    and "pool_num_elem pool \<le> uint (pool_max_elem pool)"
    and "unat (pool_max_elem pool) \<le> pool_range pool"
  using assms unfolding pool_inv_def by (elim conjE; (assumption | simp))+

text \<open>As long as one live element has no index yet, some index is free.\<close>

lemma pool_free_bit:
  assumes inv: "pool_inv pool" and h: "h \<in> dom (pool_elems pool)" "h \<notin> set_tree (pool_tree pool)"
  shows "False \<in> set (pool_table pool)"
proof (rule ccontr)
  assume nf: "False \<notin> set (pool_table pool)"
  let ?T = "set_tree (pool_tree pool)"
  let ?f = "\<lambda>g. unat (elem_index pool g) - unat (pool_min_index pool)"
  have "i \<in> ?f ` ?T" if i: "i < pool_range pool" for i
  proof -
    have "pool_table pool ! i \<in> set (pool_table pool)" using i pool_invD(2) [OF inv] by simp
    with nf have "pool_table pool ! i" by (cases "pool_table pool ! i") simp_all
    then obtain g where "g \<in> ?T" "unat (elem_index pool g) = unat (pool_min_index pool) + i"
      using pool_invD(6) [OF inv i] by blast
    then show ?thesis by (intro image_eqI [of _ _ g]) simp_all
  qed
  then have "{..< pool_range pool} \<subseteq> ?f ` ?T" by blast
  then have "card {..< pool_range pool} \<le> card (?f ` ?T)" by (rule card_mono [rotated]) simp
  also have "\<dots> \<le> card ?T" by (rule card_image_le) simp
  also have "\<dots> < card (dom (pool_elems pool))"
    using pool_invD(4,7) [OF inv] h by (intro psubset_card_mono) auto
  finally have "pool_range pool < card (dom (pool_elems pool))" by simp
  moreover have "card (dom (pool_elems pool)) \<le> unat (pool_max_elem pool)"
    using pool_invD(8,9) [OF inv] by (simp add: int_le_uint)
  ultimately show False using pool_invD(10) [OF inv] by simp
qed

lemma alloc_index_fresh:
  assumes inv: "pool_inv pool" and free: "False \<in> set (pool_table pool)"
  obtains i where "i < pool_range pool" and "\<not> pool_table pool ! i"
    and "alloc_index pool = Some (of_nat i + pool_min_index pool,
      pool\<lparr>pool_table := (pool_table pool)[i := True], pool_last := of_nat i\<rparr>)"
    and "unat (of_nat i + pool_min_index pool) = unat (pool_min_index pool) + i"
proof -
  let ?r = "pool_max_index pool - pool_min_index pool + 1"
  let ?a = "find_next_zero_bit (pool_table pool) ?r (pool_last pool)"
  define idx where "idx = (if ?r \<le> ?a then find_first_zero_bit (pool_table pool) ?r else ?a)"
  have len: "length (pool_table pool) = unat ?r" using inv by (simp add: pool_inv_def pool_range_def)
  have lt: "idx < ?r" using find_first_zero_bit_lt [OF len free] by (simp add: idx_def not_le)
  then have "\<not> pool_table pool ! unat idx"
    using find_next_zero_bit_free [OF len] by (auto simp: idx_def find_first_zero_bit_def)
  moreover have i: "unat idx < pool_range pool" using lt by (simp add: pool_range_def word_less_nat_alt)
  moreover have "alloc_index pool = Some (of_nat (unat idx) + pool_min_index pool,
      pool\<lparr>pool_table := (pool_table pool)[unat idx := True], pool_last := of_nat (unat idx)\<rparr>)"
    using i len by (simp add: alloc_index_def Let_def pool_range_def flip: idx_def)
  moreover have "unat (of_nat (unat idx) + pool_min_index pool) = unat (pool_min_index pool) + unat idx"
  proof -
    have "unat idx + unat (pool_min_index pool) < 2 ^ 32"
      using inv i unat_u32_less [of "pool_max_index pool"] by (simp add: pool_inv_def)
    then show ?thesis by (simp add: unat_word_ariths)
  qed
  ultimately show ?thesis using that by blast
qed

subsection \<open>Adding and dropping an index\<close>

lemma rb_search_cong: "(\<And>g. g \<in> set_tree t \<Longrightarrow> c g = c' g) \<Longrightarrow> rb_search c t = rb_search c' t"
  by (induction t) auto

lemma ix_tsorted_cong:
  assumes "\<And>g. g \<in> set_tree t \<Longrightarrow> elem_index p g = elem_index p' g"
  shows "ix.tsorted p t \<longleftrightarrow> ix.tsorted p' t"
proof -
  have "sorted_wrt (\<lambda>x y. elem_index p x < elem_index p y) (inorder t)
      \<longleftrightarrow> sorted_wrt (\<lambda>x y. elem_index p' x < elem_index p' y) (inorder t)"
    using assms by (auto simp: sorted_wrt_iff_nth_less simp flip: set_inorder)
  then show ?thesis by (simp add: ix.tsorted_def)
qed

definition pool_find :: "rxe_pool \<Rightarrow> u32 \<Rightarrow> nat option" where
  "pool_find pool k = fst (rxe_pool_get_index pool k)"

lemma pool_find_valid:
  "pool_state pool = rxe_pool_valid \<Longrightarrow> pool_find pool k = rb_search (index_cmp pool k) (pool_tree pool)"
  by (simp add: pool_find_def rxe_pool_get_index_def split: option.split)

lemma insert_index_fresh:
  assumes "ix.tsorted pool (pool_tree pool)"
    and "\<And>g. g \<in> set_tree (pool_tree pool) \<Longrightarrow> elem_index pool g \<noteq> elem_index pool h"
    and "\<And>t. inorder (rebalance t) = inorder t"
  obtains t where "insert_index rebalance pool h = pool\<lparr>pool_tree := t\<rparr>" and "ix.tsorted pool t"
    and "set_tree t = insert h (set_tree (pool_tree pool))"
    and "\<And>k. rb_search (index_cmp pool k) t
      = (if k = elem_index pool h then Some h else rb_search (index_cmp pool k) (pool_tree pool))"
proof -
  obtain t' where "rb_link (index_cmp pool (elem_index pool h)) h (pool_tree pool) = Some t'"
    "ix.tsorted pool (rebalance t')" "set_tree (rebalance t') = insert h (set_tree (pool_tree pool))"
    "\<And>k. rb_search (index_cmp pool k) (rebalance t')
      = (if k = elem_index pool h then Some h else rb_search (index_cmp pool k) (pool_tree pool))"
    using ix.search_link [OF assms(1) TrueI assms(2,3)] by blast
  then show ?thesis using that by (simp add: insert_index_def)
qed

lemma elem_index_simps:
  "elem_index (pool\<lparr>pool_tree := t\<rparr>) g = elem_index pool g"
  "elem_index (pool\<lparr>pool_table := b\<rparr>) g = elem_index pool g"
  "elem_index (pool\<lparr>pool_last := l\<rparr>) g = elem_index pool g"
  "h \<in> dom (pool_elems pool) \<Longrightarrow> elem_index (upd_elem h (\<lambda>e. e\<lparr>pe_index := i\<rparr>) pool) g
     = (if g = h then i else elem_index pool g)"
  by (auto simp: elem_index_def upd_elem_def)

lemma index_cmp_simps:
  "index_cmp (pool\<lparr>pool_tree := t\<rparr>) k = index_cmp pool k"
  "index_cmp (pool\<lparr>pool_table := b\<rparr>) k = index_cmp pool k"
  by (simp_all add: index_cmp_def fun_eq_iff elem_index_simps)

lemma add_index_step:
  assumes inv: "pool_inv pool" and h: "h \<in> dom (pool_elems pool)" "h \<notin> set_tree (pool_tree pool)"
    and reb: "\<And>t. inorder (rebalance t) = inorder t"
  obtains i t p2 where "i < pool_range pool" and "\<not> pool_table pool ! i"
    and "rxe_add_index rebalance pool h = Some (p2\<lparr>pool_tree := t\<rparr>)"
    and "p2 = upd_elem h (\<lambda>e. e\<lparr>pe_index := of_nat i + pool_min_index pool\<rparr>)
      (pool\<lparr>pool_table := (pool_table pool)[i := True], pool_last := of_nat i\<rparr>)"
    and "unat (of_nat i + pool_min_index pool) = unat (pool_min_index pool) + i"
    and "ix.tsorted p2 t" and "set_tree t = insert h (set_tree (pool_tree pool))"
    and "\<And>k. rb_search (index_cmp p2 k) t = (if k = of_nat i + pool_min_index pool then Some h
      else rb_search (index_cmp pool k) (pool_tree pool))"
proof -
  obtain i where i: "i < pool_range pool" "\<not> pool_table pool ! i"
    and al: "alloc_index pool = Some (of_nat i + pool_min_index pool,
      pool\<lparr>pool_table := (pool_table pool)[i := True], pool_last := of_nat i\<rparr>)"
    and un: "unat (of_nat i + pool_min_index pool) = unat (pool_min_index pool) + i"
    using alloc_index_fresh [OF inv pool_free_bit [OF inv h]] by blast
  define p2 where "p2 = upd_elem h (\<lambda>e. e\<lparr>pe_index := of_nat i + pool_min_index pool\<rparr>)
      (pool\<lparr>pool_table := (pool_table pool)[i := True], pool_last := of_nat i\<rparr>)"
  have idx: "elem_index p2 g = (if g = h then of_nat i + pool_min_index pool else elem_index pool g)" for g
    using h(1) by (simp add: p2_def elem_index_simps)
  have tree: "pool_tree p2 = pool_tree pool" by (simp add: p2_def upd_elem_def)
  have same: "elem_index p2 g = elem_index pool g" if "g \<in> set_tree (pool_tree pool)" for g
    using that h(2) idx by auto
  have "ix.tsorted p2 (pool_tree p2)"
    using pool_invD(3) [OF inv] ix_tsorted_cong [of "pool_tree pool" p2 pool] same tree by simp
  moreover have "elem_index p2 g \<noteq> elem_index p2 h" if "g \<in> set_tree (pool_tree p2)" for g
  proof
    assume "elem_index p2 g = elem_index p2 h"
    then have "unat (elem_index pool g) = unat (pool_min_index pool) + i"
      using that tree same un by (simp add: idx)
    then show False using pool_invD(6) [OF inv i(1)] i(2) that tree by auto
  qed
  ultimately obtain t where t: "insert_index rebalance p2 h = p2\<lparr>pool_tree := t\<rparr>" "ix.tsorted p2 t"
    "set_tree t = insert h (set_tree (pool_tree pool))"
    "\<And>k. rb_search (index_cmp p2 k) t = (if k = elem_index p2 h then Some h
      else rb_search (index_cmp p2 k) (pool_tree p2))"
    using insert_index_fresh [OF _ _ reb, of p2 h] tree by metis
  have "rb_search (index_cmp p2 k) (pool_tree p2) = rb_search (index_cmp pool k) (pool_tree pool)" for k
    unfolding tree by (rule rb_search_cong) (simp add: index_cmp_def same)
  with t show ?thesis
    using that [OF i _ p2_def un t(2,3)] al by (simp add: rxe_add_index_def idx flip: p2_def)
qed
lemma pool_inv_add:
  assumes inv: "pool_inv pool" and h: "h \<in> dom (pool_elems pool)"
    and i: "i < pool_range pool"
    and p2: "p2 = upd_elem h (\<lambda>e. e\<lparr>pe_index := of_nat i + pool_min_index pool\<rparr>)
      (pool\<lparr>pool_table := (pool_table pool)[i := True], pool_last := of_nat i\<rparr>)"
    and un: "unat (of_nat i + pool_min_index pool) = unat (pool_min_index pool) + i"
    and nt: "h \<notin> set_tree (pool_tree pool)"
    and t: "ix.tsorted p2 t" "set_tree t = insert h (set_tree (pool_tree pool))"
  shows "pool_inv (p2\<lparr>pool_tree := t\<rparr>)"
proof -
  let ?p = "p2\<lparr>pool_tree := t\<rparr>"
  have idx: "elem_index ?p g = (if g = h then of_nat i + pool_min_index pool else elem_index pool g)" for g
    using h by (simp add: p2 elem_index_simps)
  have same: "pool_range ?p = pool_range pool" "pool_min_index ?p = pool_min_index pool"
    "pool_max_index ?p = pool_max_index pool" "pool_table ?p = (pool_table pool)[i := True]"
    "dom (pool_elems p2) = dom (pool_elems pool)" "pool_num_elem ?p = pool_num_elem pool"
    "pool_max_elem ?p = pool_max_elem pool" "pool_tree ?p = t"
    using h by (auto simp: p2 upd_elem_def pool_range_def)
  have "ix.tsorted ?p t" using t(1) ix_tsorted_cong [of t ?p p2] by (simp add: elem_index_simps)
  moreover have "pool_table ?p ! j \<longleftrightarrow>
      (\<exists>g \<in> set_tree t. unat (elem_index ?p g) = unat (pool_min_index ?p) + j)" if j: "j < pool_range ?p" for j
  proof -
    have "(\<exists>g \<in> set_tree t. unat (elem_index ?p g) = unat (pool_min_index ?p) + j) \<longleftrightarrow>
        i = j \<or> (\<exists>g \<in> set_tree (pool_tree pool). unat (elem_index pool g) = unat (pool_min_index pool) + j)"
      using nt by (simp add: idx same(2) t(2) un) (metis (full_types))
    then show ?thesis
      using pool_invD(2) [OF inv] pool_invD(6) [OF inv, of j] j i
      by (auto simp: same nth_list_update)
  qed
  moreover have "\<forall>g \<in> set_tree t. unat (pool_min_index ?p) \<le> unat (elem_index ?p g)
      \<and> unat (elem_index ?p g) \<le> unat (pool_max_index ?p)"
    using pool_invD(5) [OF inv] pool_invD(1) [OF inv] i by (auto simp: idx same(2,3) t(2) un)
  ultimately show ?thesis
    using pool_invD [OF inv] h unfolding pool_inv_def by (simp add: same t(2))
qed

lemma pool_inv_drop:
  assumes inv: "pool_inv pool" and h: "h \<in> set_tree (pool_tree pool)"
    and er: "\<And>t. inorder (rb_erase h t) = removeAll h (inorder t)"
  shows "pool_inv (rxe_drop_index rb_erase pool h)"
proof -
  let ?p = "rxe_drop_index rb_erase pool h"
  let ?i = "unat (elem_index pool h - pool_min_index pool)"
  have t: "ix.tsorted pool (pool_tree ?p)" "set_tree (pool_tree ?p) = set_tree (pool_tree pool) - {h}"
    using ix.search_erase [OF pool_invD(3) [OF inv] er] by (simp_all add: rxe_drop_index_def)
  have idx: "elem_index ?p g = elem_index pool g" for g
    by (simp add: rxe_drop_index_def elem_index_simps)
  have same: "pool_range ?p = pool_range pool" "pool_min_index ?p = pool_min_index pool"
    "pool_max_index ?p = pool_max_index pool" "pool_table ?p = (pool_table pool)[?i := False]"
    "pool_elems ?p = pool_elems pool" "pool_num_elem ?p = pool_num_elem pool"
    "pool_max_elem ?p = pool_max_elem pool"
    by (simp_all add: rxe_drop_index_def pool_range_def)
  have i: "unat (pool_min_index pool) + ?i = unat (elem_index pool h)"
    using pool_invD(5) [OF inv h] by (simp add: unat_sub word_le_nat_alt)
  have ts: "ix.tsorted ?p (pool_tree ?p)" using t(1) ix_tsorted_cong [of _ ?p pool] by (simp add: idx)
  moreover have "pool_table ?p ! j \<longleftrightarrow>
      (\<exists>g \<in> set_tree (pool_tree ?p). unat (elem_index ?p g) = unat (pool_min_index ?p) + j)"
    if j: "j < pool_range ?p" for j
  proof (cases "j = ?i")
    case True
    have "g = h" if "g \<in> set_tree (pool_tree pool)" "unat (elem_index pool g) = unat (elem_index pool h)" for g
      using that ix.tsorted_inj [OF pool_invD(3) [OF inv] _ h] by (simp add: word_unat_eq_iff)
    then show ?thesis using True pool_invD(2) [OF inv] j by (auto simp: same idx t(2) i)
  next
    case False
    then have "unat (elem_index pool h) \<noteq> unat (pool_min_index pool) + j" using i by linarith
    then show ?thesis using False pool_invD(6) [OF inv, of j] j by (auto simp: same idx t(2))
  qed
  ultimately show ?thesis
    using pool_invD [OF inv] unfolding pool_inv_def by (auto simp: same t(2) idx)
qed

subsection \<open>Allocation and release\<close>

lemma elem_index_elems:
  "pool_elems p' g = pool_elems p g \<Longrightarrow> elem_index p' g = elem_index p g"
  by (simp add: elem_index_def)

text \<open>The invariant only depends on the elements of the tree, the table and the counters.\<close>

lemma pool_inv_elems:
  assumes inv: "pool_inv pool"
    and same: "pool_table pool' = pool_table pool" "pool_tree pool' = pool_tree pool"
      "pool_min_index pool' = pool_min_index pool" "pool_max_index pool' = pool_max_index pool"
      "pool_max_elem pool' = pool_max_elem pool"
    and elems: "\<And>g. g \<in> set_tree (pool_tree pool) \<Longrightarrow> pool_elems pool' g = pool_elems pool g"
    and num: "finite (dom (pool_elems pool'))"
      "pool_num_elem pool' = int (card (dom (pool_elems pool')))"
      "pool_num_elem pool' \<le> uint (pool_max_elem pool)"
  shows "pool_inv pool'"
proof -
  have idx: "elem_index pool' g = elem_index pool g" if "g \<in> set_tree (pool_tree pool)" for g
    using elems [OF that] by (rule elem_index_elems)
  have r: "pool_range pool' = pool_range pool" by (simp add: pool_range_def same)
  have "ix.tsorted pool' (pool_tree pool)"
    using pool_invD(3) [OF inv] ix_tsorted_cong [of "pool_tree pool" pool' pool] idx by simp
  moreover have "set_tree (pool_tree pool) \<subseteq> dom (pool_elems pool')"
    using pool_invD(4) [OF inv] elems by (force simp: dom_def)
  ultimately show ?thesis
    using pool_invD [OF inv] num unfolding pool_inv_def by (simp add: same r idx cong: bex_cong)
qed

lemma pool_put_fields:
  "1 < pool_ref pool \<Longrightarrow> pool_put pool = pool\<lparr>pool_ref := pool_ref pool - 1\<rparr>"
  by (simp add: pool_put_def Let_def)

subsection \<open>Properties\<close>

text \<open>
  C9: index allocation is sound. For a valid pool that satisfies its invariant and a live element
  without index, \<open>rxe_add_index\<close> never runs out of indices, gives the element an index inside
  the range of the pool that no other element has, and keeps the invariant; afterwards a lookup of
  that index finds the element and every other lookup finds what it found before.
\<close>

theorem rxe_add_index_correct:
  assumes "pool_inv pool" and "pool_state pool = rxe_pool_valid"
    and "h \<in> dom (pool_elems pool)" and "h \<notin> set_tree (pool_tree pool)"
    and "\<And>t. inorder (rebalance t) = inorder t"
  shows "\<exists>pool' k. rxe_add_index rebalance pool h = Some pool' \<and> pool_inv pool'
    \<and> pool_min_index pool \<le> k \<and> k \<le> pool_max_index pool \<and> elem_index pool' h = k
    \<and> pool_find pool k = None
    \<and> (\<forall>j. pool_find pool' j = (if j = k then Some h else pool_find pool j))"
proof -
  obtain i t p2 where i: "i < pool_range pool" "\<not> pool_table pool ! i"
    and add: "rxe_add_index rebalance pool h = Some (p2\<lparr>pool_tree := t\<rparr>)"
    and p2: "p2 = upd_elem h (\<lambda>e. e\<lparr>pe_index := of_nat i + pool_min_index pool\<rparr>)
      (pool\<lparr>pool_table := (pool_table pool)[i := True], pool_last := of_nat i\<rparr>)"
    and un: "unat (of_nat i + pool_min_index pool) = unat (pool_min_index pool) + i"
    and t: "ix.tsorted p2 t" "set_tree t = insert h (set_tree (pool_tree pool))"
    and find: "\<And>k. rb_search (index_cmp p2 k) t = (if k = of_nat i + pool_min_index pool then Some h
      else rb_search (index_cmp pool k) (pool_tree pool))"
    by (rule add_index_step [where rebalance = rebalance, OF assms(1,3,4,5)]) (rule that)
  let ?p = "p2\<lparr>pool_tree := t\<rparr>" let ?k = "of_nat i + pool_min_index pool"
  have "pool_inv ?p" by (rule pool_inv_add [OF assms(1,3) i(1) p2 un assms(4) t])
  moreover have "pool_min_index pool \<le> ?k" "?k \<le> pool_max_index pool"
    using un i(1) pool_invD(1) [OF assms(1)] by (simp_all add: word_le_nat_alt)
  moreover have "elem_index ?p h = ?k" using assms(3) by (simp add: p2 elem_index_simps)
  moreover have "pool_find pool ?k = None"
  proof (rule ccontr)
    assume "pool_find pool ?k \<noteq> None"
    then obtain g where "g \<in> set_tree (pool_tree pool)" "elem_index pool g = ?k"
      using ix.search_Some [OF pool_invD(3) [OF assms(1)]] by (auto simp: pool_find_valid [OF assms(2)])
    then show False using pool_invD(6) [OF assms(1) i(1)] i(2) un by auto
  qed
  moreover have "pool_state ?p = rxe_pool_valid" using assms(2) by (simp add: p2 upd_elem_def)
  then have "pool_find ?p j = (if j = ?k then Some h else pool_find pool j)" for j
    using find [of j] by (simp add: pool_find_valid assms(2) index_cmp_simps)
  ultimately show ?thesis using add by blast
qed

text \<open>A pool of three indices: element 7 has index 17, element 9 has none yet.\<close>

definition sample_pool :: rxe_pool where
  "sample_pool = \<lparr>pool_dev_ref = 3, pool_ref = 3, pool_cleanup = True,
     pool_state = rxe_pool_valid, pool_flags = RXE_POOL_INDEX, pool_type = RXE_TYPE_QP,
     pool_max_elem = 3, pool_num_elem = 2, pool_tree = Node Leaf 7 Leaf,
     pool_table = [False, True, False], pool_max_index = 18, pool_min_index = 16, pool_last = 1,
     pool_key_size = 0, pool_elems = [7 \<mapsto> \<lparr>pe_ref = 1, pe_index = 17, pe_key = []\<rparr>,
       9 \<mapsto> \<lparr>pe_ref = 1, pe_index = 0, pe_key = []\<rparr>]\<rparr>"

lemma sample_pool_inv: "pool_inv sample_pool"
proof -
  have r: "pool_range sample_pool = 3" by (simp add: pool_range_def sample_pool_def)
  have c: "i < 3 \<longleftrightarrow> i = 0 \<or> i = 1 \<or> i = (2 :: nat)" for i by auto
  show ?thesis unfolding pool_inv_def r c
    by (auto simp: sample_pool_def ix.tsorted_def elem_index_def)
qed

theorem rxe_add_index_correct_witness:
  "\<exists>pool' k. rxe_add_index (\<lambda>t. t) sample_pool 9 = Some pool' \<and> pool_find pool' k = Some 9"
proof -
  have "pool_state sample_pool = rxe_pool_valid" "9 \<in> dom (pool_elems sample_pool)"
    "9 \<notin> set_tree (pool_tree sample_pool)" by (simp_all add: sample_pool_def)
  from rxe_add_index_correct [OF sample_pool_inv this, of "\<lambda>t. t"] show ?thesis by auto
qed

text \<open>
  \<open>rxe_drop_index\<close> forgets exactly one index: it keeps the invariant, a lookup of the
  element's index finds nothing afterwards, and every other lookup is unchanged.
\<close>

theorem rxe_drop_index_correct:
  assumes "pool_inv pool" and "pool_state pool = rxe_pool_valid"
    and "h \<in> set_tree (pool_tree pool)"
    and "\<And>t. inorder (rb_erase h t) = removeAll h (inorder t)"
  shows "pool_inv (rxe_drop_index rb_erase pool h)
    \<and> (\<forall>j. pool_find (rxe_drop_index rb_erase pool h) j
          = (if j = elem_index pool h then None else pool_find pool j))"
proof -
  let ?p = "rxe_drop_index rb_erase pool h"
  have "pool_find ?p j = (if j = elem_index pool h then None else pool_find pool j)" for j
  proof -
    have "index_cmp ?p j = index_cmp pool j"
      by (simp add: rxe_drop_index_def index_cmp_def elem_index_simps fun_eq_iff)
    then show ?thesis
      using ix.search_erase [OF pool_invD(3) [OF assms(1)] assms(4)] assms(2,3)
      by (simp add: pool_find_valid rxe_drop_index_def)
  qed
  with pool_inv_drop [of pool h rb_erase, OF assms(1,3,4)] show ?thesis by blast
qed

text \<open>Removal of a node by rebuilding the tree from its order, for the witness.\<close>

definition list_erase :: "'h \<Rightarrow> 'h tree \<Rightarrow> 'h tree" where
  "list_erase h t = foldr (\<lambda>x u. Node Leaf x u) (removeAll h (inorder t)) Leaf"

lemma inorder_list_erase: "inorder (list_erase h t) = removeAll h (inorder t)"
proof -
  have "inorder (foldr (\<lambda>x u. Node Leaf x u) xs Leaf) = xs" for xs :: "'a list" by (induction xs) auto
  then show ?thesis by (simp add: list_erase_def)
qed

theorem rxe_drop_index_correct_witness:
  "pool_find sample_pool 17 = Some 7 \<and> pool_find (rxe_drop_index list_erase sample_pool 7) 17 = None"
proof -
  have "pool_state sample_pool = rxe_pool_valid" "7 \<in> set_tree (pool_tree sample_pool)"
    "elem_index sample_pool 7 = 17" by (simp_all add: sample_pool_def elem_index_def)
  with rxe_drop_index_correct [of sample_pool 7 list_erase, OF sample_pool_inv _ _ inorder_list_erase]
  have "pool_find (rxe_drop_index list_erase sample_pool 7) 17 = None" by simp
  moreover have "pool_find sample_pool 17 = Some 7" by code_simp
  ultimately show ?thesis by blast
qed
text \<open>
  C30: the element limit of a pool holds. With memory available, \<open>rxe_alloc\<close> on a valid pool
  fails exactly when the pool has its maximum of live elements, and then leaves the pool as it was;
  otherwise the new element is live with one reference, counted, has no index yet, and no lookup
  changes. An invalid pool gives nothing.
\<close>

theorem rxe_alloc_limit:
  assumes "pool_inv pool" and "0 < pool_ref pool" and "h \<notin> dom (pool_elems pool)"
  shows "(pool_state pool \<noteq> rxe_pool_valid \<longrightarrow> rxe_alloc (Some h) pool = Some (None, pool))
    \<and> (pool_state pool = rxe_pool_valid \<longrightarrow> pool_num_elem pool = uint (pool_max_elem pool)
        \<longrightarrow> rxe_alloc (Some h) pool = Some (None, pool))
    \<and> (pool_state pool = rxe_pool_valid \<longrightarrow> pool_num_elem pool < uint (pool_max_elem pool) \<longrightarrow>
        (\<exists>pool'. rxe_alloc (Some h) pool = Some (Some h, pool') \<and> pool_inv pool'
          \<and> map_option pe_ref (pool_elems pool' h) = Some 1 \<and> h \<notin> set_tree (pool_tree pool')
          \<and> pool_num_elem pool' = pool_num_elem pool + 1 \<and> pool_find pool' = pool_find pool))"
proof (intro conjI impI)
  assume "pool_state pool \<noteq> rxe_pool_valid"
  then show "rxe_alloc (Some h) pool = Some (None, pool)" by (simp add: rxe_alloc_def)
next
  assume "pool_state pool = rxe_pool_valid" "pool_num_elem pool = uint (pool_max_elem pool)"
  then show "rxe_alloc (Some h) pool = Some (None, pool)"
    using assms(2) by (simp add: rxe_alloc_def Let_def pool_put_fields)
next
  assume v: "pool_state pool = rxe_pool_valid" and lt: "pool_num_elem pool < uint (pool_max_elem pool)"
  let ?p = "pool\<lparr>pool_ref := pool_ref pool + 1, pool_dev_ref := pool_dev_ref pool + 1,
     pool_num_elem := pool_num_elem pool + 1, pool_elems := (pool_elems pool)
       (h \<mapsto> \<lparr>pe_ref = 1, pe_index = 0, pe_key = replicate (unat (pool_key_size pool)) 0\<rparr>)\<rparr>"
  have nt: "h \<notin> set_tree (pool_tree pool)" using assms(3) pool_invD(4) [OF assms(1)] by auto
  have "pool_inv ?p"
    by (rule pool_inv_elems [OF assms(1)])
      (use nt lt assms(3) pool_invD(7,8) [OF assms(1)] in \<open>auto simp: card_insert_if\<close>)
  moreover have "pool_find ?p = pool_find pool"
  proof
    fix k
    have "rb_search (index_cmp ?p k) (pool_tree pool) = rb_search (index_cmp pool k) (pool_tree pool)"
      by (rule rb_search_cong) (use nt in \<open>auto simp: index_cmp_def elem_index_def\<close>)
    then show "pool_find ?p k = pool_find pool k" using v by (simp add: pool_find_valid)
  qed
  moreover have "rxe_alloc (Some h) pool = Some (Some h, ?p)"
    using v lt by (simp add: rxe_alloc_def Let_def)
  ultimately show "\<exists>pool'. rxe_alloc (Some h) pool = Some (Some h, pool') \<and> pool_inv pool'
      \<and> map_option pe_ref (pool_elems pool' h) = Some 1 \<and> h \<notin> set_tree (pool_tree pool')
      \<and> pool_num_elem pool' = pool_num_elem pool + 1 \<and> pool_find pool' = pool_find pool"
    using nt by (intro exI [of _ ?p]) simp
qed

theorem rxe_alloc_limit_witness:
  "\<exists>pool'. rxe_alloc (Some 11) sample_pool = Some (Some 11, pool') \<and> pool_num_elem pool' = 3"
proof -
  have "0 < pool_ref sample_pool" "11 \<notin> dom (pool_elems sample_pool)" by (simp_all add: sample_pool_def)
  from rxe_alloc_limit [OF sample_pool_inv this] show ?thesis by (auto simp: sample_pool_def)
qed

text \<open>
  C11: reference counting frees an element exactly with its last reference. Dropping a reference of a
  live element that has left the tree either only lowers its count, or, when the count was one,
  runs the cleanup, removes the element and lowers the number of elements; the invariant is kept
  as long as the cleanup leaves this pool alone.
\<close>

theorem rxe_drop_ref_correct:
  assumes "pool_inv pool" and "1 < pool_ref pool" and "pool_elems pool h = Some e"
    and "0 < pe_ref e" and "h \<notin> set_tree (pool_tree pool)" and "\<And>p. cleanup h (p, w) = (p, w')"
  shows "(1 < pe_ref e \<longrightarrow> rxe_drop_ref cleanup h (pool, w)
        = (pool\<lparr>pool_elems := (pool_elems pool)(h \<mapsto> e\<lparr>pe_ref := pe_ref e - 1\<rparr>)\<rparr>, w))
    \<and> (pe_ref e = 1 \<longrightarrow> (\<exists>pool'. rxe_drop_ref cleanup h (pool, w)
          = (pool', if pool_cleanup pool then w' else w) \<and> pool_inv pool'
          \<and> dom (pool_elems pool') = dom (pool_elems pool) - {h}
          \<and> pool_num_elem pool' = pool_num_elem pool - 1))"
proof (intro conjI impI)
  assume "1 < pe_ref e"
  then show "rxe_drop_ref cleanup h (pool, w)
      = (pool\<lparr>pool_elems := (pool_elems pool)(h \<mapsto> e\<lparr>pe_ref := pe_ref e - 1\<rparr>)\<rparr>, w)"
    using assms(3) by (simp add: rxe_drop_ref_def upd_elem_def Let_def)
next
  assume one: "pe_ref e = 1"
  let ?p = "pool\<lparr>pool_elems := (pool_elems pool)(h := None), pool_num_elem := pool_num_elem pool - 1,
    pool_dev_ref := pool_dev_ref pool - 1, pool_ref := pool_ref pool - 1\<rparr>"
  have card: "card (dom (pool_elems pool) - {h}) = card (dom (pool_elems pool)) - 1"
    "0 < card (dom (pool_elems pool))"
    using domI [of "pool_elems pool", OF assms(3)] pool_invD(7) [OF assms(1)]
    by (auto simp: card_gt_0_iff card_Diff_singleton simp del: domIff)
  have "pool_inv ?p"
    by (rule pool_inv_elems [OF assms(1)])
      (use assms(5) card pool_invD(7,8,9) [OF assms(1)] in \<open>auto simp: of_nat_diff\<close>)
  moreover have "rxe_drop_ref cleanup h (pool, w) = (?p, if pool_cleanup pool then w' else w)"
    using one assms(2,3,6)
    by (simp add: rxe_drop_ref_def upd_elem_def Let_def rxe_elem_release_def pool_put_fields)
  ultimately show "\<exists>pool'. rxe_drop_ref cleanup h (pool, w)
          = (pool', if pool_cleanup pool then w' else w) \<and> pool_inv pool'
          \<and> dom (pool_elems pool') = dom (pool_elems pool) - {h}
          \<and> pool_num_elem pool' = pool_num_elem pool - 1"
    by (intro exI [of _ ?p]) auto
qed

theorem rxe_drop_ref_correct_witness:
  "\<exists>pool'. rxe_drop_ref (\<lambda>h pw. (fst pw, h # snd pw)) 9 (sample_pool, []) = (pool', [9])
     \<and> dom (pool_elems pool') = dom (pool_elems sample_pool) - {9}"
proof -
  have "1 < pool_ref sample_pool" "pool_elems sample_pool 9 = Some \<lparr>pe_ref = 1, pe_index = 0, pe_key = []\<rparr>"
    "9 \<notin> set_tree (pool_tree sample_pool)" "pool_cleanup sample_pool" by (simp_all add: sample_pool_def)
  with rxe_drop_ref_correct [OF sample_pool_inv, of 9 _ "\<lambda>h pw. (fst pw, h # snd pw)" "[]" "[9]"]
  show ?thesis by auto
qed

text \<open>
  C31: \<open>rxe_pool_init\<close> of an indexed type gives a valid pool that satisfies the invariant and
  finds nothing, when memory is available and the number of elements does not exceed the size of
  the type's index range, and fails with \<open>EINVAL\<close> when it does. The index ranges of memory
  regions, fast memory regions and windows are disjoint, so a key determines the type.
\<close>

theorem rxe_pool_init_correct:
  "(\<forall>ty \<in> {RXE_TYPE_SRQ, RXE_TYPE_QP, RXE_TYPE_MR, RXE_TYPE_FMR, RXE_TYPE_MW}. \<forall>max_elem d.
      let rng = ti_max_index (rxe_type_info_table ty) - ti_min_index (rxe_type_info_table ty) + 1;
          (pool, err) = rxe_pool_init True d ty max_elem
      in if max_elem \<le> rng then err = None \<and> pool_state pool = rxe_pool_valid \<and> pool_inv pool
            \<and> pool_find pool = (\<lambda>_. None)
         else err = Some EINVAL)
   \<and> ti_max_index (rxe_type_info_table RXE_TYPE_MR) < ti_min_index (rxe_type_info_table RXE_TYPE_FMR)
   \<and> ti_max_index (rxe_type_info_table RXE_TYPE_FMR) < ti_min_index (rxe_type_info_table RXE_TYPE_MW)"
proof -
  have ini: "if max_elem \<le> mx - mn + 1
        then snd (rxe_pool_init True d ty max_elem) = None
          \<and> pool_state (fst (rxe_pool_init True d ty max_elem)) = rxe_pool_valid
          \<and> pool_inv (fst (rxe_pool_init True d ty max_elem))
          \<and> pool_find (fst (rxe_pool_init True d ty max_elem)) = (\<lambda>_. None)
        else snd (rxe_pool_init True d ty max_elem) = Some EINVAL"
    if "mx = ti_max_index (rxe_type_info_table ty)" "mn = ti_min_index (rxe_type_info_table ty)"
      "ti_flags (rxe_type_info_table ty) = RXE_POOL_INDEX" "unat mn + unat (mx - mn + 1) = unat mx + 1"
    for ty max_elem d mx mn
    using that by (auto simp: rxe_pool_init_def rxe_pool_init_index_def Let_def pool_inv_def pool_range_def
        ix.tsorted_def pool_find_def rxe_pool_get_index_def fun_eq_iff not_less word_le_nat_alt
        word_less_nat_alt)
  show ?thesis
    using ini [where ty = RXE_TYPE_SRQ] ini [where ty = RXE_TYPE_QP] ini [where ty = RXE_TYPE_MR]
      ini [where ty = RXE_TYPE_FMR] ini [where ty = RXE_TYPE_MW]
    by (simp add: Let_def split_beta del: rxe_type_info_table.simps) (simp)
qed

theorem rxe_pool_init_correct_witness:
  "pool_inv (fst (rxe_pool_init True 1 RXE_TYPE_MR 2048))"
  using rxe_pool_init_correct by (simp add: Let_def split_beta)



text \<open>
  C29: keyed pools (multicast groups by gid). \<open>rxe_add_key\<close> stores the key in the element and
  inserts it; afterwards a lookup of the key finds the element, unless an element with an equal key
  was there before, which stays; lookups of other keys of the same length are unchanged.
\<close>

theorem rxe_add_key_correct:
  assumes "ky.tsorted pool n (pool_tree pool)" and "pool_state pool = rxe_pool_valid"
    and "h \<in> dom (pool_elems pool)" and "h \<notin> set_tree (pool_tree pool)"
    and "n = unat (pool_key_size pool)" and "length key = n"
    and "\<And>t. inorder (rebalance t) = inorder t" and "length k = n"
  shows "fst (rxe_pool_get_key (rxe_add_key rebalance pool h key) k)
    = (if k = key then (case fst (rxe_pool_get_key pool key) of None \<Rightarrow> Some h | Some g \<Rightarrow> Some g)
       else fst (rxe_pool_get_key pool k))"
proof -
  let ?p = "upd_elem h (\<lambda>e. e\<lparr>pe_key := take (unat (pool_key_size pool)) key\<rparr>) pool"
  have key: "elem_key ?p g = (if g = h then key else elem_key pool g)" for g
    using assms(3,5,6) by (auto simp: elem_key_def upd_elem_def)
  have tree: "pool_tree ?p = pool_tree pool" "pool_state ?p = rxe_pool_valid"
    using assms(2) by (simp_all add: upd_elem_def)
  have find: "fst (rxe_pool_get_key p c) = rb_search (key_cmp p c) (pool_tree p)"
    if "pool_state p = rxe_pool_valid" for p c
    using that by (simp add: rxe_pool_get_key_def split: option.split)
  have same: "rb_search (key_cmp ?p c) (pool_tree pool) = rb_search (key_cmp pool c) (pool_tree pool)" for c
    by (rule rb_search_cong) (use assms(4) in \<open>auto simp: key_cmp_def key\<close>)
  have ts: "ky.tsorted ?p n (pool_tree pool)"
  proof -
    have "elem_key ?p g = elem_key pool g" if "g \<in> set_tree (pool_tree pool)" for g
      using that assms(4) key by auto
    then have "sorted_wrt (\<lambda>x y. elem_key ?p x < elem_key ?p y) (inorder (pool_tree pool))
        \<longleftrightarrow> sorted_wrt (\<lambda>x y. elem_key pool x < elem_key pool y) (inorder (pool_tree pool))"
      by (auto simp: sorted_wrt_iff_nth_less simp flip: set_inorder)
    then show ?thesis using assms(1,4) key by (auto simp: ky.tsorted_def)
  qed
  show ?thesis
  proof (cases "\<exists>g \<in> set_tree (pool_tree pool). elem_key pool g = key")
    case True
    then obtain g where g: "g \<in> set_tree (pool_tree pool)" "elem_key pool g = key" by blast
    have "rb_search (key_cmp pool key) (pool_tree pool) = Some g"
      using ky.search_Some [OF assms(1,6)] g by simp
    moreover have "rb_link (key_cmp ?p key) h (pool_tree pool) = None"
      by (rule ky.link_present [OF ts assms(6) g(1)]) (use g assms(4) in \<open>auto simp: key\<close>)
    ultimately show ?thesis
      by (simp add: rxe_add_key_def insert_key_def tree find assms(2) key same)
  next
    case False
    have fresh: "elem_key ?p g \<noteq> elem_key ?p h"
      if "g \<in> set_tree (pool_tree pool)" for g
      using False assms(4,6) that by (auto simp: key)
    have ok: "length (elem_key ?p h) = n" using assms(6) by (simp add: key)
    obtain t where t: "rb_link (key_cmp ?p (elem_key ?p h)) h (pool_tree pool) = Some t"
      "\<And>c. length c = n \<Longrightarrow> rb_search (key_cmp ?p c) (rebalance t)
        = (if c = elem_key ?p h then Some h else rb_search (key_cmp ?p c) (pool_tree pool))"
      using ky.search_link [OF ts ok fresh assms(7)] by blast
    have none: "rb_search (key_cmp pool key) (pool_tree pool) = None"
      using ky.search_Some [OF assms(1,6)] False by (metis not_None_eq)
    let ?q = "?p\<lparr>pool_tree := rebalance t\<rparr>"
    have add: "rxe_add_key rebalance pool h key = ?q"
      using t(1) by (simp add: rxe_add_key_def insert_key_def tree)
    have q: "pool_state ?q = rxe_pool_valid" "pool_tree ?q = rebalance t" "key_cmp ?q k = key_cmp ?p k"
      using tree(2) by (simp_all add: key_cmp_def elem_key_def fun_eq_iff)
    have "fst (rxe_pool_get_key ?q k)
        = (if k = key then Some h else rb_search (key_cmp pool k) (pool_tree pool))"
      using find [OF q(1), of k] t(2) [OF assms(8)] unfolding q(2,3) by (simp add: key same)
    then show ?thesis unfolding add find [OF assms(2)] none by simp
  qed
qed

definition sample_key_pool :: rxe_pool where
  "sample_key_pool = sample_pool\<lparr>pool_key_size := 2, pool_tree := Leaf\<rparr>"

theorem rxe_add_key_correct_witness:
  "fst (rxe_pool_get_key (rxe_add_key (\<lambda>t. t) sample_key_pool 9 [1, 2]) [1, 2]) = Some 9"
proof -
  have f: "pool_state sample_key_pool = rxe_pool_valid" "9 \<in> dom (pool_elems sample_key_pool)"
    "pool_tree sample_key_pool = Leaf" "unat (pool_key_size sample_key_pool) = 2"
    by (simp_all add: sample_key_pool_def sample_pool_def)
  have "fst (rxe_pool_get_key sample_key_pool [1, 2]) = None"
    by (simp add: rxe_pool_get_key_def f(1,3))
  then show ?thesis
    using rxe_add_key_correct [where pool = sample_key_pool and n = 2 and h = 9 and key = "[1, 2]"
        and rebalance = "\<lambda>t. t" and k = "[1, 2]", OF _ f(1,2) _ f(4) [symmetric]]
    by (simp only: f(3) ky.tsorted_def) simp
qed

end
