(* ===== verification/Rxe_Bytes.thy ===== *)
theory Rxe_Bytes
  imports Rxe_Prelude
begin

text \<open>
  Byte-addressed buffers as a little-endian machine reads them: loads and stores of 16, 32 and
  64 bit words, the byte swaps behind \<open>cpu_to_be32\<close> and its relatives, and the
  interface of a header field that the accessors of \<open>rxe_hdr.h\<close> rely on. A buffer maps
  offsets from a pointer to bytes; offsets are signed because headers may be placed before it.
\<close>

type_synonym bytes = "int \<Rightarrow> u8"

subsection \<open>Byte swaps (linux/swab.h) and little-endian access\<close>

definition swab16 :: "u16 \<Rightarrow> u16" where
  "swab16 x = push_bit 8 (x AND 0x00ff) OR drop_bit 8 (x AND 0xff00)"

definition swab32 :: "u32 \<Rightarrow> u32" where
  "swab32 x = push_bit 24 (x AND 0x000000ff) OR push_bit 8 (x AND 0x0000ff00)
     OR drop_bit 8 (x AND 0x00ff0000) OR drop_bit 24 (x AND 0xff000000)"

definition swab64 :: "u64 \<Rightarrow> u64" where
  "swab64 val = push_bit 32 (ucast (swab32 (ucast (val AND mask 32))))
     OR ucast (swab32 (ucast (drop_bit 32 val)))"

abbreviation (input) cpu_to_be16 :: "u16 \<Rightarrow> u16" where "cpu_to_be16 \<equiv> swab16"
abbreviation (input) be16_to_cpu :: "u16 \<Rightarrow> u16" where "be16_to_cpu \<equiv> swab16"
abbreviation (input) cpu_to_be32 :: "u32 \<Rightarrow> u32" where "cpu_to_be32 \<equiv> swab32"
abbreviation (input) be32_to_cpu :: "u32 \<Rightarrow> u32" where "be32_to_cpu \<equiv> swab32"
abbreviation (input) cpu_to_be64 :: "u64 \<Rightarrow> u64" where "cpu_to_be64 \<equiv> swab64"
abbreviation (input) be64_to_cpu :: "u64 \<Rightarrow> u64" where "be64_to_cpu \<equiv> swab64"

definition load16 :: "bytes \<Rightarrow> int \<Rightarrow> u16" where
  "load16 m p = ucast (m p) OR push_bit 8 (ucast (m (p + 1)))"

definition store16 :: "bytes \<Rightarrow> int \<Rightarrow> u16 \<Rightarrow> bytes" where
  "store16 m p v = m(p := ucast v, p + 1 := ucast (drop_bit 8 v))"

definition load32 :: "bytes \<Rightarrow> int \<Rightarrow> u32" where
  "load32 m p = ucast (load16 m p) OR push_bit 16 (ucast (load16 m (p + 2)))"

definition store32 :: "bytes \<Rightarrow> int \<Rightarrow> u32 \<Rightarrow> bytes" where
  "store32 m p v = store16 (store16 m p (ucast v)) (p + 2) (ucast (drop_bit 16 v))"

definition load64 :: "bytes \<Rightarrow> int \<Rightarrow> u64" where
  "load64 m p = ucast (load32 m p) OR push_bit 32 (ucast (load32 m (p + 4)))"

definition store64 :: "bytes \<Rightarrow> int \<Rightarrow> u64 \<Rightarrow> bytes" where
  "store64 m p v = store32 (store32 m p (ucast v)) (p + 4) (ucast (drop_bit 32 v))"

subsection \<open>The swaps are involutions and commute with the bitwise operations\<close>

lemma bit_swab16:
  "bit (swab16 x) n \<longleftrightarrow> (8 \<le> n \<and> n < 16 \<and> bit x (n - 8)) \<or> (n < 8 \<and> bit x (n + 8))"
proof -
  have m: "(0x00ff :: u16) = mask 8" "(0xff00 :: u16) = push_bit 8 (mask 8)"
    by (simp_all add: mask_eq_exp_minus_1 push_bit_eq_mult)
  show ?thesis unfolding swab16_def m by (auto simp: bit_simps add.commute [of n])
qed

lemma bit_swab32:
  "n < 8 \<Longrightarrow> bit (swab32 x) n \<longleftrightarrow> bit x (n + 24)"
  "8 \<le> n \<Longrightarrow> n < 16 \<Longrightarrow> bit (swab32 x) n \<longleftrightarrow> bit x (n + 8)"
  "16 \<le> n \<Longrightarrow> n < 24 \<Longrightarrow> bit (swab32 x) n \<longleftrightarrow> bit x (n - 8)"
  "24 \<le> n \<Longrightarrow> n < 32 \<Longrightarrow> bit (swab32 x) n \<longleftrightarrow> bit x (n - 24)"
proof -
  have m: "(0x000000ff :: u32) = mask 8" "(0x0000ff00 :: u32) = push_bit 8 (mask 8)"
    "(0x00ff0000 :: u32) = push_bit 16 (mask 8)" "(0xff000000 :: u32) = push_bit 24 (mask 8)"
    by (simp_all add: mask_eq_exp_minus_1 push_bit_eq_mult)
  show "n < 8 \<Longrightarrow> bit (swab32 x) n \<longleftrightarrow> bit x (n + 24)"
    "8 \<le> n \<Longrightarrow> n < 16 \<Longrightarrow> bit (swab32 x) n \<longleftrightarrow> bit x (n + 8)"
    "16 \<le> n \<Longrightarrow> n < 24 \<Longrightarrow> bit (swab32 x) n \<longleftrightarrow> bit x (n - 8)"
    "24 \<le> n \<Longrightarrow> n < 32 \<Longrightarrow> bit (swab32 x) n \<longleftrightarrow> bit x (n - 24)"
    unfolding swab32_def m by (auto simp: bit_simps add.commute [of _ n])
qed

lemma bytes_of_32_cases:
  assumes "n < (32::nat)"
  obtains "n < 8" | "8 \<le> n" "n < 16" | "16 \<le> n" "n < 24" | "24 \<le> n" "n < 32"
  using assms by linarith

lemma swab16_swab16 [simp]: "swab16 (swab16 x) = x"
  by (rule bit_word_eqI) (auto simp: bit_swab16)

lemma swab32_swab32 [simp]: "swab32 (swab32 x) = x"
proof (rule bit_word_eqI)
  fix n :: nat assume "n < LENGTH(32)"
  then have "n < 32" by simp
  then show "bit (swab32 (swab32 x)) n \<longleftrightarrow> bit x n"
    by (cases rule: bytes_of_32_cases) (simp_all add: bit_swab32)
qed

lemma word64_halves:
  "ucast (push_bit 32 (ucast (h :: u32)) OR ucast (l :: u32) :: u64) = l"
  "ucast (drop_bit 32 (push_bit 32 (ucast (h :: u32)) OR ucast (l :: u32) :: u64)) = h"
  "push_bit 32 (ucast (ucast (drop_bit 32 w) :: u32)) OR ucast (ucast w :: u32) = (w :: u64)"
  by (rule bit_word_eqI; auto simp: bit_simps dest: bit_imp_le_length)+

lemma swab64_halves:
  "swab64 w = push_bit 32 (ucast (swab32 (ucast w))) OR ucast (swab32 (ucast (drop_bit 32 w)))"
proof -
  have "ucast (w AND mask 32) = (ucast w :: u32)" by (rule bit_word_eqI) (simp add: bit_simps)
  then show ?thesis by (simp add: swab64_def)
qed

lemma swab64_swab64 [simp]: "swab64 (swab64 w) = w"
  by (simp only: swab64_halves [of "swab64 w"]) (simp only: swab64_halves word64_halves swab32_swab32)

lemma bit_swab32_pos:
  assumes "n < 32"
  obtains p where "p < 32" and "\<And>x. bit (swab32 x) n \<longleftrightarrow> bit x p"
  using assms
proof (cases rule: bytes_of_32_cases)
  case 1
  then show ?thesis using that [of "n + 24"] by (simp add: bit_swab32)
next
  case 2
  then show ?thesis using that [of "n + 8"] by (simp add: bit_swab32)
next
  case 3
  then show ?thesis using that [of "n - 8"] by (simp add: bit_swab32)
next
  case 4
  then show ?thesis using that [of "n - 24"] by (simp add: bit_swab32)
qed

lemma swab32_and: "swab32 (x AND y) = swab32 x AND swab32 y"
  by (rule bit_word_eqI) (auto simp: bit_simps elim: bit_swab32_pos)

lemma swab32_or: "swab32 (x OR y) = swab32 x OR swab32 y"
  by (rule bit_word_eqI) (auto simp: bit_simps elim: bit_swab32_pos)

lemma swab32_not: "swab32 (NOT x) = NOT (swab32 x)"
proof (rule bit_word_eqI)
  fix n assume "n < LENGTH(32)"
  then obtain p where "p < 32" "\<And>x. bit (swab32 x) n \<longleftrightarrow> bit x p"
    using bit_swab32_pos [of n] by auto
  then show "bit (swab32 (NOT x)) n \<longleftrightarrow> bit (NOT (swab32 x)) n"
    using \<open>n < LENGTH(32)\<close> by (simp add: bit_simps)
qed

lemmas swab32_bitwise = swab32_and swab32_or swab32_not

lemma swab32_eq_0_iff: "swab32 x = 0 \<longleftrightarrow> x = 0"
proof -
  have "swab32 0 = 0" by (simp add: swab32_def)
  then show ?thesis using swab32_swab32 [of x] by metis
qed

subsection \<open>Fields of a buffer\<close>

text \<open>What the header accessors rely on: a field of \<open>len\<close> bytes that reads back what was
  stored, changes no byte outside, and depends on no byte outside.\<close>

locale byte_field =
  fixes get :: "bytes \<Rightarrow> int \<Rightarrow> 'v"
    and put :: "bytes \<Rightarrow> int \<Rightarrow> 'v \<Rightarrow> bytes"
    and len :: int
  assumes get_put: "get (put m p v) p = v"
    and put_frame: "q < p \<or> p + len \<le> q \<Longrightarrow> put m p v q = m q"
    and get_local: "(\<And>q. p \<le> q \<Longrightarrow> q < p + len \<Longrightarrow> m q = m' q) \<Longrightarrow> get m p = get m' p"
    and get_inj: "get m p = get m' p \<Longrightarrow> p \<le> q \<Longrightarrow> q < p + len \<Longrightarrow> m q = m' q"
begin

lemma get_put_apart: "q + len \<le> p \<or> p + len \<le> q \<Longrightarrow> get (put m p v) q = get m q"
  by (rule get_local) (rule put_frame, linarith)

lemma put_put: "put (put m p v) p w = put m p w"
proof
  fix q
  show "put (put m p v) p w q = put m p w q"
  proof (cases "q < p \<or> p + len \<le> q")
    case True
    then show ?thesis by (simp add: put_frame)
  next
    case False
    have "get (put (put m p v) p w) p = get (put m p w) p" by (simp add: get_put)
    from get_inj [OF this] False show ?thesis by simp
  qed
qed

lemma put_get: "put m p (get m p) = m"
proof
  fix q
  show "put m p (get m p) q = m q"
  proof (cases "q < p \<or> p + len \<le> q")
    case False
    have "get (put m p (get m p)) p = get m p" by (simp add: get_put)
    from get_inj [OF this] False show ?thesis by simp
  qed (simp add: put_frame)
qed

lemma get_eq_put_eq: "get m p = v \<longleftrightarrow> m = put m p v"
  using put_get [of m p] get_put [of m p v] by auto

end

definition load8 :: "bytes \<Rightarrow> int \<Rightarrow> u8" where
  "load8 m p = m p"

definition store8 :: "bytes \<Rightarrow> int \<Rightarrow> u8 \<Rightarrow> bytes" where
  "store8 m p v = m(p := v)"

lemma word_pair_inj:
  fixes a b c d :: "'a::len word"
  assumes len: "LENGTH('b::len) = LENGTH('a) + LENGTH('a)"
    and eq: "ucast a OR push_bit LENGTH('a) (ucast b)
      = (ucast c OR push_bit LENGTH('a) (ucast d) :: 'b word)"
  shows "a = c \<and> b = d"
proof -
  have lo: "ucast (ucast x OR push_bit LENGTH('a) (ucast y) :: 'b word) = x"
    and hi: "ucast (drop_bit LENGTH('a) (ucast x OR push_bit LENGTH('a) (ucast y) :: 'b word)) = y"
    for x y :: "'a word"
    by (rule bit_word_eqI; auto simp: bit_simps len dest: bit_imp_le_length)+
  show ?thesis
    using arg_cong [OF eq, of "ucast :: 'b word \<Rightarrow> 'a word"]
      arg_cong [OF eq, of "\<lambda>w. ucast (drop_bit LENGTH('a) w) :: 'a word"]
    by (simp only: lo hi)
qed

lemmas pair_inj = word_pair_inj [where 'a = 8 and 'b = 16, simplified]
  word_pair_inj [where 'a = 16 and 'b = 32, simplified]
  word_pair_inj [where 'a = 32 and 'b = 64, simplified]

lemma ucast_halves:
  "ucast (ucast v :: u8) OR push_bit 8 (ucast (ucast (drop_bit 8 v) :: u8)) = (v :: u16)"
  "ucast (ucast w :: u16) OR push_bit 16 (ucast (ucast (drop_bit 16 w) :: u16)) = (w :: u32)"
  "ucast (ucast x :: u32) OR push_bit 32 (ucast (ucast (drop_bit 32 x) :: u32)) = (x :: u64)"
  by (rule bit_word_eqI; auto simp: bit_simps)+

interpretation f8: byte_field load8 store8 1
proof unfold_locales
  fix m m' :: bytes and p q
  assume "load8 m p = load8 m' p" "p \<le> q" "q < p + 1"
  then show "m q = m' q" by (simp add: load8_def)
qed (auto simp: load8_def store8_def)

interpretation f16: byte_field load16 store16 2
proof unfold_locales
  fix m m' :: bytes and p q
  assume "load16 m p = load16 m' p" and q: "p \<le> q" "q < p + 2"
  then have "m p = m' p" "m (p + 1) = m' (p + 1)" by (auto simp: load16_def dest: pair_inj)
  moreover have "q = p \<or> q = p + 1" using q by linarith
  ultimately show "m q = m' q" by auto
qed (auto simp: load16_def store16_def ucast_halves)

interpretation f32: byte_field load32 store32 4
proof unfold_locales
  fix m m' :: bytes and p q
  assume "load32 m p = load32 m' p" and q: "p \<le> q" "q < p + 4"
  then have e: "load16 m p = load16 m' p" "load16 m (p + 2) = load16 m' (p + 2)"
    by (auto simp: load32_def dest: pair_inj)
  show "m q = m' q"
    using f16.get_inj [OF e(1), of q] f16.get_inj [OF e(2), of q] q by linarith
next
  fix m m' :: bytes and p
  assume e: "\<And>q. p \<le> q \<Longrightarrow> q < p + 4 \<Longrightarrow> m q = m' q"
  have "load16 m p = load16 m' p" "load16 m (p + 2) = load16 m' (p + 2)"
    by (rule f16.get_local, simp add: e)+
  then show "load32 m p = load32 m' p" by (simp add: load32_def)
qed (auto simp: load32_def store32_def f16.get_put f16.get_put_apart f16.put_frame ucast_halves)

interpretation f64: byte_field load64 store64 8
proof unfold_locales
  fix m m' :: bytes and p q
  assume "load64 m p = load64 m' p" and q: "p \<le> q" "q < p + 8"
  then have e: "load32 m p = load32 m' p" "load32 m (p + 4) = load32 m' (p + 4)"
    by (auto simp: load64_def dest: pair_inj)
  show "m q = m' q"
    using f32.get_inj [OF e(1), of q] f32.get_inj [OF e(2), of q] q by linarith
next
  fix m m' :: bytes and p
  assume e: "\<And>q. p \<le> q \<Longrightarrow> q < p + 8 \<Longrightarrow> m q = m' q"
  have "load32 m p = load32 m' p" "load32 m (p + 4) = load32 m' (p + 4)"
    by (rule f32.get_local, simp add: e)+
  then show "load64 m p = load64 m' p" by (simp add: load64_def)
qed (auto simp: load64_def store64_def f32.get_put f32.get_put_apart f32.put_frame ucast_halves)

lemmas store_frame = f8.put_frame f16.put_frame f32.put_frame f64.put_frame
lemmas load_store = f8.get_put f16.get_put f32.get_put f64.get_put
  f8.get_put_apart f16.get_put_apart f32.get_put_apart f64.get_put_apart

lemma load8_apart:
  "q < p \<or> p + 2 \<le> q \<Longrightarrow> load8 (store16 m p v16) q = load8 m q"
  "q < p \<or> p + 4 \<le> q \<Longrightarrow> load8 (store32 m p v32) q = load8 m q"
  "q < p \<or> p + 8 \<le> q \<Longrightarrow> load8 (store64 m p v64) q = load8 m q"
  by (simp_all add: load8_def store_frame)

lemma load16_apart:
  "q + 2 \<le> p \<or> p + 1 \<le> q \<Longrightarrow> load16 (store8 m p v8) q = load16 m q"
  "q + 2 \<le> p \<or> p + 4 \<le> q \<Longrightarrow> load16 (store32 m p v32) q = load16 m q"
  "q + 2 \<le> p \<or> p + 8 \<le> q \<Longrightarrow> load16 (store64 m p v64) q = load16 m q"
  by (rule f16.get_local, rule store_frame, linarith)+

lemma load32_apart:
  "q + 4 \<le> p \<or> p + 1 \<le> q \<Longrightarrow> load32 (store8 m p v8) q = load32 m q"
  "q + 4 \<le> p \<or> p + 2 \<le> q \<Longrightarrow> load32 (store16 m p v16) q = load32 m q"
  "q + 4 \<le> p \<or> p + 8 \<le> q \<Longrightarrow> load32 (store64 m p v64) q = load32 m q"
  by (rule f32.get_local, rule store_frame, linarith)+

lemma load64_apart:
  "q + 8 \<le> p \<or> p + 1 \<le> q \<Longrightarrow> load64 (store8 m p v8) q = load64 m q"
  "q + 8 \<le> p \<or> p + 2 \<le> q \<Longrightarrow> load64 (store16 m p v16) q = load64 m q"
  "q + 8 \<le> p \<or> p + 4 \<le> q \<Longrightarrow> load64 (store32 m p v32) q = load64 m q"
  by (rule f64.get_local, rule store_frame, linarith)+

lemmas load_apart = load8_apart load16_apart load32_apart load64_apart

end
