(* ===== verification/Rxe_Opcode.thy ===== *)
theory Rxe_Opcode
  imports Rxe_Prelude
begin

text \<open>
  The packet opcode table of \<open>rxe_opcode.c\<close> (headers, classes, header length and header
  offsets of every opcode) and the work-request table, with the constants of
  \<open>rxe_opcode.h\<close> and the opcode numbers of \<open>rdma/ib_pack.h\<close>. The lemmas check
  the whole table: every opcode's headers tile the bytes between the base transport header and
  the payload without gap or overlap.
\<close>

subsection \<open>Work request and header masks (rxe_opcode.h)\<close>

abbreviation (input) WR_INLINE_MASK :: u32 where "WR_INLINE_MASK \<equiv> 0x1"
abbreviation (input) WR_ATOMIC_MASK :: u32 where "WR_ATOMIC_MASK \<equiv> 0x2"
abbreviation (input) WR_SEND_MASK :: u32 where "WR_SEND_MASK \<equiv> 0x4"
abbreviation (input) WR_READ_MASK :: u32 where "WR_READ_MASK \<equiv> 0x8"
abbreviation (input) WR_WRITE_MASK :: u32 where "WR_WRITE_MASK \<equiv> 0x10"
abbreviation (input) WR_LOCAL_MASK :: u32 where "WR_LOCAL_MASK \<equiv> 0x20"
abbreviation (input) WR_READ_OR_WRITE_MASK :: u32 where "WR_READ_OR_WRITE_MASK \<equiv> WR_READ_MASK OR WR_WRITE_MASK"
abbreviation (input) WR_READ_WRITE_OR_SEND_MASK :: u32 where "WR_READ_WRITE_OR_SEND_MASK \<equiv> WR_READ_OR_WRITE_MASK OR WR_SEND_MASK"
abbreviation (input) WR_WRITE_OR_SEND_MASK :: u32 where "WR_WRITE_OR_SEND_MASK \<equiv> WR_WRITE_MASK OR WR_SEND_MASK"
abbreviation (input) WR_ATOMIC_OR_READ_MASK :: u32 where "WR_ATOMIC_OR_READ_MASK \<equiv> WR_ATOMIC_MASK OR WR_READ_MASK"

datatype rxe_hdr_type =
    RXE_LRH | RXE_GRH | RXE_BTH | RXE_RETH | RXE_AETH | RXE_ATMETH
  | RXE_ATMACK | RXE_IETH | RXE_RDETH | RXE_DETH | RXE_IMMDT | RXE_PAYLOAD

abbreviation (input) RXE_LRH_MASK :: u32 where "RXE_LRH_MASK \<equiv> 0x1"
abbreviation (input) RXE_GRH_MASK :: u32 where "RXE_GRH_MASK \<equiv> 0x2"
abbreviation (input) RXE_BTH_MASK :: u32 where "RXE_BTH_MASK \<equiv> 0x4"
abbreviation (input) RXE_RETH_MASK :: u32 where "RXE_RETH_MASK \<equiv> 0x8"
abbreviation (input) RXE_AETH_MASK :: u32 where "RXE_AETH_MASK \<equiv> 0x10"
abbreviation (input) RXE_ATMETH_MASK :: u32 where "RXE_ATMETH_MASK \<equiv> 0x20"
abbreviation (input) RXE_ATMACK_MASK :: u32 where "RXE_ATMACK_MASK \<equiv> 0x40"
abbreviation (input) RXE_IETH_MASK :: u32 where "RXE_IETH_MASK \<equiv> 0x80"
abbreviation (input) RXE_RDETH_MASK :: u32 where "RXE_RDETH_MASK \<equiv> 0x100"
abbreviation (input) RXE_DETH_MASK :: u32 where "RXE_DETH_MASK \<equiv> 0x200"
abbreviation (input) RXE_IMMDT_MASK :: u32 where "RXE_IMMDT_MASK \<equiv> 0x400"
abbreviation (input) RXE_PAYLOAD_MASK :: u32 where "RXE_PAYLOAD_MASK \<equiv> 0x800"
abbreviation (input) RXE_REQ_MASK :: u32 where "RXE_REQ_MASK \<equiv> 0x1000"
abbreviation (input) RXE_ACK_MASK :: u32 where "RXE_ACK_MASK \<equiv> 0x2000"
abbreviation (input) RXE_SEND_MASK :: u32 where "RXE_SEND_MASK \<equiv> 0x4000"
abbreviation (input) RXE_WRITE_MASK :: u32 where "RXE_WRITE_MASK \<equiv> 0x8000"
abbreviation (input) RXE_READ_MASK :: u32 where "RXE_READ_MASK \<equiv> 0x10000"
abbreviation (input) RXE_ATOMIC_MASK :: u32 where "RXE_ATOMIC_MASK \<equiv> 0x20000"
abbreviation (input) RXE_RWR_MASK :: u32 where "RXE_RWR_MASK \<equiv> 0x40000"
abbreviation (input) RXE_COMP_MASK :: u32 where "RXE_COMP_MASK \<equiv> 0x80000"
abbreviation (input) RXE_START_MASK :: u32 where "RXE_START_MASK \<equiv> 0x100000"
abbreviation (input) RXE_MIDDLE_MASK :: u32 where "RXE_MIDDLE_MASK \<equiv> 0x200000"
abbreviation (input) RXE_END_MASK :: u32 where "RXE_END_MASK \<equiv> 0x400000"
abbreviation (input) RXE_CNP_MASK :: u32 where "RXE_CNP_MASK \<equiv> 0x800000"
abbreviation (input) RXE_LOOPBACK_MASK :: u32 where "RXE_LOOPBACK_MASK \<equiv> 0x1000000"
abbreviation (input) RXE_READ_OR_ATOMIC :: u32 where "RXE_READ_OR_ATOMIC \<equiv> RXE_READ_MASK OR RXE_ATOMIC_MASK"
abbreviation (input) RXE_WRITE_OR_SEND :: u32 where "RXE_WRITE_OR_SEND \<equiv> RXE_WRITE_MASK OR RXE_SEND_MASK"

abbreviation (input) OPCODE_NONE :: int where "OPCODE_NONE \<equiv> -1"

text \<open>Header lengths, \<open>enum rxe_hdr_length\<close> of \<open>rxe_hdr.h\<close>.\<close>

abbreviation (input) RXE_LRH_BYTES :: int where "RXE_LRH_BYTES \<equiv> 8"
abbreviation (input) RXE_GRH_BYTES :: int where "RXE_GRH_BYTES \<equiv> 40"
abbreviation (input) RXE_BTH_BYTES :: int where "RXE_BTH_BYTES \<equiv> 12"
abbreviation (input) RXE_DETH_BYTES :: int where "RXE_DETH_BYTES \<equiv> 8"
abbreviation (input) RXE_IMMDT_BYTES :: int where "RXE_IMMDT_BYTES \<equiv> 4"
abbreviation (input) RXE_RETH_BYTES :: int where "RXE_RETH_BYTES \<equiv> 16"
abbreviation (input) RXE_AETH_BYTES :: int where "RXE_AETH_BYTES \<equiv> 4"
abbreviation (input) RXE_ATMACK_BYTES :: int where "RXE_ATMACK_BYTES \<equiv> 8"
abbreviation (input) RXE_ATMETH_BYTES :: int where "RXE_ATMETH_BYTES \<equiv> 28"
abbreviation (input) RXE_IETH_BYTES :: int where "RXE_IETH_BYTES \<equiv> 4"
abbreviation (input) RXE_RDETH_BYTES :: int where "RXE_RDETH_BYTES \<equiv> 4"

datatype ib_qp_type = IB_QPT_SMI | IB_QPT_GSI | IB_QPT_RC | IB_QPT_UC | IB_QPT_UD
  | IB_QPT_RAW_IPV6 | IB_QPT_RAW_ETHERTYPE


record rxe_wr_opcode_info =
  wi_name :: string
  wi_mask :: "ib_qp_type \<Rightarrow> u32"

record rxe_opcode_info =
  oi_name :: "string option"
  oi_mask :: u32
  oi_length :: int
  oi_offset :: "rxe_hdr_type \<Rightarrow> int"

text \<open>A designated initialiser: the elements that are not named are zero.\<close>

definition init_array :: "('i \<times> 'v::zero) list \<Rightarrow> 'i \<Rightarrow> 'v" where
  "init_array xs i = (case map_of xs i of Some v \<Rightarrow> v | None \<Rightarrow> 0)"

subsection \<open>Opcode numbers (rdma/ib_pack.h, rdma/ib_verbs.h)\<close>

abbreviation (input) IB_OPCODE_RC_SEND_FIRST :: u8 where "IB_OPCODE_RC_SEND_FIRST \<equiv> 0x00"
abbreviation (input) IB_OPCODE_RC_SEND_MIDDLE :: u8 where "IB_OPCODE_RC_SEND_MIDDLE \<equiv> 0x01"
abbreviation (input) IB_OPCODE_RC_SEND_LAST :: u8 where "IB_OPCODE_RC_SEND_LAST \<equiv> 0x02"
abbreviation (input) IB_OPCODE_RC_SEND_LAST_WITH_IMMEDIATE :: u8 where "IB_OPCODE_RC_SEND_LAST_WITH_IMMEDIATE \<equiv> 0x03"
abbreviation (input) IB_OPCODE_RC_SEND_ONLY :: u8 where "IB_OPCODE_RC_SEND_ONLY \<equiv> 0x04"
abbreviation (input) IB_OPCODE_RC_SEND_ONLY_WITH_IMMEDIATE :: u8 where "IB_OPCODE_RC_SEND_ONLY_WITH_IMMEDIATE \<equiv> 0x05"
abbreviation (input) IB_OPCODE_RC_RDMA_WRITE_FIRST :: u8 where "IB_OPCODE_RC_RDMA_WRITE_FIRST \<equiv> 0x06"
abbreviation (input) IB_OPCODE_RC_RDMA_WRITE_MIDDLE :: u8 where "IB_OPCODE_RC_RDMA_WRITE_MIDDLE \<equiv> 0x07"
abbreviation (input) IB_OPCODE_RC_RDMA_WRITE_LAST :: u8 where "IB_OPCODE_RC_RDMA_WRITE_LAST \<equiv> 0x08"
abbreviation (input) IB_OPCODE_RC_RDMA_WRITE_LAST_WITH_IMMEDIATE :: u8 where "IB_OPCODE_RC_RDMA_WRITE_LAST_WITH_IMMEDIATE \<equiv> 0x09"
abbreviation (input) IB_OPCODE_RC_RDMA_WRITE_ONLY :: u8 where "IB_OPCODE_RC_RDMA_WRITE_ONLY \<equiv> 0x0a"
abbreviation (input) IB_OPCODE_RC_RDMA_WRITE_ONLY_WITH_IMMEDIATE :: u8 where "IB_OPCODE_RC_RDMA_WRITE_ONLY_WITH_IMMEDIATE \<equiv> 0x0b"
abbreviation (input) IB_OPCODE_RC_RDMA_READ_REQUEST :: u8 where "IB_OPCODE_RC_RDMA_READ_REQUEST \<equiv> 0x0c"
abbreviation (input) IB_OPCODE_RC_RDMA_READ_RESPONSE_FIRST :: u8 where "IB_OPCODE_RC_RDMA_READ_RESPONSE_FIRST \<equiv> 0x0d"
abbreviation (input) IB_OPCODE_RC_RDMA_READ_RESPONSE_MIDDLE :: u8 where "IB_OPCODE_RC_RDMA_READ_RESPONSE_MIDDLE \<equiv> 0x0e"
abbreviation (input) IB_OPCODE_RC_RDMA_READ_RESPONSE_LAST :: u8 where "IB_OPCODE_RC_RDMA_READ_RESPONSE_LAST \<equiv> 0x0f"
abbreviation (input) IB_OPCODE_RC_RDMA_READ_RESPONSE_ONLY :: u8 where "IB_OPCODE_RC_RDMA_READ_RESPONSE_ONLY \<equiv> 0x10"
abbreviation (input) IB_OPCODE_RC_ACKNOWLEDGE :: u8 where "IB_OPCODE_RC_ACKNOWLEDGE \<equiv> 0x11"
abbreviation (input) IB_OPCODE_RC_ATOMIC_ACKNOWLEDGE :: u8 where "IB_OPCODE_RC_ATOMIC_ACKNOWLEDGE \<equiv> 0x12"
abbreviation (input) IB_OPCODE_RC_COMPARE_SWAP :: u8 where "IB_OPCODE_RC_COMPARE_SWAP \<equiv> 0x13"
abbreviation (input) IB_OPCODE_RC_FETCH_ADD :: u8 where "IB_OPCODE_RC_FETCH_ADD \<equiv> 0x14"
abbreviation (input) IB_OPCODE_RC_SEND_LAST_INV :: u8 where "IB_OPCODE_RC_SEND_LAST_INV \<equiv> 0x16"
abbreviation (input) IB_OPCODE_RC_SEND_ONLY_INV :: u8 where "IB_OPCODE_RC_SEND_ONLY_INV \<equiv> 0x17"
abbreviation (input) IB_OPCODE_UC_SEND_FIRST :: u8 where "IB_OPCODE_UC_SEND_FIRST \<equiv> 0x20"
abbreviation (input) IB_OPCODE_UC_SEND_MIDDLE :: u8 where "IB_OPCODE_UC_SEND_MIDDLE \<equiv> 0x21"
abbreviation (input) IB_OPCODE_UC_SEND_LAST :: u8 where "IB_OPCODE_UC_SEND_LAST \<equiv> 0x22"
abbreviation (input) IB_OPCODE_UC_SEND_LAST_WITH_IMMEDIATE :: u8 where "IB_OPCODE_UC_SEND_LAST_WITH_IMMEDIATE \<equiv> 0x23"
abbreviation (input) IB_OPCODE_UC_SEND_ONLY :: u8 where "IB_OPCODE_UC_SEND_ONLY \<equiv> 0x24"
abbreviation (input) IB_OPCODE_UC_SEND_ONLY_WITH_IMMEDIATE :: u8 where "IB_OPCODE_UC_SEND_ONLY_WITH_IMMEDIATE \<equiv> 0x25"
abbreviation (input) IB_OPCODE_UC_RDMA_WRITE_FIRST :: u8 where "IB_OPCODE_UC_RDMA_WRITE_FIRST \<equiv> 0x26"
abbreviation (input) IB_OPCODE_UC_RDMA_WRITE_MIDDLE :: u8 where "IB_OPCODE_UC_RDMA_WRITE_MIDDLE \<equiv> 0x27"
abbreviation (input) IB_OPCODE_UC_RDMA_WRITE_LAST :: u8 where "IB_OPCODE_UC_RDMA_WRITE_LAST \<equiv> 0x28"
abbreviation (input) IB_OPCODE_UC_RDMA_WRITE_LAST_WITH_IMMEDIATE :: u8 where "IB_OPCODE_UC_RDMA_WRITE_LAST_WITH_IMMEDIATE \<equiv> 0x29"
abbreviation (input) IB_OPCODE_UC_RDMA_WRITE_ONLY :: u8 where "IB_OPCODE_UC_RDMA_WRITE_ONLY \<equiv> 0x2a"
abbreviation (input) IB_OPCODE_UC_RDMA_WRITE_ONLY_WITH_IMMEDIATE :: u8 where "IB_OPCODE_UC_RDMA_WRITE_ONLY_WITH_IMMEDIATE \<equiv> 0x2b"
abbreviation (input) IB_OPCODE_RD_SEND_FIRST :: u8 where "IB_OPCODE_RD_SEND_FIRST \<equiv> 0x40"
abbreviation (input) IB_OPCODE_RD_SEND_MIDDLE :: u8 where "IB_OPCODE_RD_SEND_MIDDLE \<equiv> 0x41"
abbreviation (input) IB_OPCODE_RD_SEND_LAST :: u8 where "IB_OPCODE_RD_SEND_LAST \<equiv> 0x42"
abbreviation (input) IB_OPCODE_RD_SEND_LAST_WITH_IMMEDIATE :: u8 where "IB_OPCODE_RD_SEND_LAST_WITH_IMMEDIATE \<equiv> 0x43"
abbreviation (input) IB_OPCODE_RD_SEND_ONLY :: u8 where "IB_OPCODE_RD_SEND_ONLY \<equiv> 0x44"
abbreviation (input) IB_OPCODE_RD_SEND_ONLY_WITH_IMMEDIATE :: u8 where "IB_OPCODE_RD_SEND_ONLY_WITH_IMMEDIATE \<equiv> 0x45"
abbreviation (input) IB_OPCODE_RD_RDMA_WRITE_FIRST :: u8 where "IB_OPCODE_RD_RDMA_WRITE_FIRST \<equiv> 0x46"
abbreviation (input) IB_OPCODE_RD_RDMA_WRITE_MIDDLE :: u8 where "IB_OPCODE_RD_RDMA_WRITE_MIDDLE \<equiv> 0x47"
abbreviation (input) IB_OPCODE_RD_RDMA_WRITE_LAST :: u8 where "IB_OPCODE_RD_RDMA_WRITE_LAST \<equiv> 0x48"
abbreviation (input) IB_OPCODE_RD_RDMA_WRITE_LAST_WITH_IMMEDIATE :: u8 where "IB_OPCODE_RD_RDMA_WRITE_LAST_WITH_IMMEDIATE \<equiv> 0x49"
abbreviation (input) IB_OPCODE_RD_RDMA_WRITE_ONLY :: u8 where "IB_OPCODE_RD_RDMA_WRITE_ONLY \<equiv> 0x4a"
abbreviation (input) IB_OPCODE_RD_RDMA_WRITE_ONLY_WITH_IMMEDIATE :: u8 where "IB_OPCODE_RD_RDMA_WRITE_ONLY_WITH_IMMEDIATE \<equiv> 0x4b"
abbreviation (input) IB_OPCODE_RD_RDMA_READ_REQUEST :: u8 where "IB_OPCODE_RD_RDMA_READ_REQUEST \<equiv> 0x4c"
abbreviation (input) IB_OPCODE_RD_RDMA_READ_RESPONSE_FIRST :: u8 where "IB_OPCODE_RD_RDMA_READ_RESPONSE_FIRST \<equiv> 0x4d"
abbreviation (input) IB_OPCODE_RD_RDMA_READ_RESPONSE_MIDDLE :: u8 where "IB_OPCODE_RD_RDMA_READ_RESPONSE_MIDDLE \<equiv> 0x4e"
abbreviation (input) IB_OPCODE_RD_RDMA_READ_RESPONSE_LAST :: u8 where "IB_OPCODE_RD_RDMA_READ_RESPONSE_LAST \<equiv> 0x4f"
abbreviation (input) IB_OPCODE_RD_RDMA_READ_RESPONSE_ONLY :: u8 where "IB_OPCODE_RD_RDMA_READ_RESPONSE_ONLY \<equiv> 0x50"
abbreviation (input) IB_OPCODE_RD_ACKNOWLEDGE :: u8 where "IB_OPCODE_RD_ACKNOWLEDGE \<equiv> 0x51"
abbreviation (input) IB_OPCODE_RD_ATOMIC_ACKNOWLEDGE :: u8 where "IB_OPCODE_RD_ATOMIC_ACKNOWLEDGE \<equiv> 0x52"
abbreviation (input) IB_OPCODE_RD_COMPARE_SWAP :: u8 where "IB_OPCODE_RD_COMPARE_SWAP \<equiv> 0x53"
abbreviation (input) IB_OPCODE_RD_FETCH_ADD :: u8 where "IB_OPCODE_RD_FETCH_ADD \<equiv> 0x54"
abbreviation (input) IB_OPCODE_RD_RESYNC :: u8 where "IB_OPCODE_RD_RESYNC \<equiv> 0x55"
abbreviation (input) IB_OPCODE_UD_SEND_ONLY :: u8 where "IB_OPCODE_UD_SEND_ONLY \<equiv> 0x64"
abbreviation (input) IB_OPCODE_UD_SEND_ONLY_WITH_IMMEDIATE :: u8 where "IB_OPCODE_UD_SEND_ONLY_WITH_IMMEDIATE \<equiv> 0x65"
abbreviation (input) IB_OPCODE_CN_CNP :: u8 where "IB_OPCODE_CN_CNP \<equiv> 0x80"

abbreviation (input) IB_WR_RDMA_WRITE :: u32 where "IB_WR_RDMA_WRITE \<equiv> 0"
abbreviation (input) IB_WR_RDMA_WRITE_WITH_IMM :: u32 where "IB_WR_RDMA_WRITE_WITH_IMM \<equiv> 1"
abbreviation (input) IB_WR_SEND :: u32 where "IB_WR_SEND \<equiv> 2"
abbreviation (input) IB_WR_SEND_WITH_IMM :: u32 where "IB_WR_SEND_WITH_IMM \<equiv> 3"
abbreviation (input) IB_WR_RDMA_READ :: u32 where "IB_WR_RDMA_READ \<equiv> 4"
abbreviation (input) IB_WR_ATOMIC_CMP_AND_SWP :: u32 where "IB_WR_ATOMIC_CMP_AND_SWP \<equiv> 5"
abbreviation (input) IB_WR_ATOMIC_FETCH_AND_ADD :: u32 where "IB_WR_ATOMIC_FETCH_AND_ADD \<equiv> 6"
abbreviation (input) IB_WR_LSO :: u32 where "IB_WR_LSO \<equiv> 7"
abbreviation (input) IB_WR_SEND_WITH_INV :: u32 where "IB_WR_SEND_WITH_INV \<equiv> 8"
abbreviation (input) IB_WR_RDMA_READ_WITH_INV :: u32 where "IB_WR_RDMA_READ_WITH_INV \<equiv> 9"
abbreviation (input) IB_WR_LOCAL_INV :: u32 where "IB_WR_LOCAL_INV \<equiv> 10"
abbreviation (input) IB_WR_FAST_REG_MR :: u32 where "IB_WR_FAST_REG_MR \<equiv> 11"


subsection \<open>The tables (rxe_opcode.c)\<close>

definition rxe_wr_opcode_info_table :: "(u32 \<times> rxe_wr_opcode_info) list" where
  "rxe_wr_opcode_info_table = [
    (IB_WR_RDMA_WRITE, \<lparr>wi_name = ''IB_WR_RDMA_WRITE'',
      wi_mask = init_array [(IB_QPT_RC, WR_INLINE_MASK OR WR_WRITE_MASK),
        (IB_QPT_UC, WR_INLINE_MASK OR WR_WRITE_MASK)]\<rparr>),
    (IB_WR_RDMA_WRITE_WITH_IMM, \<lparr>wi_name = ''IB_WR_RDMA_WRITE_WITH_IMM'',
      wi_mask = init_array [(IB_QPT_RC, WR_INLINE_MASK OR WR_WRITE_MASK),
        (IB_QPT_UC, WR_INLINE_MASK OR WR_WRITE_MASK)]\<rparr>),
    (IB_WR_SEND, \<lparr>wi_name = ''IB_WR_SEND'',
      wi_mask = init_array [(IB_QPT_SMI, WR_INLINE_MASK OR WR_SEND_MASK),
        (IB_QPT_GSI, WR_INLINE_MASK OR WR_SEND_MASK),
        (IB_QPT_RC, WR_INLINE_MASK OR WR_SEND_MASK),
        (IB_QPT_UC, WR_INLINE_MASK OR WR_SEND_MASK),
        (IB_QPT_UD, WR_INLINE_MASK OR WR_SEND_MASK)]\<rparr>),
    (IB_WR_SEND_WITH_IMM, \<lparr>wi_name = ''IB_WR_SEND_WITH_IMM'',
      wi_mask = init_array [(IB_QPT_SMI, WR_INLINE_MASK OR WR_SEND_MASK),
        (IB_QPT_GSI, WR_INLINE_MASK OR WR_SEND_MASK),
        (IB_QPT_RC, WR_INLINE_MASK OR WR_SEND_MASK),
        (IB_QPT_UC, WR_INLINE_MASK OR WR_SEND_MASK),
        (IB_QPT_UD, WR_INLINE_MASK OR WR_SEND_MASK)]\<rparr>),
    (IB_WR_RDMA_READ, \<lparr>wi_name = ''IB_WR_RDMA_READ'',
      wi_mask = init_array [(IB_QPT_RC, WR_READ_MASK)]\<rparr>),
    (IB_WR_ATOMIC_CMP_AND_SWP, \<lparr>wi_name = ''IB_WR_ATOMIC_CMP_AND_SWP'',
      wi_mask = init_array [(IB_QPT_RC, WR_ATOMIC_MASK)]\<rparr>),
    (IB_WR_ATOMIC_FETCH_AND_ADD, \<lparr>wi_name = ''IB_WR_ATOMIC_FETCH_AND_ADD'',
      wi_mask = init_array [(IB_QPT_RC, WR_ATOMIC_MASK)]\<rparr>),
    (IB_WR_LSO, \<lparr>wi_name = ''IB_WR_LSO'',
      wi_mask = init_array []\<rparr>),
    (IB_WR_SEND_WITH_INV, \<lparr>wi_name = ''IB_WR_SEND_WITH_INV'',
      wi_mask = init_array [(IB_QPT_RC, WR_INLINE_MASK OR WR_SEND_MASK),
        (IB_QPT_UC, WR_INLINE_MASK OR WR_SEND_MASK),
        (IB_QPT_UD, WR_INLINE_MASK OR WR_SEND_MASK)]\<rparr>),
    (IB_WR_RDMA_READ_WITH_INV, \<lparr>wi_name = ''IB_WR_RDMA_READ_WITH_INV'',
      wi_mask = init_array [(IB_QPT_RC, WR_READ_MASK OR WR_READ_MASK)]\<rparr>),
    (IB_WR_LOCAL_INV, \<lparr>wi_name = ''IB_WR_LOCAL_INV'',
      wi_mask = init_array []\<rparr>),
    (IB_WR_FAST_REG_MR, \<lparr>wi_name = ''IB_WR_FAST_REG_MR'',
      wi_mask = init_array []\<rparr>)]"

definition rxe_opcode_rc_send :: "(u8 \<times> rxe_opcode_info) list" where
  "rxe_opcode_rc_send = [
    (IB_OPCODE_RC_SEND_FIRST, \<lparr>oi_name = Some ''IB_OPCODE_RC_SEND_FIRST'',
      oi_mask = RXE_PAYLOAD_MASK OR RXE_REQ_MASK OR RXE_RWR_MASK OR RXE_SEND_MASK
        OR RXE_START_MASK,
      oi_length = RXE_BTH_BYTES,
      oi_offset = init_array [(RXE_BTH, 0),
        (RXE_PAYLOAD, RXE_BTH_BYTES)]\<rparr>),
    (IB_OPCODE_RC_SEND_MIDDLE, \<lparr>oi_name = Some ''IB_OPCODE_RC_SEND_MIDDLE]'',
      oi_mask = RXE_PAYLOAD_MASK OR RXE_REQ_MASK OR RXE_SEND_MASK OR RXE_MIDDLE_MASK,
      oi_length = RXE_BTH_BYTES,
      oi_offset = init_array [(RXE_BTH, 0),
        (RXE_PAYLOAD, RXE_BTH_BYTES)]\<rparr>),
    (IB_OPCODE_RC_SEND_LAST, \<lparr>oi_name = Some ''IB_OPCODE_RC_SEND_LAST'',
      oi_mask = RXE_PAYLOAD_MASK OR RXE_REQ_MASK OR RXE_COMP_MASK OR RXE_SEND_MASK
        OR RXE_END_MASK,
      oi_length = RXE_BTH_BYTES,
      oi_offset = init_array [(RXE_BTH, 0),
        (RXE_PAYLOAD, RXE_BTH_BYTES)]\<rparr>),
    (IB_OPCODE_RC_SEND_LAST_WITH_IMMEDIATE, \<lparr>oi_name = Some ''IB_OPCODE_RC_SEND_LAST_WITH_IMMEDIATE'',
      oi_mask = RXE_IMMDT_MASK OR RXE_PAYLOAD_MASK OR RXE_REQ_MASK OR RXE_COMP_MASK
        OR RXE_SEND_MASK OR RXE_END_MASK,
      oi_length = RXE_BTH_BYTES + RXE_IMMDT_BYTES,
      oi_offset = init_array [(RXE_BTH, 0),
        (RXE_IMMDT, RXE_BTH_BYTES),
        (RXE_PAYLOAD, RXE_BTH_BYTES + RXE_IMMDT_BYTES)]\<rparr>),
    (IB_OPCODE_RC_SEND_ONLY, \<lparr>oi_name = Some ''IB_OPCODE_RC_SEND_ONLY'',
      oi_mask = RXE_PAYLOAD_MASK OR RXE_REQ_MASK OR RXE_COMP_MASK OR RXE_RWR_MASK
        OR RXE_SEND_MASK OR RXE_START_MASK OR RXE_END_MASK,
      oi_length = RXE_BTH_BYTES,
      oi_offset = init_array [(RXE_BTH, 0),
        (RXE_PAYLOAD, RXE_BTH_BYTES)]\<rparr>),
    (IB_OPCODE_RC_SEND_ONLY_WITH_IMMEDIATE, \<lparr>oi_name = Some ''IB_OPCODE_RC_SEND_ONLY_WITH_IMMEDIATE'',
      oi_mask = RXE_IMMDT_MASK OR RXE_PAYLOAD_MASK OR RXE_REQ_MASK OR RXE_COMP_MASK
        OR RXE_RWR_MASK OR RXE_SEND_MASK OR RXE_START_MASK OR RXE_END_MASK,
      oi_length = RXE_BTH_BYTES + RXE_IMMDT_BYTES,
      oi_offset = init_array [(RXE_BTH, 0),
        (RXE_IMMDT, RXE_BTH_BYTES),
        (RXE_PAYLOAD, RXE_BTH_BYTES + RXE_IMMDT_BYTES)]\<rparr>)]"

definition rxe_opcode_rc_write :: "(u8 \<times> rxe_opcode_info) list" where
  "rxe_opcode_rc_write = [
    (IB_OPCODE_RC_RDMA_WRITE_FIRST, \<lparr>oi_name = Some ''IB_OPCODE_RC_RDMA_WRITE_FIRST'',
      oi_mask = RXE_RETH_MASK OR RXE_PAYLOAD_MASK OR RXE_REQ_MASK OR RXE_WRITE_MASK
        OR RXE_START_MASK,
      oi_length = RXE_BTH_BYTES + RXE_RETH_BYTES,
      oi_offset = init_array [(RXE_BTH, 0),
        (RXE_RETH, RXE_BTH_BYTES),
        (RXE_PAYLOAD, RXE_BTH_BYTES + RXE_RETH_BYTES)]\<rparr>),
    (IB_OPCODE_RC_RDMA_WRITE_MIDDLE, \<lparr>oi_name = Some ''IB_OPCODE_RC_RDMA_WRITE_MIDDLE'',
      oi_mask = RXE_PAYLOAD_MASK OR RXE_REQ_MASK OR RXE_WRITE_MASK OR RXE_MIDDLE_MASK,
      oi_length = RXE_BTH_BYTES,
      oi_offset = init_array [(RXE_BTH, 0),
        (RXE_PAYLOAD, RXE_BTH_BYTES)]\<rparr>),
    (IB_OPCODE_RC_RDMA_WRITE_LAST, \<lparr>oi_name = Some ''IB_OPCODE_RC_RDMA_WRITE_LAST'',
      oi_mask = RXE_PAYLOAD_MASK OR RXE_REQ_MASK OR RXE_WRITE_MASK OR RXE_END_MASK,
      oi_length = RXE_BTH_BYTES,
      oi_offset = init_array [(RXE_BTH, 0),
        (RXE_PAYLOAD, RXE_BTH_BYTES)]\<rparr>),
    (IB_OPCODE_RC_RDMA_WRITE_LAST_WITH_IMMEDIATE, \<lparr>oi_name = Some ''IB_OPCODE_RC_RDMA_WRITE_LAST_WITH_IMMEDIATE'',
      oi_mask = RXE_IMMDT_MASK OR RXE_PAYLOAD_MASK OR RXE_REQ_MASK OR RXE_WRITE_MASK
        OR RXE_COMP_MASK OR RXE_RWR_MASK OR RXE_END_MASK,
      oi_length = RXE_BTH_BYTES + RXE_IMMDT_BYTES,
      oi_offset = init_array [(RXE_BTH, 0),
        (RXE_IMMDT, RXE_BTH_BYTES),
        (RXE_PAYLOAD, RXE_BTH_BYTES + RXE_IMMDT_BYTES)]\<rparr>),
    (IB_OPCODE_RC_RDMA_WRITE_ONLY, \<lparr>oi_name = Some ''IB_OPCODE_RC_RDMA_WRITE_ONLY'',
      oi_mask = RXE_RETH_MASK OR RXE_PAYLOAD_MASK OR RXE_REQ_MASK OR RXE_WRITE_MASK
        OR RXE_START_MASK OR RXE_END_MASK,
      oi_length = RXE_BTH_BYTES + RXE_RETH_BYTES,
      oi_offset = init_array [(RXE_BTH, 0),
        (RXE_RETH, RXE_BTH_BYTES),
        (RXE_PAYLOAD, RXE_BTH_BYTES + RXE_RETH_BYTES)]\<rparr>),
    (IB_OPCODE_RC_RDMA_WRITE_ONLY_WITH_IMMEDIATE, \<lparr>oi_name = Some ''IB_OPCODE_RC_RDMA_WRITE_ONLY_WITH_IMMEDIATE'',
      oi_mask = RXE_RETH_MASK OR RXE_IMMDT_MASK OR RXE_PAYLOAD_MASK OR RXE_REQ_MASK
        OR RXE_WRITE_MASK OR RXE_COMP_MASK OR RXE_RWR_MASK OR RXE_START_MASK
        OR RXE_END_MASK,
      oi_length = RXE_BTH_BYTES + RXE_IMMDT_BYTES + RXE_RETH_BYTES,
      oi_offset = init_array [(RXE_BTH, 0),
        (RXE_RETH, RXE_BTH_BYTES),
        (RXE_IMMDT, RXE_BTH_BYTES + RXE_RETH_BYTES),
        (RXE_PAYLOAD, RXE_BTH_BYTES + RXE_RETH_BYTES + RXE_IMMDT_BYTES)]\<rparr>)]"

definition rxe_opcode_rc_other :: "(u8 \<times> rxe_opcode_info) list" where
  "rxe_opcode_rc_other = [
    (IB_OPCODE_RC_RDMA_READ_REQUEST, \<lparr>oi_name = Some ''IB_OPCODE_RC_RDMA_READ_REQUEST'',
      oi_mask = RXE_RETH_MASK OR RXE_REQ_MASK OR RXE_READ_MASK OR RXE_START_MASK OR RXE_END_MASK,
      oi_length = RXE_BTH_BYTES + RXE_RETH_BYTES,
      oi_offset = init_array [(RXE_BTH, 0),
        (RXE_RETH, RXE_BTH_BYTES),
        (RXE_PAYLOAD, RXE_BTH_BYTES + RXE_RETH_BYTES)]\<rparr>),
    (IB_OPCODE_RC_RDMA_READ_RESPONSE_FIRST, \<lparr>oi_name = Some ''IB_OPCODE_RC_RDMA_READ_RESPONSE_FIRST'',
      oi_mask = RXE_AETH_MASK OR RXE_PAYLOAD_MASK OR RXE_ACK_MASK OR RXE_START_MASK,
      oi_length = RXE_BTH_BYTES + RXE_AETH_BYTES,
      oi_offset = init_array [(RXE_BTH, 0),
        (RXE_AETH, RXE_BTH_BYTES),
        (RXE_PAYLOAD, RXE_BTH_BYTES + RXE_AETH_BYTES)]\<rparr>),
    (IB_OPCODE_RC_RDMA_READ_RESPONSE_MIDDLE, \<lparr>oi_name = Some ''IB_OPCODE_RC_RDMA_READ_RESPONSE_MIDDLE'',
      oi_mask = RXE_PAYLOAD_MASK OR RXE_ACK_MASK OR RXE_MIDDLE_MASK,
      oi_length = RXE_BTH_BYTES,
      oi_offset = init_array [(RXE_BTH, 0),
        (RXE_PAYLOAD, RXE_BTH_BYTES)]\<rparr>),
    (IB_OPCODE_RC_RDMA_READ_RESPONSE_LAST, \<lparr>oi_name = Some ''IB_OPCODE_RC_RDMA_READ_RESPONSE_LAST'',
      oi_mask = RXE_AETH_MASK OR RXE_PAYLOAD_MASK OR RXE_ACK_MASK OR RXE_END_MASK,
      oi_length = RXE_BTH_BYTES + RXE_AETH_BYTES,
      oi_offset = init_array [(RXE_BTH, 0),
        (RXE_AETH, RXE_BTH_BYTES),
        (RXE_PAYLOAD, RXE_BTH_BYTES + RXE_AETH_BYTES)]\<rparr>),
    (IB_OPCODE_RC_RDMA_READ_RESPONSE_ONLY, \<lparr>oi_name = Some ''IB_OPCODE_RC_RDMA_READ_RESPONSE_ONLY'',
      oi_mask = RXE_AETH_MASK OR RXE_PAYLOAD_MASK OR RXE_ACK_MASK OR RXE_START_MASK
        OR RXE_END_MASK,
      oi_length = RXE_BTH_BYTES + RXE_AETH_BYTES,
      oi_offset = init_array [(RXE_BTH, 0),
        (RXE_AETH, RXE_BTH_BYTES),
        (RXE_PAYLOAD, RXE_BTH_BYTES + RXE_AETH_BYTES)]\<rparr>),
    (IB_OPCODE_RC_ACKNOWLEDGE, \<lparr>oi_name = Some ''IB_OPCODE_RC_ACKNOWLEDGE'',
      oi_mask = RXE_AETH_MASK OR RXE_ACK_MASK OR RXE_START_MASK OR RXE_END_MASK,
      oi_length = RXE_BTH_BYTES + RXE_AETH_BYTES,
      oi_offset = init_array [(RXE_BTH, 0),
        (RXE_AETH, RXE_BTH_BYTES),
        (RXE_PAYLOAD, RXE_BTH_BYTES + RXE_AETH_BYTES)]\<rparr>),
    (IB_OPCODE_RC_ATOMIC_ACKNOWLEDGE, \<lparr>oi_name = Some ''IB_OPCODE_RC_ATOMIC_ACKNOWLEDGE'',
      oi_mask = RXE_AETH_MASK OR RXE_ATMACK_MASK OR RXE_ACK_MASK OR RXE_START_MASK
        OR RXE_END_MASK,
      oi_length = RXE_BTH_BYTES + RXE_ATMACK_BYTES + RXE_AETH_BYTES,
      oi_offset = init_array [(RXE_BTH, 0),
        (RXE_AETH, RXE_BTH_BYTES),
        (RXE_ATMACK, RXE_BTH_BYTES + RXE_AETH_BYTES),
        (RXE_PAYLOAD, RXE_BTH_BYTES + RXE_ATMACK_BYTES + RXE_AETH_BYTES)]\<rparr>),
    (IB_OPCODE_RC_COMPARE_SWAP, \<lparr>oi_name = Some ''IB_OPCODE_RC_COMPARE_SWAP'',
      oi_mask = RXE_ATMETH_MASK OR RXE_REQ_MASK OR RXE_ATOMIC_MASK OR RXE_START_MASK
        OR RXE_END_MASK,
      oi_length = RXE_BTH_BYTES + RXE_ATMETH_BYTES,
      oi_offset = init_array [(RXE_BTH, 0),
        (RXE_ATMETH, RXE_BTH_BYTES),
        (RXE_PAYLOAD, RXE_BTH_BYTES + RXE_ATMETH_BYTES)]\<rparr>),
    (IB_OPCODE_RC_FETCH_ADD, \<lparr>oi_name = Some ''IB_OPCODE_RC_FETCH_ADD'',
      oi_mask = RXE_ATMETH_MASK OR RXE_REQ_MASK OR RXE_ATOMIC_MASK OR RXE_START_MASK
        OR RXE_END_MASK,
      oi_length = RXE_BTH_BYTES + RXE_ATMETH_BYTES,
      oi_offset = init_array [(RXE_BTH, 0),
        (RXE_ATMETH, RXE_BTH_BYTES),
        (RXE_PAYLOAD, RXE_BTH_BYTES + RXE_ATMETH_BYTES)]\<rparr>),
    (IB_OPCODE_RC_SEND_LAST_INV, \<lparr>oi_name = Some ''IB_OPCODE_RC_SEND_LAST_INV'',
      oi_mask = RXE_IETH_MASK OR RXE_PAYLOAD_MASK OR RXE_REQ_MASK OR RXE_COMP_MASK
        OR RXE_SEND_MASK OR RXE_END_MASK,
      oi_length = RXE_BTH_BYTES + RXE_IETH_BYTES,
      oi_offset = init_array [(RXE_BTH, 0),
        (RXE_IETH, RXE_BTH_BYTES),
        (RXE_PAYLOAD, RXE_BTH_BYTES + RXE_IETH_BYTES)]\<rparr>),
    (IB_OPCODE_RC_SEND_ONLY_INV, \<lparr>oi_name = Some ''IB_OPCODE_RC_SEND_ONLY_INV'',
      oi_mask = RXE_IETH_MASK OR RXE_PAYLOAD_MASK OR RXE_REQ_MASK OR RXE_COMP_MASK
        OR RXE_RWR_MASK OR RXE_SEND_MASK OR RXE_END_MASK,
      oi_length = RXE_BTH_BYTES + RXE_IETH_BYTES,
      oi_offset = init_array [(RXE_BTH, 0),
        (RXE_IETH, RXE_BTH_BYTES),
        (RXE_PAYLOAD, RXE_BTH_BYTES + RXE_IETH_BYTES)]\<rparr>)]"

definition rxe_opcode_uc :: "(u8 \<times> rxe_opcode_info) list" where
  "rxe_opcode_uc = [
    (IB_OPCODE_UC_SEND_FIRST, \<lparr>oi_name = Some ''IB_OPCODE_UC_SEND_FIRST'',
      oi_mask = RXE_PAYLOAD_MASK OR RXE_REQ_MASK OR RXE_RWR_MASK OR RXE_SEND_MASK
        OR RXE_START_MASK,
      oi_length = RXE_BTH_BYTES,
      oi_offset = init_array [(RXE_BTH, 0),
        (RXE_PAYLOAD, RXE_BTH_BYTES)]\<rparr>),
    (IB_OPCODE_UC_SEND_MIDDLE, \<lparr>oi_name = Some ''IB_OPCODE_UC_SEND_MIDDLE'',
      oi_mask = RXE_PAYLOAD_MASK OR RXE_REQ_MASK OR RXE_SEND_MASK OR RXE_MIDDLE_MASK,
      oi_length = RXE_BTH_BYTES,
      oi_offset = init_array [(RXE_BTH, 0),
        (RXE_PAYLOAD, RXE_BTH_BYTES)]\<rparr>),
    (IB_OPCODE_UC_SEND_LAST, \<lparr>oi_name = Some ''IB_OPCODE_UC_SEND_LAST'',
      oi_mask = RXE_PAYLOAD_MASK OR RXE_REQ_MASK OR RXE_COMP_MASK OR RXE_SEND_MASK
        OR RXE_END_MASK,
      oi_length = RXE_BTH_BYTES,
      oi_offset = init_array [(RXE_BTH, 0),
        (RXE_PAYLOAD, RXE_BTH_BYTES)]\<rparr>),
    (IB_OPCODE_UC_SEND_LAST_WITH_IMMEDIATE, \<lparr>oi_name = Some ''IB_OPCODE_UC_SEND_LAST_WITH_IMMEDIATE'',
      oi_mask = RXE_IMMDT_MASK OR RXE_PAYLOAD_MASK OR RXE_REQ_MASK OR RXE_COMP_MASK
        OR RXE_SEND_MASK OR RXE_END_MASK,
      oi_length = RXE_BTH_BYTES + RXE_IMMDT_BYTES,
      oi_offset = init_array [(RXE_BTH, 0),
        (RXE_IMMDT, RXE_BTH_BYTES),
        (RXE_PAYLOAD, RXE_BTH_BYTES + RXE_IMMDT_BYTES)]\<rparr>),
    (IB_OPCODE_UC_SEND_ONLY, \<lparr>oi_name = Some ''IB_OPCODE_UC_SEND_ONLY'',
      oi_mask = RXE_PAYLOAD_MASK OR RXE_REQ_MASK OR RXE_COMP_MASK OR RXE_RWR_MASK
        OR RXE_SEND_MASK OR RXE_START_MASK OR RXE_END_MASK,
      oi_length = RXE_BTH_BYTES,
      oi_offset = init_array [(RXE_BTH, 0),
        (RXE_PAYLOAD, RXE_BTH_BYTES)]\<rparr>),
    (IB_OPCODE_UC_SEND_ONLY_WITH_IMMEDIATE, \<lparr>oi_name = Some ''IB_OPCODE_UC_SEND_ONLY_WITH_IMMEDIATE'',
      oi_mask = RXE_IMMDT_MASK OR RXE_PAYLOAD_MASK OR RXE_REQ_MASK OR RXE_COMP_MASK
        OR RXE_RWR_MASK OR RXE_SEND_MASK OR RXE_START_MASK OR RXE_END_MASK,
      oi_length = RXE_BTH_BYTES + RXE_IMMDT_BYTES,
      oi_offset = init_array [(RXE_BTH, 0),
        (RXE_IMMDT, RXE_BTH_BYTES),
        (RXE_PAYLOAD, RXE_BTH_BYTES + RXE_IMMDT_BYTES)]\<rparr>),
    (IB_OPCODE_UC_RDMA_WRITE_FIRST, \<lparr>oi_name = Some ''IB_OPCODE_UC_RDMA_WRITE_FIRST'',
      oi_mask = RXE_RETH_MASK OR RXE_PAYLOAD_MASK OR RXE_REQ_MASK OR RXE_WRITE_MASK
        OR RXE_START_MASK,
      oi_length = RXE_BTH_BYTES + RXE_RETH_BYTES,
      oi_offset = init_array [(RXE_BTH, 0),
        (RXE_RETH, RXE_BTH_BYTES),
        (RXE_PAYLOAD, RXE_BTH_BYTES + RXE_RETH_BYTES)]\<rparr>),
    (IB_OPCODE_UC_RDMA_WRITE_MIDDLE, \<lparr>oi_name = Some ''IB_OPCODE_UC_RDMA_WRITE_MIDDLE'',
      oi_mask = RXE_PAYLOAD_MASK OR RXE_REQ_MASK OR RXE_WRITE_MASK OR RXE_MIDDLE_MASK,
      oi_length = RXE_BTH_BYTES,
      oi_offset = init_array [(RXE_BTH, 0),
        (RXE_PAYLOAD, RXE_BTH_BYTES)]\<rparr>),
    (IB_OPCODE_UC_RDMA_WRITE_LAST, \<lparr>oi_name = Some ''IB_OPCODE_UC_RDMA_WRITE_LAST'',
      oi_mask = RXE_PAYLOAD_MASK OR RXE_REQ_MASK OR RXE_WRITE_MASK OR RXE_END_MASK,
      oi_length = RXE_BTH_BYTES,
      oi_offset = init_array [(RXE_BTH, 0),
        (RXE_PAYLOAD, RXE_BTH_BYTES)]\<rparr>),
    (IB_OPCODE_UC_RDMA_WRITE_LAST_WITH_IMMEDIATE, \<lparr>oi_name = Some ''IB_OPCODE_UC_RDMA_WRITE_LAST_WITH_IMMEDIATE'',
      oi_mask = RXE_IMMDT_MASK OR RXE_PAYLOAD_MASK OR RXE_REQ_MASK OR RXE_WRITE_MASK
        OR RXE_COMP_MASK OR RXE_RWR_MASK OR RXE_END_MASK,
      oi_length = RXE_BTH_BYTES + RXE_IMMDT_BYTES,
      oi_offset = init_array [(RXE_BTH, 0),
        (RXE_IMMDT, RXE_BTH_BYTES),
        (RXE_PAYLOAD, RXE_BTH_BYTES + RXE_IMMDT_BYTES)]\<rparr>),
    (IB_OPCODE_UC_RDMA_WRITE_ONLY, \<lparr>oi_name = Some ''IB_OPCODE_UC_RDMA_WRITE_ONLY'',
      oi_mask = RXE_RETH_MASK OR RXE_PAYLOAD_MASK OR RXE_REQ_MASK OR RXE_WRITE_MASK
        OR RXE_START_MASK OR RXE_END_MASK,
      oi_length = RXE_BTH_BYTES + RXE_RETH_BYTES,
      oi_offset = init_array [(RXE_BTH, 0),
        (RXE_RETH, RXE_BTH_BYTES),
        (RXE_PAYLOAD, RXE_BTH_BYTES + RXE_RETH_BYTES)]\<rparr>),
    (IB_OPCODE_UC_RDMA_WRITE_ONLY_WITH_IMMEDIATE, \<lparr>oi_name = Some ''IB_OPCODE_UC_RDMA_WRITE_ONLY_WITH_IMMEDIATE'',
      oi_mask = RXE_RETH_MASK OR RXE_IMMDT_MASK OR RXE_PAYLOAD_MASK OR RXE_REQ_MASK
        OR RXE_WRITE_MASK OR RXE_COMP_MASK OR RXE_RWR_MASK OR RXE_START_MASK
        OR RXE_END_MASK,
      oi_length = RXE_BTH_BYTES + RXE_IMMDT_BYTES + RXE_RETH_BYTES,
      oi_offset = init_array [(RXE_BTH, 0),
        (RXE_RETH, RXE_BTH_BYTES),
        (RXE_IMMDT, RXE_BTH_BYTES + RXE_RETH_BYTES),
        (RXE_PAYLOAD, RXE_BTH_BYTES + RXE_RETH_BYTES + RXE_IMMDT_BYTES)]\<rparr>)]"

definition rxe_opcode_rd_send :: "(u8 \<times> rxe_opcode_info) list" where
  "rxe_opcode_rd_send = [
    (IB_OPCODE_RD_SEND_FIRST, \<lparr>oi_name = Some ''IB_OPCODE_RD_SEND_FIRST'',
      oi_mask = RXE_RDETH_MASK OR RXE_DETH_MASK OR RXE_PAYLOAD_MASK OR RXE_REQ_MASK
        OR RXE_RWR_MASK OR RXE_SEND_MASK OR RXE_START_MASK,
      oi_length = RXE_BTH_BYTES + RXE_DETH_BYTES + RXE_RDETH_BYTES,
      oi_offset = init_array [(RXE_BTH, 0),
        (RXE_RDETH, RXE_BTH_BYTES),
        (RXE_DETH, RXE_BTH_BYTES + RXE_RDETH_BYTES),
        (RXE_PAYLOAD, RXE_BTH_BYTES + RXE_RDETH_BYTES + RXE_DETH_BYTES)]\<rparr>),
    (IB_OPCODE_RD_SEND_MIDDLE, \<lparr>oi_name = Some ''IB_OPCODE_RD_SEND_MIDDLE'',
      oi_mask = RXE_RDETH_MASK OR RXE_DETH_MASK OR RXE_PAYLOAD_MASK OR RXE_REQ_MASK
        OR RXE_SEND_MASK OR RXE_MIDDLE_MASK,
      oi_length = RXE_BTH_BYTES + RXE_DETH_BYTES + RXE_RDETH_BYTES,
      oi_offset = init_array [(RXE_BTH, 0),
        (RXE_RDETH, RXE_BTH_BYTES),
        (RXE_DETH, RXE_BTH_BYTES + RXE_RDETH_BYTES),
        (RXE_PAYLOAD, RXE_BTH_BYTES + RXE_RDETH_BYTES + RXE_DETH_BYTES)]\<rparr>),
    (IB_OPCODE_RD_SEND_LAST, \<lparr>oi_name = Some ''IB_OPCODE_RD_SEND_LAST'',
      oi_mask = RXE_RDETH_MASK OR RXE_DETH_MASK OR RXE_PAYLOAD_MASK OR RXE_REQ_MASK
        OR RXE_COMP_MASK OR RXE_SEND_MASK OR RXE_END_MASK,
      oi_length = RXE_BTH_BYTES + RXE_DETH_BYTES + RXE_RDETH_BYTES,
      oi_offset = init_array [(RXE_BTH, 0),
        (RXE_RDETH, RXE_BTH_BYTES),
        (RXE_DETH, RXE_BTH_BYTES + RXE_RDETH_BYTES),
        (RXE_PAYLOAD, RXE_BTH_BYTES + RXE_RDETH_BYTES + RXE_DETH_BYTES)]\<rparr>),
    (IB_OPCODE_RD_SEND_LAST_WITH_IMMEDIATE, \<lparr>oi_name = Some ''IB_OPCODE_RD_SEND_LAST_WITH_IMMEDIATE'',
      oi_mask = RXE_RDETH_MASK OR RXE_DETH_MASK OR RXE_IMMDT_MASK OR RXE_PAYLOAD_MASK
        OR RXE_REQ_MASK OR RXE_COMP_MASK OR RXE_SEND_MASK OR RXE_END_MASK,
      oi_length = RXE_BTH_BYTES + RXE_IMMDT_BYTES + RXE_DETH_BYTES + RXE_RDETH_BYTES,
      oi_offset = init_array [(RXE_BTH, 0),
        (RXE_RDETH, RXE_BTH_BYTES),
        (RXE_DETH, RXE_BTH_BYTES + RXE_RDETH_BYTES),
        (RXE_IMMDT, RXE_BTH_BYTES + RXE_RDETH_BYTES + RXE_DETH_BYTES),
        (RXE_PAYLOAD, RXE_BTH_BYTES + RXE_RDETH_BYTES + RXE_DETH_BYTES + RXE_IMMDT_BYTES)]\<rparr>),
    (IB_OPCODE_RD_SEND_ONLY, \<lparr>oi_name = Some ''IB_OPCODE_RD_SEND_ONLY'',
      oi_mask = RXE_RDETH_MASK OR RXE_DETH_MASK OR RXE_PAYLOAD_MASK OR RXE_REQ_MASK
        OR RXE_COMP_MASK OR RXE_RWR_MASK OR RXE_SEND_MASK OR RXE_START_MASK
        OR RXE_END_MASK,
      oi_length = RXE_BTH_BYTES + RXE_DETH_BYTES + RXE_RDETH_BYTES,
      oi_offset = init_array [(RXE_BTH, 0),
        (RXE_RDETH, RXE_BTH_BYTES),
        (RXE_DETH, RXE_BTH_BYTES + RXE_RDETH_BYTES),
        (RXE_PAYLOAD, RXE_BTH_BYTES + RXE_RDETH_BYTES + RXE_DETH_BYTES)]\<rparr>),
    (IB_OPCODE_RD_SEND_ONLY_WITH_IMMEDIATE, \<lparr>oi_name = Some ''IB_OPCODE_RD_SEND_ONLY_WITH_IMMEDIATE'',
      oi_mask = RXE_RDETH_MASK OR RXE_DETH_MASK OR RXE_IMMDT_MASK OR RXE_PAYLOAD_MASK
        OR RXE_REQ_MASK OR RXE_COMP_MASK OR RXE_RWR_MASK OR RXE_SEND_MASK
        OR RXE_START_MASK OR RXE_END_MASK,
      oi_length = RXE_BTH_BYTES + RXE_IMMDT_BYTES + RXE_DETH_BYTES + RXE_RDETH_BYTES,
      oi_offset = init_array [(RXE_BTH, 0),
        (RXE_RDETH, RXE_BTH_BYTES),
        (RXE_DETH, RXE_BTH_BYTES + RXE_RDETH_BYTES),
        (RXE_IMMDT, RXE_BTH_BYTES + RXE_RDETH_BYTES + RXE_DETH_BYTES),
        (RXE_PAYLOAD, RXE_BTH_BYTES + RXE_RDETH_BYTES + RXE_DETH_BYTES + RXE_IMMDT_BYTES)]\<rparr>)]"

definition rxe_opcode_rd_write :: "(u8 \<times> rxe_opcode_info) list" where
  "rxe_opcode_rd_write = [
    (IB_OPCODE_RD_RDMA_WRITE_FIRST, \<lparr>oi_name = Some ''IB_OPCODE_RD_RDMA_WRITE_FIRST'',
      oi_mask = RXE_RDETH_MASK OR RXE_DETH_MASK OR RXE_RETH_MASK OR RXE_PAYLOAD_MASK
        OR RXE_REQ_MASK OR RXE_WRITE_MASK OR RXE_START_MASK,
      oi_length = RXE_BTH_BYTES + RXE_RETH_BYTES + RXE_DETH_BYTES + RXE_RDETH_BYTES,
      oi_offset = init_array [(RXE_BTH, 0),
        (RXE_RDETH, RXE_BTH_BYTES),
        (RXE_DETH, RXE_BTH_BYTES + RXE_RDETH_BYTES),
        (RXE_RETH, RXE_BTH_BYTES + RXE_RDETH_BYTES + RXE_DETH_BYTES),
        (RXE_PAYLOAD, RXE_BTH_BYTES + RXE_RDETH_BYTES + RXE_DETH_BYTES + RXE_RETH_BYTES)]\<rparr>),
    (IB_OPCODE_RD_RDMA_WRITE_MIDDLE, \<lparr>oi_name = Some ''IB_OPCODE_RD_RDMA_WRITE_MIDDLE'',
      oi_mask = RXE_RDETH_MASK OR RXE_DETH_MASK OR RXE_PAYLOAD_MASK OR RXE_REQ_MASK
        OR RXE_WRITE_MASK OR RXE_MIDDLE_MASK,
      oi_length = RXE_BTH_BYTES + RXE_DETH_BYTES + RXE_RDETH_BYTES,
      oi_offset = init_array [(RXE_BTH, 0),
        (RXE_RDETH, RXE_BTH_BYTES),
        (RXE_DETH, RXE_BTH_BYTES + RXE_RDETH_BYTES),
        (RXE_PAYLOAD, RXE_BTH_BYTES + RXE_RDETH_BYTES + RXE_DETH_BYTES)]\<rparr>),
    (IB_OPCODE_RD_RDMA_WRITE_LAST, \<lparr>oi_name = Some ''IB_OPCODE_RD_RDMA_WRITE_LAST'',
      oi_mask = RXE_RDETH_MASK OR RXE_DETH_MASK OR RXE_PAYLOAD_MASK OR RXE_REQ_MASK
        OR RXE_WRITE_MASK OR RXE_END_MASK,
      oi_length = RXE_BTH_BYTES + RXE_DETH_BYTES + RXE_RDETH_BYTES,
      oi_offset = init_array [(RXE_BTH, 0),
        (RXE_RDETH, RXE_BTH_BYTES),
        (RXE_DETH, RXE_BTH_BYTES + RXE_RDETH_BYTES),
        (RXE_PAYLOAD, RXE_BTH_BYTES + RXE_RDETH_BYTES + RXE_DETH_BYTES)]\<rparr>),
    (IB_OPCODE_RD_RDMA_WRITE_LAST_WITH_IMMEDIATE, \<lparr>oi_name = Some ''IB_OPCODE_RD_RDMA_WRITE_LAST_WITH_IMMEDIATE'',
      oi_mask = RXE_RDETH_MASK OR RXE_DETH_MASK OR RXE_IMMDT_MASK OR RXE_PAYLOAD_MASK
        OR RXE_REQ_MASK OR RXE_WRITE_MASK OR RXE_COMP_MASK OR RXE_RWR_MASK
        OR RXE_END_MASK,
      oi_length = RXE_BTH_BYTES + RXE_IMMDT_BYTES + RXE_DETH_BYTES + RXE_RDETH_BYTES,
      oi_offset = init_array [(RXE_BTH, 0),
        (RXE_RDETH, RXE_BTH_BYTES),
        (RXE_DETH, RXE_BTH_BYTES + RXE_RDETH_BYTES),
        (RXE_IMMDT, RXE_BTH_BYTES + RXE_RDETH_BYTES + RXE_DETH_BYTES),
        (RXE_PAYLOAD, RXE_BTH_BYTES + RXE_RDETH_BYTES + RXE_DETH_BYTES + RXE_IMMDT_BYTES)]\<rparr>),
    (IB_OPCODE_RD_RDMA_WRITE_ONLY, \<lparr>oi_name = Some ''IB_OPCODE_RD_RDMA_WRITE_ONLY'',
      oi_mask = RXE_RDETH_MASK OR RXE_DETH_MASK OR RXE_RETH_MASK OR RXE_PAYLOAD_MASK
        OR RXE_REQ_MASK OR RXE_WRITE_MASK OR RXE_START_MASK OR RXE_END_MASK,
      oi_length = RXE_BTH_BYTES + RXE_RETH_BYTES + RXE_DETH_BYTES + RXE_RDETH_BYTES,
      oi_offset = init_array [(RXE_BTH, 0),
        (RXE_RDETH, RXE_BTH_BYTES),
        (RXE_DETH, RXE_BTH_BYTES + RXE_RDETH_BYTES),
        (RXE_RETH, RXE_BTH_BYTES + RXE_RDETH_BYTES + RXE_DETH_BYTES),
        (RXE_PAYLOAD, RXE_BTH_BYTES + RXE_RDETH_BYTES + RXE_DETH_BYTES + RXE_RETH_BYTES)]\<rparr>),
    (IB_OPCODE_RD_RDMA_WRITE_ONLY_WITH_IMMEDIATE, \<lparr>oi_name = Some ''IB_OPCODE_RD_RDMA_WRITE_ONLY_WITH_IMMEDIATE'',
      oi_mask = RXE_RDETH_MASK OR RXE_DETH_MASK OR RXE_RETH_MASK OR RXE_IMMDT_MASK
        OR RXE_PAYLOAD_MASK OR RXE_REQ_MASK OR RXE_WRITE_MASK OR RXE_COMP_MASK
        OR RXE_RWR_MASK OR RXE_START_MASK OR RXE_END_MASK,
      oi_length = RXE_BTH_BYTES + RXE_IMMDT_BYTES + RXE_RETH_BYTES + RXE_DETH_BYTES + RXE_RDETH_BYTES,
      oi_offset = init_array [(RXE_BTH, 0),
        (RXE_RDETH, RXE_BTH_BYTES),
        (RXE_DETH, RXE_BTH_BYTES + RXE_RDETH_BYTES),
        (RXE_RETH, RXE_BTH_BYTES + RXE_RDETH_BYTES + RXE_DETH_BYTES),
        (RXE_IMMDT, RXE_BTH_BYTES + RXE_RDETH_BYTES + RXE_DETH_BYTES + RXE_RETH_BYTES),
        (RXE_PAYLOAD, RXE_BTH_BYTES + RXE_RDETH_BYTES + RXE_DETH_BYTES + RXE_RETH_BYTES + RXE_IMMDT_BYTES)]\<rparr>)]"

definition rxe_opcode_rd_read :: "(u8 \<times> rxe_opcode_info) list" where
  "rxe_opcode_rd_read = [
    (IB_OPCODE_RD_RDMA_READ_REQUEST, \<lparr>oi_name = Some ''IB_OPCODE_RD_RDMA_READ_REQUEST'',
      oi_mask = RXE_RDETH_MASK OR RXE_DETH_MASK OR RXE_RETH_MASK OR RXE_REQ_MASK
        OR RXE_READ_MASK OR RXE_START_MASK OR RXE_END_MASK,
      oi_length = RXE_BTH_BYTES + RXE_RETH_BYTES + RXE_DETH_BYTES + RXE_RDETH_BYTES,
      oi_offset = init_array [(RXE_BTH, 0),
        (RXE_RDETH, RXE_BTH_BYTES),
        (RXE_DETH, RXE_BTH_BYTES + RXE_RDETH_BYTES),
        (RXE_RETH, RXE_BTH_BYTES + RXE_RDETH_BYTES + RXE_DETH_BYTES),
        (RXE_PAYLOAD, RXE_BTH_BYTES + RXE_RETH_BYTES + RXE_DETH_BYTES + RXE_RDETH_BYTES)]\<rparr>),
    (IB_OPCODE_RD_RDMA_READ_RESPONSE_FIRST, \<lparr>oi_name = Some ''IB_OPCODE_RD_RDMA_READ_RESPONSE_FIRST'',
      oi_mask = RXE_RDETH_MASK OR RXE_AETH_MASK OR RXE_PAYLOAD_MASK OR RXE_ACK_MASK
        OR RXE_START_MASK,
      oi_length = RXE_BTH_BYTES + RXE_AETH_BYTES + RXE_RDETH_BYTES,
      oi_offset = init_array [(RXE_BTH, 0),
        (RXE_RDETH, RXE_BTH_BYTES),
        (RXE_AETH, RXE_BTH_BYTES + RXE_RDETH_BYTES),
        (RXE_PAYLOAD, RXE_BTH_BYTES + RXE_RDETH_BYTES + RXE_AETH_BYTES)]\<rparr>),
    (IB_OPCODE_RD_RDMA_READ_RESPONSE_MIDDLE, \<lparr>oi_name = Some ''IB_OPCODE_RD_RDMA_READ_RESPONSE_MIDDLE'',
      oi_mask = RXE_RDETH_MASK OR RXE_PAYLOAD_MASK OR RXE_ACK_MASK OR RXE_MIDDLE_MASK,
      oi_length = RXE_BTH_BYTES + RXE_RDETH_BYTES,
      oi_offset = init_array [(RXE_BTH, 0),
        (RXE_RDETH, RXE_BTH_BYTES),
        (RXE_PAYLOAD, RXE_BTH_BYTES + RXE_RDETH_BYTES)]\<rparr>),
    (IB_OPCODE_RD_RDMA_READ_RESPONSE_LAST, \<lparr>oi_name = Some ''IB_OPCODE_RD_RDMA_READ_RESPONSE_LAST'',
      oi_mask = RXE_RDETH_MASK OR RXE_AETH_MASK OR RXE_PAYLOAD_MASK OR RXE_ACK_MASK
        OR RXE_END_MASK,
      oi_length = RXE_BTH_BYTES + RXE_AETH_BYTES + RXE_RDETH_BYTES,
      oi_offset = init_array [(RXE_BTH, 0),
        (RXE_RDETH, RXE_BTH_BYTES),
        (RXE_AETH, RXE_BTH_BYTES + RXE_RDETH_BYTES),
        (RXE_PAYLOAD, RXE_BTH_BYTES + RXE_RDETH_BYTES + RXE_AETH_BYTES)]\<rparr>),
    (IB_OPCODE_RD_RDMA_READ_RESPONSE_ONLY, \<lparr>oi_name = Some ''IB_OPCODE_RD_RDMA_READ_RESPONSE_ONLY'',
      oi_mask = RXE_RDETH_MASK OR RXE_AETH_MASK OR RXE_PAYLOAD_MASK OR RXE_ACK_MASK
        OR RXE_START_MASK OR RXE_END_MASK,
      oi_length = RXE_BTH_BYTES + RXE_AETH_BYTES + RXE_RDETH_BYTES,
      oi_offset = init_array [(RXE_BTH, 0),
        (RXE_RDETH, RXE_BTH_BYTES),
        (RXE_AETH, RXE_BTH_BYTES + RXE_RDETH_BYTES),
        (RXE_PAYLOAD, RXE_BTH_BYTES + RXE_RDETH_BYTES + RXE_AETH_BYTES)]\<rparr>)]"

definition rxe_opcode_rd_other :: "(u8 \<times> rxe_opcode_info) list" where
  "rxe_opcode_rd_other = [
    (IB_OPCODE_RD_ACKNOWLEDGE, \<lparr>oi_name = Some ''IB_OPCODE_RD_ACKNOWLEDGE'',
      oi_mask = RXE_RDETH_MASK OR RXE_AETH_MASK OR RXE_ACK_MASK OR RXE_START_MASK
        OR RXE_END_MASK,
      oi_length = RXE_BTH_BYTES + RXE_AETH_BYTES + RXE_RDETH_BYTES,
      oi_offset = init_array [(RXE_BTH, 0),
        (RXE_RDETH, RXE_BTH_BYTES),
        (RXE_AETH, RXE_BTH_BYTES + RXE_RDETH_BYTES)]\<rparr>),
    (IB_OPCODE_RD_ATOMIC_ACKNOWLEDGE, \<lparr>oi_name = Some ''IB_OPCODE_RD_ATOMIC_ACKNOWLEDGE'',
      oi_mask = RXE_RDETH_MASK OR RXE_AETH_MASK OR RXE_ATMACK_MASK OR RXE_ACK_MASK
        OR RXE_START_MASK OR RXE_END_MASK,
      oi_length = RXE_BTH_BYTES + RXE_ATMACK_BYTES + RXE_AETH_BYTES + RXE_RDETH_BYTES,
      oi_offset = init_array [(RXE_BTH, 0),
        (RXE_RDETH, RXE_BTH_BYTES),
        (RXE_AETH, RXE_BTH_BYTES + RXE_RDETH_BYTES),
        (RXE_ATMACK, RXE_BTH_BYTES + RXE_RDETH_BYTES + RXE_AETH_BYTES)]\<rparr>),
    (IB_OPCODE_RD_COMPARE_SWAP, \<lparr>oi_name = Some ''RD_COMPARE_SWAP'',
      oi_mask = RXE_RDETH_MASK OR RXE_DETH_MASK OR RXE_ATMETH_MASK OR RXE_REQ_MASK
        OR RXE_ATOMIC_MASK OR RXE_START_MASK OR RXE_END_MASK,
      oi_length = RXE_BTH_BYTES + RXE_ATMETH_BYTES + RXE_DETH_BYTES + RXE_RDETH_BYTES,
      oi_offset = init_array [(RXE_BTH, 0),
        (RXE_RDETH, RXE_BTH_BYTES),
        (RXE_DETH, RXE_BTH_BYTES + RXE_RDETH_BYTES),
        (RXE_ATMETH, RXE_BTH_BYTES + RXE_RDETH_BYTES + RXE_DETH_BYTES),
        (RXE_PAYLOAD, RXE_BTH_BYTES + RXE_ATMETH_BYTES + RXE_DETH_BYTES + RXE_RDETH_BYTES)]\<rparr>),
    (IB_OPCODE_RD_FETCH_ADD, \<lparr>oi_name = Some ''IB_OPCODE_RD_FETCH_ADD'',
      oi_mask = RXE_RDETH_MASK OR RXE_DETH_MASK OR RXE_ATMETH_MASK OR RXE_REQ_MASK
        OR RXE_ATOMIC_MASK OR RXE_START_MASK OR RXE_END_MASK,
      oi_length = RXE_BTH_BYTES + RXE_ATMETH_BYTES + RXE_DETH_BYTES + RXE_RDETH_BYTES,
      oi_offset = init_array [(RXE_BTH, 0),
        (RXE_RDETH, RXE_BTH_BYTES),
        (RXE_DETH, RXE_BTH_BYTES + RXE_RDETH_BYTES),
        (RXE_ATMETH, RXE_BTH_BYTES + RXE_RDETH_BYTES + RXE_DETH_BYTES),
        (RXE_PAYLOAD, RXE_BTH_BYTES + RXE_ATMETH_BYTES + RXE_DETH_BYTES + RXE_RDETH_BYTES)]\<rparr>),
    (IB_OPCODE_RD_RESYNC, \<lparr>oi_name = Some ''RD_RESYNC'',
      oi_mask = RXE_RDETH_MASK OR RXE_DETH_MASK OR RXE_REQ_MASK OR RXE_START_MASK
        OR RXE_END_MASK,
      oi_length = RXE_BTH_BYTES + RXE_DETH_BYTES + RXE_RDETH_BYTES,
      oi_offset = init_array [(RXE_BTH, 0),
        (RXE_RDETH, RXE_BTH_BYTES),
        (RXE_DETH, RXE_BTH_BYTES + RXE_RDETH_BYTES)]\<rparr>)]"

definition rxe_opcode_ud_cn :: "(u8 \<times> rxe_opcode_info) list" where
  "rxe_opcode_ud_cn = [
    (IB_OPCODE_UD_SEND_ONLY, \<lparr>oi_name = Some ''IB_OPCODE_UD_SEND_ONLY'',
      oi_mask = RXE_DETH_MASK OR RXE_PAYLOAD_MASK OR RXE_REQ_MASK OR RXE_COMP_MASK
        OR RXE_RWR_MASK OR RXE_SEND_MASK OR RXE_START_MASK OR RXE_END_MASK,
      oi_length = RXE_BTH_BYTES + RXE_DETH_BYTES,
      oi_offset = init_array [(RXE_BTH, 0),
        (RXE_DETH, RXE_BTH_BYTES),
        (RXE_PAYLOAD, RXE_BTH_BYTES + RXE_DETH_BYTES)]\<rparr>),
    (IB_OPCODE_UD_SEND_ONLY_WITH_IMMEDIATE, \<lparr>oi_name = Some ''IB_OPCODE_UD_SEND_ONLY_WITH_IMMEDIATE'',
      oi_mask = RXE_DETH_MASK OR RXE_IMMDT_MASK OR RXE_PAYLOAD_MASK OR RXE_REQ_MASK
        OR RXE_COMP_MASK OR RXE_RWR_MASK OR RXE_SEND_MASK OR RXE_START_MASK
        OR RXE_END_MASK,
      oi_length = RXE_BTH_BYTES + RXE_IMMDT_BYTES + RXE_DETH_BYTES,
      oi_offset = init_array [(RXE_BTH, 0),
        (RXE_DETH, RXE_BTH_BYTES),
        (RXE_IMMDT, RXE_BTH_BYTES + RXE_DETH_BYTES),
        (RXE_PAYLOAD, RXE_BTH_BYTES + RXE_DETH_BYTES + RXE_IMMDT_BYTES)]\<rparr>),
    (IB_OPCODE_CN_CNP, \<lparr>oi_name = Some ''IB_OPCODE_CN_CNP'',
      oi_mask = RXE_CNP_MASK,
      oi_length = RXE_BTH_BYTES,
      oi_offset = init_array [(RXE_BTH, 0)]\<rparr>)]"

definition rxe_opcode_table :: "(u8 \<times> rxe_opcode_info) list" where
  "rxe_opcode_table = rxe_opcode_rc_send @ rxe_opcode_rc_write @ rxe_opcode_rc_other
     @ rxe_opcode_uc @ rxe_opcode_rd_send @ rxe_opcode_rd_write @ rxe_opcode_rd_read
     @ rxe_opcode_rd_other @ rxe_opcode_ud_cn"

definition rxe_opcode :: "u8 \<Rightarrow> rxe_opcode_info" where
  "rxe_opcode c = (case map_of rxe_opcode_table c of Some i \<Rightarrow> i
     | None \<Rightarrow> \<lparr>oi_name = None, oi_mask = 0, oi_length = 0, oi_offset = (\<lambda>_. 0)\<rparr>)"

subsection \<open>Header layout\<close>

fun hdr_bytes :: "rxe_hdr_type \<Rightarrow> int" where
  "hdr_bytes RXE_LRH = RXE_LRH_BYTES"
| "hdr_bytes RXE_GRH = RXE_GRH_BYTES"
| "hdr_bytes RXE_BTH = RXE_BTH_BYTES"
| "hdr_bytes RXE_RETH = RXE_RETH_BYTES"
| "hdr_bytes RXE_AETH = RXE_AETH_BYTES"
| "hdr_bytes RXE_ATMETH = RXE_ATMETH_BYTES"
| "hdr_bytes RXE_ATMACK = RXE_ATMACK_BYTES"
| "hdr_bytes RXE_IETH = RXE_IETH_BYTES"
| "hdr_bytes RXE_RDETH = RXE_RDETH_BYTES"
| "hdr_bytes RXE_DETH = RXE_DETH_BYTES"
| "hdr_bytes RXE_IMMDT = RXE_IMMDT_BYTES"
| "hdr_bytes RXE_PAYLOAD = 0"

fun hdr_mask :: "rxe_hdr_type \<Rightarrow> u32" where
  "hdr_mask RXE_LRH = RXE_LRH_MASK"
| "hdr_mask RXE_GRH = RXE_GRH_MASK"
| "hdr_mask RXE_BTH = RXE_BTH_MASK"
| "hdr_mask RXE_RETH = RXE_RETH_MASK"
| "hdr_mask RXE_AETH = RXE_AETH_MASK"
| "hdr_mask RXE_ATMETH = RXE_ATMETH_MASK"
| "hdr_mask RXE_ATMACK = RXE_ATMACK_MASK"
| "hdr_mask RXE_IETH = RXE_IETH_MASK"
| "hdr_mask RXE_RDETH = RXE_RDETH_MASK"
| "hdr_mask RXE_DETH = RXE_DETH_MASK"
| "hdr_mask RXE_IMMDT = RXE_IMMDT_MASK"
| "hdr_mask RXE_PAYLOAD = RXE_PAYLOAD_MASK"

text \<open>The extension headers an opcode's mask announces.\<close>

definition ext_hdrs :: "u32 \<Rightarrow> rxe_hdr_type list" where
  "ext_hdrs m = filter (\<lambda>h. m AND hdr_mask h \<noteq> 0)
     [RXE_RETH, RXE_AETH, RXE_ATMETH, RXE_ATMACK, RXE_IETH, RXE_RDETH, RXE_DETH, RXE_IMMDT]"

definition hdr_apart :: "rxe_opcode_info \<Rightarrow> rxe_hdr_type \<Rightarrow> rxe_hdr_type \<Rightarrow> bool" where
  "hdr_apart i g h \<longleftrightarrow> g = h
     \<or> oi_offset i g + hdr_bytes g \<le> oi_offset i h \<or> oi_offset i h + hdr_bytes h \<le> oi_offset i g"

text \<open>The announced headers lie behind the base header, do not overlap, and fill the
  header bytes of the opcode exactly.\<close>

definition hdrs_tile :: "rxe_opcode_info \<Rightarrow> bool" where
  "hdrs_tile i \<longleftrightarrow> oi_offset i RXE_BTH = 0
     \<and> RXE_BTH_BYTES + sum_list (map hdr_bytes (ext_hdrs (oi_mask i))) = oi_length i
     \<and> list_all (\<lambda>h. RXE_BTH_BYTES \<le> oi_offset i h \<and> oi_offset i h + hdr_bytes h \<le> oi_length i)
          (ext_hdrs (oi_mask i))
     \<and> list_all (\<lambda>g. list_all (hdr_apart i g) (ext_hdrs (oi_mask i))) (ext_hdrs (oi_mask i))"

lemma opcode_table_tiles: "list_all (\<lambda>(c, i). hdrs_tile i) rxe_opcode_table"
  by code_simp

lemma opcode_table_lengths: "list_all (\<lambda>(c, i). RXE_BTH_BYTES \<le> oi_length i) rxe_opcode_table"
  by code_simp

lemma opcode_table_distinct: "distinct (map fst rxe_opcode_table)"
  by code_simp

text \<open>The opcodes that carry no payload and whose table entry has no payload offset.\<close>

definition no_payload_offset :: "u8 list" where
  "no_payload_offset = [IB_OPCODE_RD_ACKNOWLEDGE, IB_OPCODE_RD_ATOMIC_ACKNOWLEDGE,
     IB_OPCODE_RD_RESYNC, IB_OPCODE_CN_CNP]"

lemma opcode_table_payload:
  "list_all (\<lambda>(c, i). (if c \<in> set no_payload_offset
       then oi_offset i RXE_PAYLOAD = 0 \<and> oi_mask i AND RXE_PAYLOAD_MASK = 0
       else oi_offset i RXE_PAYLOAD = oi_length i)) rxe_opcode_table"
  by code_simp

lemma rxe_opcode_in_table:
  "oi_name (rxe_opcode c) \<noteq> None \<Longrightarrow> (c, rxe_opcode c) \<in> set rxe_opcode_table"
  by (cases "map_of rxe_opcode_table c") (auto simp: rxe_opcode_def dest: map_of_SomeD)

text \<open>
  C27: the opcode table is consistent. For every opcode that has an entry, the extension headers
  its mask announces lie behind the 12-byte base header, do not overlap, and add up to the
  entry's header length; and the payload offset is that length, except for the four opcodes
  without payload, where it is zero.
\<close>

theorem opcode_table_layout:
  "oi_name (rxe_opcode c) = None \<or>
     hdrs_tile (rxe_opcode c) \<and>
     (if c \<in> set no_payload_offset
      then oi_offset (rxe_opcode c) RXE_PAYLOAD = 0 \<and> oi_mask (rxe_opcode c) AND RXE_PAYLOAD_MASK = 0
      else oi_offset (rxe_opcode c) RXE_PAYLOAD = oi_length (rxe_opcode c))"
proof (cases "oi_name (rxe_opcode c)")
  case (Some n)
  then have "(c, rxe_opcode c) \<in> set rxe_opcode_table" by (simp add: rxe_opcode_in_table)
  with opcode_table_tiles opcode_table_payload show ?thesis by (fastforce simp: list_all_iff)
qed simp

end
