(* ===== verification/Rxe_Hdr.thy ===== *)
theory Rxe_Hdr
  imports Rxe_Bytes Rxe_Opcode
begin

text \<open>
  The packet headers of \<open>rxe_hdr.h\<close>. For each header there are accessors at a pointer,
  \<open>bth_psn_at\<close> for the source's \<open>__bth_psn\<close>, which work on a buffer and an
  offset, and accessors of a packet, \<open>bth_psn\<close>, which find the header through the
  packet's bth offset and the opcode table. A field of a structure is a load or a store at its
  offset in the structure; the byte order conversions are written as the source has them.
\<close>

text \<open>\<open>struct rxe_pkt_info\<close>; \<open>pkt_hdr\<close> holds the bytes from the \<open>hdr\<close> pointer
  on. The owning device and queue pair are passed beside the packet.\<close>

record rxe_pkt_info =
  pkt_hdr :: bytes
  pkt_mask :: u32
  pkt_psn :: u32
  pkt_pkey_index :: u16
  pkt_paylen :: u16
  pkt_port_num :: u8
  pkt_opcode :: u8
  pkt_offset :: u8

abbreviation (input) RXE_ICRC_SIZE :: int where "RXE_ICRC_SIZE \<equiv> 4"
abbreviation (input) RXE_MAX_HDR_LENGTH :: int where "RXE_MAX_HDR_LENGTH \<equiv> 80"

text \<open>Where a packet's base header, global route header and extension headers are.\<close>

definition bth_ptr :: "rxe_pkt_info \<Rightarrow> int" where
  "bth_ptr pkt = uint (pkt_offset pkt)"

definition grh_ptr :: "rxe_pkt_info \<Rightarrow> int" where
  "grh_ptr pkt = uint (pkt_offset pkt) - RXE_GRH_BYTES"

definition hdr_ptr :: "rxe_hdr_type \<Rightarrow> rxe_pkt_info \<Rightarrow> int" where
  "hdr_ptr h pkt = uint (pkt_offset pkt) + oi_offset (rxe_opcode (pkt_opcode pkt)) h"

subsection \<open>Local route header\<close>

text \<open>\<open>struct rxe_lrh\<close>: vlver at 0, slnh at 1, dlid at 2, length at 4, slid at 6.\<close>

abbreviation (input) LRH_VL_MASK :: u8 where "LRH_VL_MASK \<equiv> 0xf0"
abbreviation (input) LRH_LVER_MASK :: u8 where "LRH_LVER_MASK \<equiv> 0x0f"
abbreviation (input) LRH_SL_MASK :: u8 where "LRH_SL_MASK \<equiv> 0xf0"
abbreviation (input) LRH_LNH_MASK :: u8 where "LRH_LNH_MASK \<equiv> 0x03"
abbreviation (input) LRH_LENGTH_MASK :: u16 where "LRH_LENGTH_MASK \<equiv> 0x07ff"
abbreviation (input) LRH_LNH_IBA_LOC :: u8 where "LRH_LNH_IBA_LOC \<equiv> 2"
abbreviation (input) LRH_LNH_IBA_GBL :: u8 where "LRH_LNH_IBA_GBL \<equiv> 3"

definition lrh_vl_at :: "bytes \<Rightarrow> int \<Rightarrow> u8" where
  "lrh_vl_at m p = drop_bit 4 (load8 m p)"

definition lrh_set_vl_at :: "bytes \<Rightarrow> int \<Rightarrow> u8 \<Rightarrow> bytes" where
  "lrh_set_vl_at m p vl = store8 m p (push_bit 4 vl OR (NOT LRH_VL_MASK AND load8 m p))"

definition lrh_lver_at :: "bytes \<Rightarrow> int \<Rightarrow> u8" where
  "lrh_lver_at m p = load8 m p AND LRH_LVER_MASK"

definition lrh_set_lver_at :: "bytes \<Rightarrow> int \<Rightarrow> u8 \<Rightarrow> bytes" where
  "lrh_set_lver_at m p lver = store8 m p ((lver AND LRH_LVER_MASK) OR (NOT LRH_LVER_MASK AND load8 m p))"

definition lrh_sl_at :: "bytes \<Rightarrow> int \<Rightarrow> u8" where
  "lrh_sl_at m p = drop_bit 4 (load8 m (p + 1))"

definition lrh_set_sl_at :: "bytes \<Rightarrow> int \<Rightarrow> u8 \<Rightarrow> bytes" where
  "lrh_set_sl_at m p sl = store8 m (p + 1) (push_bit 4 sl OR (NOT LRH_SL_MASK AND load8 m (p + 1)))"

definition lrh_lnh_at :: "bytes \<Rightarrow> int \<Rightarrow> u8" where
  "lrh_lnh_at m p = load8 m (p + 1) AND LRH_LNH_MASK"

definition lrh_set_lnh_at :: "bytes \<Rightarrow> int \<Rightarrow> u8 \<Rightarrow> bytes" where
  "lrh_set_lnh_at m p lnh = store8 m (p + 1) ((lnh AND LRH_LNH_MASK) OR (NOT LRH_LNH_MASK AND load8 m (p + 1)))"

text \<open>The three 16-bit fields are returned through \<open>u8\<close>.\<close>

definition lrh_dlid_at :: "bytes \<Rightarrow> int \<Rightarrow> u8" where
  "lrh_dlid_at m p = ucast (be16_to_cpu (load16 m (p + 2)))"

definition lrh_set_dlid_at :: "bytes \<Rightarrow> int \<Rightarrow> u16 \<Rightarrow> bytes" where
  "lrh_set_dlid_at m p dlid = store16 m (p + 2) (cpu_to_be16 dlid)"

definition lrh_length_at :: "bytes \<Rightarrow> int \<Rightarrow> u8" where
  "lrh_length_at m p = ucast (be16_to_cpu (load16 m (p + 4)) AND LRH_LENGTH_MASK)"

definition lrh_set_length_at :: "bytes \<Rightarrow> int \<Rightarrow> u16 \<Rightarrow> bytes" where
  "lrh_set_length_at m p len = 
     store16 m (p + 4) (cpu_to_be16 ((len AND LRH_LENGTH_MASK)
       OR (NOT LRH_LENGTH_MASK AND be16_to_cpu (load16 m (p + 4)))))"

definition lrh_slid_at :: "bytes \<Rightarrow> int \<Rightarrow> u8" where
  "lrh_slid_at m p = ucast (be16_to_cpu (load16 m (p + 6)))"

definition lrh_set_slid_at :: "bytes \<Rightarrow> int \<Rightarrow> u16 \<Rightarrow> bytes" where
  "lrh_set_slid_at m p slid = store16 m (p + 6) (cpu_to_be16 slid)"

definition lrh_init :: "rxe_pkt_info \<Rightarrow> u8 \<Rightarrow> u8 \<Rightarrow> u8 \<Rightarrow> u16 \<Rightarrow> u16 \<Rightarrow> u16 \<Rightarrow> rxe_pkt_info" where
  "lrh_init pkt vl sl lnh len dlid slid = 
     (let m = pkt_hdr pkt;
          m = store8 m 0 (push_bit 4 vl);
          m = store8 m 1 (push_bit 4 sl OR (lnh AND LRH_LNH_MASK));
          m = store16 m 4 (cpu_to_be16 (len AND LRH_LENGTH_MASK));
          m = store16 m 2 (cpu_to_be16 dlid);
          m = store16 m 6 (cpu_to_be16 slid)
      in pkt\<lparr>pkt_hdr := m\<rparr>)"

subsection \<open>Global route header\<close>

text \<open>\<open>struct rxe_grh\<close>: vflow at 0, paylen at 4, next_hdr at 6, hop_limit at 7, sgid at 8,
  dgid at 24; a gid is two big-endian 64-bit words that are copied unchanged.\<close>

abbreviation (input) GRH_IPV6 :: u32 where "GRH_IPV6 \<equiv> 6"
abbreviation (input) GRH_RXE_NEXT_HDR :: u8 where "GRH_RXE_NEXT_HDR \<equiv> 0x1b"
abbreviation (input) GRH_IPVER_MASK :: u32 where "GRH_IPVER_MASK \<equiv> 0xf0000000"
abbreviation (input) GRH_TCLASS_MASK :: u32 where "GRH_TCLASS_MASK \<equiv> 0x0ff00000"
abbreviation (input) GRH_FLOW_MASK :: u32 where "GRH_FLOW_MASK \<equiv> 0x000fffff"

definition grh_ipver_at :: "bytes \<Rightarrow> int \<Rightarrow> u8" where
  "grh_ipver_at m p = ucast (drop_bit 28 (GRH_IPVER_MASK AND be32_to_cpu (load32 m p)))"

definition grh_set_ipver_at :: "bytes \<Rightarrow> int \<Rightarrow> u8 \<Rightarrow> bytes" where
  "grh_set_ipver_at m p ipver = store32 m p (cpu_to_be32 ((GRH_IPVER_MASK AND push_bit 28 (ucast ipver))
     OR (NOT GRH_IPVER_MASK AND be32_to_cpu (load32 m p))))"

definition grh_tclass_at :: "bytes \<Rightarrow> int \<Rightarrow> u8" where
  "grh_tclass_at m p = ucast (drop_bit 20 (GRH_TCLASS_MASK AND be32_to_cpu (load32 m p)))"

definition grh_set_tclass_at :: "bytes \<Rightarrow> int \<Rightarrow> u8 \<Rightarrow> bytes" where
  "grh_set_tclass_at m p tclass = store32 m p (cpu_to_be32 ((GRH_TCLASS_MASK AND push_bit 20 (ucast tclass))
     OR (NOT GRH_TCLASS_MASK AND be32_to_cpu (load32 m p))))"

definition grh_flow_at :: "bytes \<Rightarrow> int \<Rightarrow> u32" where
  "grh_flow_at m p = GRH_FLOW_MASK AND be32_to_cpu (load32 m p)"

definition grh_set_flow_at :: "bytes \<Rightarrow> int \<Rightarrow> u32 \<Rightarrow> bytes" where
  "grh_set_flow_at m p flow = store32 m p (cpu_to_be32 ((GRH_FLOW_MASK AND flow)
     OR (NOT GRH_FLOW_MASK AND be32_to_cpu (load32 m p))))"

definition grh_set_vflow_at :: "bytes \<Rightarrow> int \<Rightarrow> u8 \<Rightarrow> u32 \<Rightarrow> bytes" where
  "grh_set_vflow_at m p tclass flow = 
     store32 m p (cpu_to_be32 (push_bit 28 GRH_IPV6 OR push_bit 20 (ucast tclass)
       OR (flow AND GRH_FLOW_MASK)))"

definition grh_paylen_at :: "bytes \<Rightarrow> int \<Rightarrow> u16" where
  "grh_paylen_at m p = be16_to_cpu (load16 m (p + 4))"

definition grh_set_paylen_at :: "bytes \<Rightarrow> int \<Rightarrow> u16 \<Rightarrow> bytes" where
  "grh_set_paylen_at m p paylen = store16 m (p + 4) (cpu_to_be16 paylen)"

definition grh_next_hdr_at :: "bytes \<Rightarrow> int \<Rightarrow> u8" where
  "grh_next_hdr_at m p = load8 m (p + 6)"

definition grh_set_next_hdr_at :: "bytes \<Rightarrow> int \<Rightarrow> u8 \<Rightarrow> bytes" where
  "grh_set_next_hdr_at m p next_hdr = store8 m (p + 6) next_hdr"

definition grh_hop_limit_at :: "bytes \<Rightarrow> int \<Rightarrow> u8" where
  "grh_hop_limit_at m p = load8 m (p + 7)"

definition grh_set_hop_limit_at :: "bytes \<Rightarrow> int \<Rightarrow> u8 \<Rightarrow> bytes" where
  "grh_set_hop_limit_at m p hop_limit = store8 m (p + 7) hop_limit"

type_synonym ib_gid = "u64 \<times> u64"

definition grh_sgid_at :: "bytes \<Rightarrow> int \<Rightarrow> ib_gid" where
  "grh_sgid_at m p = (load64 m (p + 8), load64 m (p + 16))"

definition grh_set_sgid_at :: "bytes \<Rightarrow> int \<Rightarrow> u64 \<Rightarrow> u64 \<Rightarrow> bytes" where
  "grh_set_sgid_at m p prefix guid = 
     store64 (store64 m (p + 8) prefix) (p + 16) guid"

definition grh_dgid_at :: "bytes \<Rightarrow> int \<Rightarrow> ib_gid" where
  "grh_dgid_at m p = (load64 m (p + 24), load64 m (p + 32))"

definition grh_set_dgid_at :: "bytes \<Rightarrow> int \<Rightarrow> u64 \<Rightarrow> u64 \<Rightarrow> bytes" where
  "grh_set_dgid_at m p prefix guid = 
     store64 (store64 m (p + 24) prefix) (p + 32) guid"

text \<open>The packet accessors of the version field start at \<open>hdr\<close> itself, the others 40
  bytes before the base header.\<close>

definition grh_ipver :: "rxe_pkt_info \<Rightarrow> u8" where
  "grh_ipver pkt = grh_ipver_at (pkt_hdr pkt) 0"

definition grh_set_ipver :: "rxe_pkt_info \<Rightarrow> u8 \<Rightarrow> rxe_pkt_info" where
  "grh_set_ipver pkt ipver = 
     pkt\<lparr>pkt_hdr := grh_set_ipver_at (pkt_hdr pkt) 0 ipver\<rparr>"

definition grh_tclass :: "rxe_pkt_info \<Rightarrow> u8" where
  "grh_tclass pkt = grh_tclass_at (pkt_hdr pkt) (grh_ptr pkt)"

definition grh_set_tclass :: "rxe_pkt_info \<Rightarrow> u8 \<Rightarrow> rxe_pkt_info" where
  "grh_set_tclass pkt tclass = 
     pkt\<lparr>pkt_hdr := grh_set_tclass_at (pkt_hdr pkt) (grh_ptr pkt) tclass\<rparr>"

definition grh_flow :: "rxe_pkt_info \<Rightarrow> u32" where
  "grh_flow pkt = grh_flow_at (pkt_hdr pkt) (grh_ptr pkt)"

definition grh_set_flow :: "rxe_pkt_info \<Rightarrow> u32 \<Rightarrow> rxe_pkt_info" where
  "grh_set_flow pkt flow = 
     pkt\<lparr>pkt_hdr := grh_set_flow_at (pkt_hdr pkt) (grh_ptr pkt) flow\<rparr>"

definition grh_paylen :: "rxe_pkt_info \<Rightarrow> u16" where
  "grh_paylen pkt = grh_paylen_at (pkt_hdr pkt) (grh_ptr pkt)"

definition grh_set_paylen :: "rxe_pkt_info \<Rightarrow> u16 \<Rightarrow> rxe_pkt_info" where
  "grh_set_paylen pkt paylen = 
     pkt\<lparr>pkt_hdr := grh_set_paylen_at (pkt_hdr pkt) (grh_ptr pkt) paylen\<rparr>"

definition grh_next_hdr :: "rxe_pkt_info \<Rightarrow> u8" where
  "grh_next_hdr pkt = grh_next_hdr_at (pkt_hdr pkt) (grh_ptr pkt)"

definition grh_set_next_hdr :: "rxe_pkt_info \<Rightarrow> u8 \<Rightarrow> rxe_pkt_info" where
  "grh_set_next_hdr pkt next_hdr = 
     pkt\<lparr>pkt_hdr := grh_set_next_hdr_at (pkt_hdr pkt) (grh_ptr pkt) next_hdr\<rparr>"

definition grh_hop_limit :: "rxe_pkt_info \<Rightarrow> u8" where
  "grh_hop_limit pkt = grh_hop_limit_at (pkt_hdr pkt) (grh_ptr pkt)"

definition grh_set_hop_limit :: "rxe_pkt_info \<Rightarrow> u8 \<Rightarrow> rxe_pkt_info" where
  "grh_set_hop_limit pkt hop_limit = 
     pkt\<lparr>pkt_hdr := grh_set_hop_limit_at (pkt_hdr pkt) (grh_ptr pkt) hop_limit\<rparr>"

definition grh_sgid :: "rxe_pkt_info \<Rightarrow> ib_gid" where
  "grh_sgid pkt = grh_sgid_at (pkt_hdr pkt) (grh_ptr pkt)"

definition grh_set_sgid :: "rxe_pkt_info \<Rightarrow> u64 \<Rightarrow> u64 \<Rightarrow> rxe_pkt_info" where
  "grh_set_sgid pkt prefix guid = 
     pkt\<lparr>pkt_hdr := grh_set_sgid_at (pkt_hdr pkt) (grh_ptr pkt) prefix guid\<rparr>"

definition grh_dgid :: "rxe_pkt_info \<Rightarrow> ib_gid" where
  "grh_dgid pkt = grh_dgid_at (pkt_hdr pkt) (grh_ptr pkt)"

definition grh_set_dgid :: "rxe_pkt_info \<Rightarrow> u64 \<Rightarrow> u64 \<Rightarrow> rxe_pkt_info" where
  "grh_set_dgid pkt prefix guid = 
     pkt\<lparr>pkt_hdr := grh_set_dgid_at (pkt_hdr pkt) (grh_ptr pkt) prefix guid\<rparr>"

text \<open>\<open>grh_init\<close> casts before it adds, so the offset counts whole headers.\<close>

definition grh_init :: "rxe_pkt_info \<Rightarrow> u8 \<Rightarrow> u32 \<Rightarrow> u16 \<Rightarrow> u8 \<Rightarrow> rxe_pkt_info" where
  "grh_init pkt tclass flow paylen hop_limit = 
     (let p = RXE_GRH_BYTES * uint (pkt_offset pkt) - RXE_GRH_BYTES * RXE_GRH_BYTES;
          m = pkt_hdr pkt;
          m = store32 m p (cpu_to_be32 (push_bit 28 GRH_IPV6 OR push_bit 20 (ucast tclass)
                OR (flow AND GRH_FLOW_MASK)));
          m = store16 m (p + 4) (cpu_to_be16 paylen);
          m = store8 m (p + 6) GRH_RXE_NEXT_HDR;
          m = store8 m (p + 7) hop_limit
      in pkt\<lparr>pkt_hdr := m\<rparr>)"

subsection \<open>Base transport header\<close>

text \<open>\<open>struct rxe_bth\<close>: opcode at 0, flags at 1, pkey at 2, qpn at 4, apsn at 8.\<close>

abbreviation (input) BTH_SE_MASK :: u8 where "BTH_SE_MASK \<equiv> 0x80"
abbreviation (input) BTH_MIG_MASK :: u8 where "BTH_MIG_MASK \<equiv> 0x40"
abbreviation (input) BTH_PAD_MASK :: u8 where "BTH_PAD_MASK \<equiv> 0x30"
abbreviation (input) BTH_TVER_MASK :: u8 where "BTH_TVER_MASK \<equiv> 0x0f"
abbreviation (input) BTH_FECN_MASK :: u32 where "BTH_FECN_MASK \<equiv> 0x80000000"
abbreviation (input) BTH_BECN_MASK :: u32 where "BTH_BECN_MASK \<equiv> 0x40000000"
abbreviation (input) BTH_RESV6A_MASK :: u32 where "BTH_RESV6A_MASK \<equiv> 0x3f000000"
abbreviation (input) BTH_QPN_MASK :: u32 where "BTH_QPN_MASK \<equiv> 0x00ffffff"
abbreviation (input) BTH_ACK_MASK :: u32 where "BTH_ACK_MASK \<equiv> 0x80000000"
abbreviation (input) BTH_RESV7_MASK :: u32 where "BTH_RESV7_MASK \<equiv> 0x7f000000"
abbreviation (input) BTH_PSN_MASK :: u32 where "BTH_PSN_MASK \<equiv> 0x00ffffff"
abbreviation (input) BTH_TVER :: u8 where "BTH_TVER \<equiv> 0"
abbreviation (input) BTH_DEF_PKEY :: u16 where "BTH_DEF_PKEY \<equiv> 0xffff"

definition bth_opcode_at :: "bytes \<Rightarrow> int \<Rightarrow> u8" where
  "bth_opcode_at m p = load8 m p"

definition bth_set_opcode_at :: "bytes \<Rightarrow> int \<Rightarrow> u8 \<Rightarrow> bytes" where
  "bth_set_opcode_at m p opcode = store8 m p opcode"

definition bth_se_at :: "bytes \<Rightarrow> int \<Rightarrow> u8" where
  "bth_se_at m p = (if BTH_SE_MASK AND load8 m (p + 1) \<noteq> 0 then 1 else 0)"

definition bth_set_se_at :: "bytes \<Rightarrow> int \<Rightarrow> int \<Rightarrow> bytes" where
  "bth_set_se_at m p se = 
     (if se \<noteq> 0 then store8 m (p + 1) (load8 m (p + 1) OR BTH_SE_MASK)
      else store8 m (p + 1) (load8 m (p + 1) AND NOT BTH_SE_MASK))"

definition bth_mig_at :: "bytes \<Rightarrow> int \<Rightarrow> u8" where
  "bth_mig_at m p = (if BTH_MIG_MASK AND load8 m (p + 1) \<noteq> 0 then 1 else 0)"

definition bth_set_mig_at :: "bytes \<Rightarrow> int \<Rightarrow> u8 \<Rightarrow> bytes" where
  "bth_set_mig_at m p mig = 
     (if mig \<noteq> 0 then store8 m (p + 1) (load8 m (p + 1) OR BTH_MIG_MASK)
      else store8 m (p + 1) (load8 m (p + 1) AND NOT BTH_MIG_MASK))"

definition bth_pad_at :: "bytes \<Rightarrow> int \<Rightarrow> u8" where
  "bth_pad_at m p = drop_bit 4 (BTH_PAD_MASK AND load8 m (p + 1))"

definition bth_set_pad_at :: "bytes \<Rightarrow> int \<Rightarrow> u8 \<Rightarrow> bytes" where
  "bth_set_pad_at m p pad = 
     store8 m (p + 1) ((BTH_PAD_MASK AND push_bit 4 pad) OR (NOT BTH_PAD_MASK AND load8 m (p + 1)))"

definition bth_tver_at :: "bytes \<Rightarrow> int \<Rightarrow> u8" where
  "bth_tver_at m p = BTH_TVER_MASK AND load8 m (p + 1)"

definition bth_set_tver_at :: "bytes \<Rightarrow> int \<Rightarrow> u8 \<Rightarrow> bytes" where
  "bth_set_tver_at m p tver = 
     store8 m (p + 1) ((BTH_TVER_MASK AND tver) OR (NOT BTH_TVER_MASK AND load8 m (p + 1)))"

definition bth_pkey_at :: "bytes \<Rightarrow> int \<Rightarrow> u16" where
  "bth_pkey_at m p = be16_to_cpu (load16 m (p + 2))"

definition bth_set_pkey_at :: "bytes \<Rightarrow> int \<Rightarrow> u16 \<Rightarrow> bytes" where
  "bth_set_pkey_at m p pkey = store16 m (p + 2) (cpu_to_be16 pkey)"

definition bth_qpn_at :: "bytes \<Rightarrow> int \<Rightarrow> u32" where
  "bth_qpn_at m p = BTH_QPN_MASK AND be32_to_cpu (load32 m (p + 4))"

definition bth_set_qpn_at :: "bytes \<Rightarrow> int \<Rightarrow> u32 \<Rightarrow> bytes" where
  "bth_set_qpn_at m p qpn = 
     store32 m (p + 4) (cpu_to_be32 ((BTH_QPN_MASK AND qpn)
       OR (NOT BTH_QPN_MASK AND be32_to_cpu (load32 m (p + 4)))))"

definition bth_fecn_at :: "bytes \<Rightarrow> int \<Rightarrow> int" where
  "bth_fecn_at m p = (if cpu_to_be32 BTH_FECN_MASK AND load32 m (p + 4) \<noteq> 0 then 1 else 0)"

definition bth_set_fecn_at :: "bytes \<Rightarrow> int \<Rightarrow> int \<Rightarrow> bytes" where
  "bth_set_fecn_at m p fecn = 
     (if fecn \<noteq> 0 then store32 m (p + 4) (load32 m (p + 4) OR cpu_to_be32 BTH_FECN_MASK)
      else store32 m (p + 4) (load32 m (p + 4) AND NOT (cpu_to_be32 BTH_FECN_MASK)))"

definition bth_becn_at :: "bytes \<Rightarrow> int \<Rightarrow> int" where
  "bth_becn_at m p = (if cpu_to_be32 BTH_BECN_MASK AND load32 m (p + 4) \<noteq> 0 then 1 else 0)"

definition bth_set_becn_at :: "bytes \<Rightarrow> int \<Rightarrow> int \<Rightarrow> bytes" where
  "bth_set_becn_at m p becn = 
     (if becn \<noteq> 0 then store32 m (p + 4) (load32 m (p + 4) OR cpu_to_be32 BTH_BECN_MASK)
      else store32 m (p + 4) (load32 m (p + 4) AND NOT (cpu_to_be32 BTH_BECN_MASK)))"

definition bth_resv6a_at :: "bytes \<Rightarrow> int \<Rightarrow> u8" where
  "bth_resv6a_at m p = ucast (drop_bit 24 (BTH_RESV6A_MASK AND be32_to_cpu (load32 m (p + 4))))"

text \<open>The source assigns the complement of the mask, where its neighbours clear the masked bits.\<close>

definition bth_set_resv6a_at :: "bytes \<Rightarrow> int \<Rightarrow> bytes" where
  "bth_set_resv6a_at m p = store32 m (p + 4) (cpu_to_be32 (NOT BTH_RESV6A_MASK))"

definition bth_ack_at :: "bytes \<Rightarrow> int \<Rightarrow> int" where
  "bth_ack_at m p = (if cpu_to_be32 BTH_ACK_MASK AND load32 m (p + 8) \<noteq> 0 then 1 else 0)"

definition bth_set_ack_at :: "bytes \<Rightarrow> int \<Rightarrow> int \<Rightarrow> bytes" where
  "bth_set_ack_at m p ack = 
     (if ack \<noteq> 0 then store32 m (p + 8) (load32 m (p + 8) OR cpu_to_be32 BTH_ACK_MASK)
      else store32 m (p + 8) (load32 m (p + 8) AND NOT (cpu_to_be32 BTH_ACK_MASK)))"

definition bth_set_resv7_at :: "bytes \<Rightarrow> int \<Rightarrow> bytes" where
  "bth_set_resv7_at m p = 
     store32 m (p + 8) (load32 m (p + 8) AND NOT (cpu_to_be32 BTH_RESV7_MASK))"

definition bth_psn_at :: "bytes \<Rightarrow> int \<Rightarrow> u32" where
  "bth_psn_at m p = BTH_PSN_MASK AND be32_to_cpu (load32 m (p + 8))"

definition bth_set_psn_at :: "bytes \<Rightarrow> int \<Rightarrow> u32 \<Rightarrow> bytes" where
  "bth_set_psn_at m p psn = 
     store32 m (p + 8) (cpu_to_be32 ((BTH_PSN_MASK AND psn)
       OR (NOT BTH_PSN_MASK AND be32_to_cpu (load32 m (p + 8)))))"

definition bth_opcode :: "rxe_pkt_info \<Rightarrow> u8" where
  "bth_opcode pkt = bth_opcode_at (pkt_hdr pkt) (bth_ptr pkt)"

definition bth_set_opcode :: "rxe_pkt_info \<Rightarrow> u8 \<Rightarrow> rxe_pkt_info" where
  "bth_set_opcode pkt opcode = 
     pkt\<lparr>pkt_hdr := bth_set_opcode_at (pkt_hdr pkt) (bth_ptr pkt) opcode\<rparr>"

definition bth_se :: "rxe_pkt_info \<Rightarrow> u8" where
  "bth_se pkt = bth_se_at (pkt_hdr pkt) (bth_ptr pkt)"

definition bth_set_se :: "rxe_pkt_info \<Rightarrow> int \<Rightarrow> rxe_pkt_info" where
  "bth_set_se pkt se = 
     pkt\<lparr>pkt_hdr := bth_set_se_at (pkt_hdr pkt) (bth_ptr pkt) se\<rparr>"

definition bth_mig :: "rxe_pkt_info \<Rightarrow> u8" where
  "bth_mig pkt = bth_mig_at (pkt_hdr pkt) (bth_ptr pkt)"

definition bth_set_mig :: "rxe_pkt_info \<Rightarrow> u8 \<Rightarrow> rxe_pkt_info" where
  "bth_set_mig pkt mig = 
     pkt\<lparr>pkt_hdr := bth_set_mig_at (pkt_hdr pkt) (bth_ptr pkt) mig\<rparr>"

definition bth_pad :: "rxe_pkt_info \<Rightarrow> u8" where
  "bth_pad pkt = bth_pad_at (pkt_hdr pkt) (bth_ptr pkt)"

definition bth_set_pad :: "rxe_pkt_info \<Rightarrow> u8 \<Rightarrow> rxe_pkt_info" where
  "bth_set_pad pkt pad = 
     pkt\<lparr>pkt_hdr := bth_set_pad_at (pkt_hdr pkt) (bth_ptr pkt) pad\<rparr>"

definition bth_tver :: "rxe_pkt_info \<Rightarrow> u8" where
  "bth_tver pkt = bth_tver_at (pkt_hdr pkt) (bth_ptr pkt)"

definition bth_set_tver :: "rxe_pkt_info \<Rightarrow> u8 \<Rightarrow> rxe_pkt_info" where
  "bth_set_tver pkt tver = 
     pkt\<lparr>pkt_hdr := bth_set_tver_at (pkt_hdr pkt) (bth_ptr pkt) tver\<rparr>"

definition bth_pkey :: "rxe_pkt_info \<Rightarrow> u16" where
  "bth_pkey pkt = bth_pkey_at (pkt_hdr pkt) (bth_ptr pkt)"

definition bth_set_pkey :: "rxe_pkt_info \<Rightarrow> u16 \<Rightarrow> rxe_pkt_info" where
  "bth_set_pkey pkt pkey = 
     pkt\<lparr>pkt_hdr := bth_set_pkey_at (pkt_hdr pkt) (bth_ptr pkt) pkey\<rparr>"

definition bth_qpn :: "rxe_pkt_info \<Rightarrow> u32" where
  "bth_qpn pkt = bth_qpn_at (pkt_hdr pkt) (bth_ptr pkt)"

definition bth_set_qpn :: "rxe_pkt_info \<Rightarrow> u32 \<Rightarrow> rxe_pkt_info" where
  "bth_set_qpn pkt qpn = 
     pkt\<lparr>pkt_hdr := bth_set_qpn_at (pkt_hdr pkt) (bth_ptr pkt) qpn\<rparr>"

definition bth_fecn :: "rxe_pkt_info \<Rightarrow> int" where
  "bth_fecn pkt = bth_fecn_at (pkt_hdr pkt) (bth_ptr pkt)"

definition bth_set_fecn :: "rxe_pkt_info \<Rightarrow> int \<Rightarrow> rxe_pkt_info" where
  "bth_set_fecn pkt fecn = 
     pkt\<lparr>pkt_hdr := bth_set_fecn_at (pkt_hdr pkt) (bth_ptr pkt) fecn\<rparr>"

definition bth_becn :: "rxe_pkt_info \<Rightarrow> int" where
  "bth_becn pkt = bth_becn_at (pkt_hdr pkt) (bth_ptr pkt)"

definition bth_set_becn :: "rxe_pkt_info \<Rightarrow> int \<Rightarrow> rxe_pkt_info" where
  "bth_set_becn pkt becn = 
     pkt\<lparr>pkt_hdr := bth_set_becn_at (pkt_hdr pkt) (bth_ptr pkt) becn\<rparr>"

definition bth_resv6a :: "rxe_pkt_info \<Rightarrow> u8" where
  "bth_resv6a pkt = bth_resv6a_at (pkt_hdr pkt) (bth_ptr pkt)"

definition bth_set_resv6a :: "rxe_pkt_info \<Rightarrow> rxe_pkt_info" where
  "bth_set_resv6a pkt = pkt\<lparr>pkt_hdr := bth_set_resv6a_at (pkt_hdr pkt) (bth_ptr pkt)\<rparr>"

definition bth_ack :: "rxe_pkt_info \<Rightarrow> int" where
  "bth_ack pkt = bth_ack_at (pkt_hdr pkt) (bth_ptr pkt)"

definition bth_set_ack :: "rxe_pkt_info \<Rightarrow> int \<Rightarrow> rxe_pkt_info" where
  "bth_set_ack pkt ack = 
     pkt\<lparr>pkt_hdr := bth_set_ack_at (pkt_hdr pkt) (bth_ptr pkt) ack\<rparr>"

definition bth_set_resv7 :: "rxe_pkt_info \<Rightarrow> rxe_pkt_info" where
  "bth_set_resv7 pkt = pkt\<lparr>pkt_hdr := bth_set_resv7_at (pkt_hdr pkt) (bth_ptr pkt)\<rparr>"

definition bth_psn :: "rxe_pkt_info \<Rightarrow> u32" where
  "bth_psn pkt = bth_psn_at (pkt_hdr pkt) (bth_ptr pkt)"

definition bth_set_psn :: "rxe_pkt_info \<Rightarrow> u32 \<Rightarrow> rxe_pkt_info" where
  "bth_set_psn pkt psn = 
     pkt\<lparr>pkt_hdr := bth_set_psn_at (pkt_hdr pkt) (bth_ptr pkt) psn\<rparr>"

definition bth_init :: "rxe_pkt_info \<Rightarrow> u8 \<Rightarrow> int \<Rightarrow> int \<Rightarrow> int \<Rightarrow> u16 \<Rightarrow> u32 \<Rightarrow> int \<Rightarrow> u32 \<Rightarrow> rxe_pkt_info" where
  "bth_init pkt opcode se mig pad pkey qpn ack_req psn = 
     (let p = bth_ptr pkt;
          m = pkt_hdr pkt;
          m = store8 m p opcode;
          m = store8 m (p + 1) (push_bit 4 (word_of_int pad) AND BTH_PAD_MASK);
          m = (if se \<noteq> 0 then store8 m (p + 1) (load8 m (p + 1) OR BTH_SE_MASK) else m);
          m = (if mig \<noteq> 0 then store8 m (p + 1) (load8 m (p + 1) OR BTH_MIG_MASK) else m);
          m = store16 m (p + 2) (cpu_to_be16 pkey);
          m = store32 m (p + 4) (cpu_to_be32 (qpn AND BTH_QPN_MASK));
          psn = psn AND BTH_PSN_MASK;
          psn = (if ack_req \<noteq> 0 then psn OR BTH_ACK_MASK else psn);
          m = store32 m (p + 8) (cpu_to_be32 psn)
      in pkt\<lparr>pkt_hdr := m\<rparr>)"

subsection \<open>Reliable datagram extended transport header\<close>

abbreviation (input) RDETH_EEN_MASK :: u32 where "RDETH_EEN_MASK \<equiv> 0x00ffffff"

text \<open>The getter returns the 24-bit field through \<open>u8\<close>.\<close>

definition rdeth_een_at :: "bytes \<Rightarrow> int \<Rightarrow> u8" where
  "rdeth_een_at m p = ucast (RDETH_EEN_MASK AND be32_to_cpu (load32 m p))"

definition rdeth_set_een_at :: "bytes \<Rightarrow> int \<Rightarrow> u32 \<Rightarrow> bytes" where
  "rdeth_set_een_at m p een = store32 m p (cpu_to_be32 (RDETH_EEN_MASK AND een))"

definition rdeth_een :: "rxe_pkt_info \<Rightarrow> u8" where
  "rdeth_een pkt = rdeth_een_at (pkt_hdr pkt) (hdr_ptr RXE_RDETH pkt)"

definition rdeth_set_een :: "rxe_pkt_info \<Rightarrow> u32 \<Rightarrow> rxe_pkt_info" where
  "rdeth_set_een pkt een = 
     pkt\<lparr>pkt_hdr := rdeth_set_een_at (pkt_hdr pkt) (hdr_ptr RXE_RDETH pkt) een\<rparr>"

subsection \<open>Datagram extended transport header\<close>

abbreviation (input) GSI_QKEY :: u32 where "GSI_QKEY \<equiv> 0x80010000"
abbreviation (input) DETH_SQP_MASK :: u32 where "DETH_SQP_MASK \<equiv> 0x00ffffff"

definition deth_qkey_at :: "bytes \<Rightarrow> int \<Rightarrow> u32" where
  "deth_qkey_at m p = be32_to_cpu (load32 m p)"

definition deth_set_qkey_at :: "bytes \<Rightarrow> int \<Rightarrow> u32 \<Rightarrow> bytes" where
  "deth_set_qkey_at m p qkey = store32 m p (cpu_to_be32 qkey)"

definition deth_sqp_at :: "bytes \<Rightarrow> int \<Rightarrow> u32" where
  "deth_sqp_at m p = DETH_SQP_MASK AND be32_to_cpu (load32 m (p + 4))"

definition deth_set_sqp_at :: "bytes \<Rightarrow> int \<Rightarrow> u32 \<Rightarrow> bytes" where
  "deth_set_sqp_at m p sqp = store32 m (p + 4) (cpu_to_be32 (DETH_SQP_MASK AND sqp))"

definition deth_qkey :: "rxe_pkt_info \<Rightarrow> u32" where
  "deth_qkey pkt = deth_qkey_at (pkt_hdr pkt) (hdr_ptr RXE_DETH pkt)"

definition deth_set_qkey :: "rxe_pkt_info \<Rightarrow> u32 \<Rightarrow> rxe_pkt_info" where
  "deth_set_qkey pkt qkey = 
     pkt\<lparr>pkt_hdr := deth_set_qkey_at (pkt_hdr pkt) (hdr_ptr RXE_DETH pkt) qkey\<rparr>"

definition deth_sqp :: "rxe_pkt_info \<Rightarrow> u32" where
  "deth_sqp pkt = deth_sqp_at (pkt_hdr pkt) (hdr_ptr RXE_DETH pkt)"

definition deth_set_sqp :: "rxe_pkt_info \<Rightarrow> u32 \<Rightarrow> rxe_pkt_info" where
  "deth_set_sqp pkt sqp = 
     pkt\<lparr>pkt_hdr := deth_set_sqp_at (pkt_hdr pkt) (hdr_ptr RXE_DETH pkt) sqp\<rparr>"

subsection \<open>RDMA extended transport header\<close>

definition reth_va_at :: "bytes \<Rightarrow> int \<Rightarrow> u64" where
  "reth_va_at m p = be64_to_cpu (load64 m p)"

definition reth_set_va_at :: "bytes \<Rightarrow> int \<Rightarrow> u64 \<Rightarrow> bytes" where
  "reth_set_va_at m p va = store64 m p (cpu_to_be64 va)"

definition reth_rkey_at :: "bytes \<Rightarrow> int \<Rightarrow> u32" where
  "reth_rkey_at m p = be32_to_cpu (load32 m (p + 8))"

definition reth_set_rkey_at :: "bytes \<Rightarrow> int \<Rightarrow> u32 \<Rightarrow> bytes" where
  "reth_set_rkey_at m p rkey = store32 m (p + 8) (cpu_to_be32 rkey)"

definition reth_len_at :: "bytes \<Rightarrow> int \<Rightarrow> u32" where
  "reth_len_at m p = be32_to_cpu (load32 m (p + 12))"

definition reth_set_len_at :: "bytes \<Rightarrow> int \<Rightarrow> u32 \<Rightarrow> bytes" where
  "reth_set_len_at m p len = store32 m (p + 12) (cpu_to_be32 len)"

definition reth_va :: "rxe_pkt_info \<Rightarrow> u64" where
  "reth_va pkt = reth_va_at (pkt_hdr pkt) (hdr_ptr RXE_RETH pkt)"

definition reth_set_va :: "rxe_pkt_info \<Rightarrow> u64 \<Rightarrow> rxe_pkt_info" where
  "reth_set_va pkt va = 
     pkt\<lparr>pkt_hdr := reth_set_va_at (pkt_hdr pkt) (hdr_ptr RXE_RETH pkt) va\<rparr>"

definition reth_rkey :: "rxe_pkt_info \<Rightarrow> u32" where
  "reth_rkey pkt = reth_rkey_at (pkt_hdr pkt) (hdr_ptr RXE_RETH pkt)"

definition reth_set_rkey :: "rxe_pkt_info \<Rightarrow> u32 \<Rightarrow> rxe_pkt_info" where
  "reth_set_rkey pkt rkey = 
     pkt\<lparr>pkt_hdr := reth_set_rkey_at (pkt_hdr pkt) (hdr_ptr RXE_RETH pkt) rkey\<rparr>"

definition reth_len :: "rxe_pkt_info \<Rightarrow> u32" where
  "reth_len pkt = reth_len_at (pkt_hdr pkt) (hdr_ptr RXE_RETH pkt)"

definition reth_set_len :: "rxe_pkt_info \<Rightarrow> u32 \<Rightarrow> rxe_pkt_info" where
  "reth_set_len pkt len = 
     pkt\<lparr>pkt_hdr := reth_set_len_at (pkt_hdr pkt) (hdr_ptr RXE_RETH pkt) len\<rparr>"

subsection \<open>Atomic extended transport header\<close>

text \<open>The structure is packed: va at 0, rkey at 8, swap_add at 12, comp at 20.\<close>

definition atmeth_va_at :: "bytes \<Rightarrow> int \<Rightarrow> u64" where
  "atmeth_va_at m p = be64_to_cpu (load64 m p)"

definition atmeth_set_va_at :: "bytes \<Rightarrow> int \<Rightarrow> u64 \<Rightarrow> bytes" where
  "atmeth_set_va_at m p va = store64 m p (cpu_to_be64 va)"

definition atmeth_rkey_at :: "bytes \<Rightarrow> int \<Rightarrow> u32" where
  "atmeth_rkey_at m p = be32_to_cpu (load32 m (p + 8))"

definition atmeth_set_rkey_at :: "bytes \<Rightarrow> int \<Rightarrow> u32 \<Rightarrow> bytes" where
  "atmeth_set_rkey_at m p rkey = store32 m (p + 8) (cpu_to_be32 rkey)"

definition atmeth_swap_add_at :: "bytes \<Rightarrow> int \<Rightarrow> u64" where
  "atmeth_swap_add_at m p = be64_to_cpu (load64 m (p + 12))"

definition atmeth_set_swap_add_at :: "bytes \<Rightarrow> int \<Rightarrow> u64 \<Rightarrow> bytes" where
  "atmeth_set_swap_add_at m p swap_add = store64 m (p + 12) (cpu_to_be64 swap_add)"

definition atmeth_comp_at :: "bytes \<Rightarrow> int \<Rightarrow> u64" where
  "atmeth_comp_at m p = be64_to_cpu (load64 m (p + 20))"

definition atmeth_set_comp_at :: "bytes \<Rightarrow> int \<Rightarrow> u64 \<Rightarrow> bytes" where
  "atmeth_set_comp_at m p cmp = store64 m (p + 20) (cpu_to_be64 cmp)"

definition atmeth_va :: "rxe_pkt_info \<Rightarrow> u64" where
  "atmeth_va pkt = atmeth_va_at (pkt_hdr pkt) (hdr_ptr RXE_ATMETH pkt)"

definition atmeth_set_va :: "rxe_pkt_info \<Rightarrow> u64 \<Rightarrow> rxe_pkt_info" where
  "atmeth_set_va pkt va = 
     pkt\<lparr>pkt_hdr := atmeth_set_va_at (pkt_hdr pkt) (hdr_ptr RXE_ATMETH pkt) va\<rparr>"

definition atmeth_rkey :: "rxe_pkt_info \<Rightarrow> u32" where
  "atmeth_rkey pkt = atmeth_rkey_at (pkt_hdr pkt) (hdr_ptr RXE_ATMETH pkt)"

definition atmeth_set_rkey :: "rxe_pkt_info \<Rightarrow> u32 \<Rightarrow> rxe_pkt_info" where
  "atmeth_set_rkey pkt rkey = 
     pkt\<lparr>pkt_hdr := atmeth_set_rkey_at (pkt_hdr pkt) (hdr_ptr RXE_ATMETH pkt) rkey\<rparr>"

definition atmeth_swap_add :: "rxe_pkt_info \<Rightarrow> u64" where
  "atmeth_swap_add pkt = atmeth_swap_add_at (pkt_hdr pkt) (hdr_ptr RXE_ATMETH pkt)"

definition atmeth_set_swap_add :: "rxe_pkt_info \<Rightarrow> u64 \<Rightarrow> rxe_pkt_info" where
  "atmeth_set_swap_add pkt swap_add = 
     pkt\<lparr>pkt_hdr := atmeth_set_swap_add_at (pkt_hdr pkt) (hdr_ptr RXE_ATMETH pkt) swap_add\<rparr>"

definition atmeth_comp :: "rxe_pkt_info \<Rightarrow> u64" where
  "atmeth_comp pkt = atmeth_comp_at (pkt_hdr pkt) (hdr_ptr RXE_ATMETH pkt)"

definition atmeth_set_comp :: "rxe_pkt_info \<Rightarrow> u64 \<Rightarrow> rxe_pkt_info" where
  "atmeth_set_comp pkt cmp = 
     pkt\<lparr>pkt_hdr := atmeth_set_comp_at (pkt_hdr pkt) (hdr_ptr RXE_ATMETH pkt) cmp\<rparr>"

subsection \<open>Ack extended transport header\<close>

abbreviation (input) AETH_SYN_MASK :: u32 where "AETH_SYN_MASK \<equiv> 0xff000000"
abbreviation (input) AETH_MSN_MASK :: u32 where "AETH_MSN_MASK \<equiv> 0x00ffffff"

abbreviation (input) AETH_TYPE_MASK :: u8 where "AETH_TYPE_MASK \<equiv> 0xe0"
abbreviation (input) AETH_ACK :: u8 where "AETH_ACK \<equiv> 0x00"
abbreviation (input) AETH_RNR_NAK :: u8 where "AETH_RNR_NAK \<equiv> 0x20"
abbreviation (input) AETH_RSVD :: u8 where "AETH_RSVD \<equiv> 0x40"
abbreviation (input) AETH_NAK :: u8 where "AETH_NAK \<equiv> 0x60"
abbreviation (input) AETH_ACK_UNLIMITED :: u8 where "AETH_ACK_UNLIMITED \<equiv> 0x1f"
abbreviation (input) AETH_NAK_PSN_SEQ_ERROR :: u8 where "AETH_NAK_PSN_SEQ_ERROR \<equiv> 0x60"
abbreviation (input) AETH_NAK_INVALID_REQ :: u8 where "AETH_NAK_INVALID_REQ \<equiv> 0x61"
abbreviation (input) AETH_NAK_REM_ACC_ERR :: u8 where "AETH_NAK_REM_ACC_ERR \<equiv> 0x62"
abbreviation (input) AETH_NAK_REM_OP_ERR :: u8 where "AETH_NAK_REM_OP_ERR \<equiv> 0x63"
abbreviation (input) AETH_NAK_INV_RD_REQ :: u8 where "AETH_NAK_INV_RD_REQ \<equiv> 0x64"

definition aeth_syn_at :: "bytes \<Rightarrow> int \<Rightarrow> u8" where
  "aeth_syn_at m p = ucast (drop_bit 24 (AETH_SYN_MASK AND be32_to_cpu (load32 m p)))"

definition aeth_set_syn_at :: "bytes \<Rightarrow> int \<Rightarrow> u8 \<Rightarrow> bytes" where
  "aeth_set_syn_at m p syn = 
     store32 m p (cpu_to_be32 ((AETH_SYN_MASK AND push_bit 24 (ucast syn))
       OR (NOT AETH_SYN_MASK AND be32_to_cpu (load32 m p))))"

definition aeth_msn_at :: "bytes \<Rightarrow> int \<Rightarrow> u32" where
  "aeth_msn_at m p = AETH_MSN_MASK AND be32_to_cpu (load32 m p)"

definition aeth_set_msn_at :: "bytes \<Rightarrow> int \<Rightarrow> u32 \<Rightarrow> bytes" where
  "aeth_set_msn_at m p msn = 
     store32 m p (cpu_to_be32 ((AETH_MSN_MASK AND msn) OR (NOT AETH_MSN_MASK AND be32_to_cpu (load32 m p))))"

definition aeth_syn :: "rxe_pkt_info \<Rightarrow> u8" where
  "aeth_syn pkt = aeth_syn_at (pkt_hdr pkt) (hdr_ptr RXE_AETH pkt)"

definition aeth_set_syn :: "rxe_pkt_info \<Rightarrow> u8 \<Rightarrow> rxe_pkt_info" where
  "aeth_set_syn pkt syn = 
     pkt\<lparr>pkt_hdr := aeth_set_syn_at (pkt_hdr pkt) (hdr_ptr RXE_AETH pkt) syn\<rparr>"

definition aeth_msn :: "rxe_pkt_info \<Rightarrow> u32" where
  "aeth_msn pkt = aeth_msn_at (pkt_hdr pkt) (hdr_ptr RXE_AETH pkt)"

definition aeth_set_msn :: "rxe_pkt_info \<Rightarrow> u32 \<Rightarrow> rxe_pkt_info" where
  "aeth_set_msn pkt msn = 
     pkt\<lparr>pkt_hdr := aeth_set_msn_at (pkt_hdr pkt) (hdr_ptr RXE_AETH pkt) msn\<rparr>"

subsection \<open>Atomic acknowledgement header\<close>

definition atmack_orig_at :: "bytes \<Rightarrow> int \<Rightarrow> u64" where
  "atmack_orig_at m p = be64_to_cpu (load64 m p)"

definition atmack_set_orig_at :: "bytes \<Rightarrow> int \<Rightarrow> u64 \<Rightarrow> bytes" where
  "atmack_set_orig_at m p orig = store64 m p (cpu_to_be64 orig)"

definition atmack_orig :: "rxe_pkt_info \<Rightarrow> u64" where
  "atmack_orig pkt = atmack_orig_at (pkt_hdr pkt) (hdr_ptr RXE_ATMACK pkt)"

definition atmack_set_orig :: "rxe_pkt_info \<Rightarrow> u64 \<Rightarrow> rxe_pkt_info" where
  "atmack_set_orig pkt orig = 
     pkt\<lparr>pkt_hdr := atmack_set_orig_at (pkt_hdr pkt) (hdr_ptr RXE_ATMACK pkt) orig\<rparr>"

subsection \<open>Immediate and invalidate headers\<close>

text \<open>Immediate data is big-endian and never converted.\<close>

definition immdt_imm_at :: "bytes \<Rightarrow> int \<Rightarrow> u32" where
  "immdt_imm_at m p = load32 m p"

definition immdt_set_imm_at :: "bytes \<Rightarrow> int \<Rightarrow> u32 \<Rightarrow> bytes" where
  "immdt_set_imm_at m p imm = store32 m p imm"

definition immdt_imm :: "rxe_pkt_info \<Rightarrow> u32" where
  "immdt_imm pkt = immdt_imm_at (pkt_hdr pkt) (hdr_ptr RXE_IMMDT pkt)"

definition immdt_set_imm :: "rxe_pkt_info \<Rightarrow> u32 \<Rightarrow> rxe_pkt_info" where
  "immdt_set_imm pkt imm = 
     pkt\<lparr>pkt_hdr := immdt_set_imm_at (pkt_hdr pkt) (hdr_ptr RXE_IMMDT pkt) imm\<rparr>"

definition ieth_rkey_at :: "bytes \<Rightarrow> int \<Rightarrow> u32" where
  "ieth_rkey_at m p = be32_to_cpu (load32 m p)"

definition ieth_set_rkey_at :: "bytes \<Rightarrow> int \<Rightarrow> u32 \<Rightarrow> bytes" where
  "ieth_set_rkey_at m p rkey = store32 m p (cpu_to_be32 rkey)"

definition ieth_rkey :: "rxe_pkt_info \<Rightarrow> u32" where
  "ieth_rkey pkt = ieth_rkey_at (pkt_hdr pkt) (hdr_ptr RXE_IETH pkt)"

definition ieth_set_rkey :: "rxe_pkt_info \<Rightarrow> u32 \<Rightarrow> rxe_pkt_info" where
  "ieth_set_rkey pkt rkey = 
     pkt\<lparr>pkt_hdr := ieth_set_rkey_at (pkt_hdr pkt) (hdr_ptr RXE_IETH pkt) rkey\<rparr>"

subsection \<open>Sizes\<close>

definition header_size :: "rxe_pkt_info \<Rightarrow> u32" where
  "header_size pkt = 
     word_of_int (uint (pkt_offset pkt) + oi_length (rxe_opcode (pkt_opcode pkt)))"

definition payload_addr :: "rxe_pkt_info \<Rightarrow> int" where
  "payload_addr pkt = hdr_ptr RXE_PAYLOAD pkt"

definition payload_size :: "rxe_pkt_info \<Rightarrow> u32" where
  "payload_size pkt = 
     word_of_int (uint (pkt_paylen pkt) - oi_offset (rxe_opcode (pkt_opcode pkt)) RXE_PAYLOAD
       - uint (bth_pad pkt) - RXE_ICRC_SIZE)"

subsection \<open>Masked fields\<close>

lemma mask_merge: "M AND ((M AND v) OR (NOT M AND w)) = (M AND v :: 'a::len word)"
  by (auto simp: bit_eq_iff bit_simps)

lemma mask_merge_other:
  "N AND M = 0 \<Longrightarrow> N AND ((M AND v) OR (NOT M AND w)) = (N AND w :: 'a::len word)"
  by (auto simp: bit_eq_iff bit_simps)

lemma mask_set_other: "N AND M = 0 \<Longrightarrow> N AND (w OR M) = (N AND w :: 'a::len word)"
  by (auto simp: bit_eq_iff bit_simps)

lemma mask_clear_other: "N AND M = 0 \<Longrightarrow> N AND (w AND NOT M) = (N AND w :: 'a::len word)"
  by (auto simp: bit_eq_iff bit_simps)

lemma mask_set_clear: "M AND (w OR M) = (M :: 'a::len word)" "M AND (w AND NOT M) = 0"
  by (auto simp: bit_eq_iff bit_simps)

text \<open>The instances for the masks of the base header, with complements evaluated.\<close>

lemmas bth_mask_fields = mask_set_clear(1)
  mask_set_clear(2) [of "0x80 :: u8", simplified]
  mask_set_other [of "0x40 :: u8" "0x80", simplified]
  mask_clear_other [of "0x40 :: u8" "0x80", simplified]
  mask_set_other [of "0x30 :: u8" "0x80", simplified]
  mask_clear_other [of "0x30 :: u8" "0x80", simplified]
  mask_set_other [of "0x0f :: u8" "0x80", simplified]
  mask_clear_other [of "0x0f :: u8" "0x80", simplified]
  mask_set_clear(2) [of "0x40 :: u8", simplified]
  mask_set_other [of "0x80 :: u8" "0x40", simplified]
  mask_clear_other [of "0x80 :: u8" "0x40", simplified]
  mask_set_other [of "0x30 :: u8" "0x40", simplified]
  mask_clear_other [of "0x30 :: u8" "0x40", simplified]
  mask_set_other [of "0x0f :: u8" "0x40", simplified]
  mask_clear_other [of "0x0f :: u8" "0x40", simplified]
  mask_merge [of "0x30 :: u8", simplified]
  mask_merge_other [of "0x80 :: u8" "0x30", simplified]
  mask_merge_other [of "0x40 :: u8" "0x30", simplified]
  mask_merge_other [of "0x0f :: u8" "0x30", simplified]
  mask_merge [of "0x0f :: u8", simplified]
  mask_merge_other [of "0x80 :: u8" "0x0f", simplified]
  mask_merge_other [of "0x40 :: u8" "0x0f", simplified]
  mask_merge_other [of "0x30 :: u8" "0x0f", simplified]
  mask_set_clear(2) [of "0x80000000 :: u32", simplified]
  mask_set_other [of "0x40000000 :: u32" "0x80000000", simplified]
  mask_clear_other [of "0x40000000 :: u32" "0x80000000", simplified]
  mask_set_other [of "0x3f000000 :: u32" "0x80000000", simplified]
  mask_clear_other [of "0x3f000000 :: u32" "0x80000000", simplified]
  mask_set_other [of "0x00ffffff :: u32" "0x80000000", simplified]
  mask_clear_other [of "0x00ffffff :: u32" "0x80000000", simplified]
  mask_set_clear(2) [of "0x40000000 :: u32", simplified]
  mask_set_other [of "0x80000000 :: u32" "0x40000000", simplified]
  mask_clear_other [of "0x80000000 :: u32" "0x40000000", simplified]
  mask_set_other [of "0x3f000000 :: u32" "0x40000000", simplified]
  mask_clear_other [of "0x3f000000 :: u32" "0x40000000", simplified]
  mask_set_other [of "0x00ffffff :: u32" "0x40000000", simplified]
  mask_clear_other [of "0x00ffffff :: u32" "0x40000000", simplified]
  mask_merge [of "0x00ffffff :: u32", simplified]
  mask_merge_other [of "0x80000000 :: u32" "0x00ffffff", simplified]
  mask_merge_other [of "0x40000000 :: u32" "0x00ffffff", simplified]
  mask_merge_other [of "0x3f000000 :: u32" "0x00ffffff", simplified]

text \<open>A test of a flag in the stored byte order is the test in the host order.\<close>

lemma swab32_flag: "swab32 M AND x = 0 \<longleftrightarrow> M AND swab32 x = 0"
  using swab32_eq_0_iff [of "swab32 M AND x"] by (simp add: swab32_and)

lemma swab32_update:
  "swab32 (x OR swab32 M) = swab32 x OR M" "swab32 (x AND NOT (swab32 M)) = swab32 x AND NOT M"
  by (simp_all add: swab32_bitwise)

lemmas bth_defs = bth_opcode_def bth_opcode_at_def bth_se_def bth_se_at_def bth_mig_def
  bth_mig_at_def bth_pad_def bth_pad_at_def bth_tver_def bth_tver_at_def bth_pkey_def
  bth_pkey_at_def bth_qpn_def bth_qpn_at_def bth_fecn_def bth_fecn_at_def bth_becn_def
  bth_becn_at_def bth_resv6a_def bth_resv6a_at_def bth_ack_def bth_ack_at_def bth_psn_def
  bth_psn_at_def

lemmas bth_set_defs = bth_set_opcode_def bth_set_opcode_at_def bth_set_se_def bth_set_se_at_def
  bth_set_mig_def bth_set_mig_at_def bth_set_pad_def bth_set_pad_at_def bth_set_tver_def
  bth_set_tver_at_def bth_set_pkey_def bth_set_pkey_at_def bth_set_qpn_def bth_set_qpn_at_def
  bth_set_fecn_def bth_set_fecn_at_def bth_set_becn_def bth_set_becn_at_def bth_set_ack_def
  bth_set_ack_at_def bth_set_psn_def bth_set_psn_at_def bth_set_resv6a_def bth_set_resv6a_at_def
  bth_set_resv7_def bth_set_resv7_at_def

lemma bth_ptr_hdr [simp]: "bth_ptr (pkt\<lparr>pkt_hdr := m\<rparr>) = bth_ptr pkt"
  by (simp add: bth_ptr_def)

lemma hdr_ptr_hdr [simp]: "hdr_ptr h (pkt\<lparr>pkt_hdr := m\<rparr>) = hdr_ptr h pkt"
  by (simp add: hdr_ptr_def)

text \<open>All fields of the base header, for statements about what an operation keeps.\<close>

definition bth_view :: "rxe_pkt_info \<Rightarrow> u32 list" where
  "bth_view pkt = [ucast (bth_opcode pkt), ucast (bth_se pkt), ucast (bth_mig pkt),
     ucast (bth_pad pkt), ucast (bth_tver pkt), ucast (bth_pkey pkt), bth_qpn pkt,
     word_of_int (bth_fecn pkt), word_of_int (bth_becn pkt), ucast (bth_resv6a pkt),
     word_of_int (bth_ack pkt), bth_psn pkt]"

text \<open>The flags byte that \<open>bth_init\<close> builds.\<close>

definition bth_flags :: "int \<Rightarrow> int \<Rightarrow> int \<Rightarrow> u8" where
  "bth_flags se mig pad = (push_bit 4 (word_of_int pad) AND BTH_PAD_MASK)
     OR (if se \<noteq> 0 then BTH_SE_MASK else 0) OR (if mig \<noteq> 0 then BTH_MIG_MASK else 0)"

lemma bth_init_bytes:
  "pkt_hdr (bth_init pkt opcode se mig pad pkey qpn ack psn) =
     (let p = bth_ptr pkt in
      store32 (store32 (store16 (store8 (store8 (pkt_hdr pkt) p opcode)
        (p + 1) (bth_flags se mig pad)) (p + 2) (cpu_to_be16 pkey))
        (p + 4) (cpu_to_be32 (qpn AND BTH_QPN_MASK)))
        (p + 8) (cpu_to_be32 ((psn AND BTH_PSN_MASK) OR (if ack \<noteq> 0 then BTH_ACK_MASK else 0))))"
  by (simp add: bth_init_def bth_flags_def Let_def load_store f8.put_put or.assoc)

lemma bth_init_ptr [simp]: "bth_ptr (bth_init pkt opcode se mig pad pkey qpn ack psn) = bth_ptr pkt"
  by (simp add: bth_init_def bth_ptr_def Let_def)

lemma bth_flags_fields:
  "BTH_SE_MASK AND bth_flags se mig pad = 0 \<longleftrightarrow> se = 0"
  "BTH_MIG_MASK AND bth_flags se mig pad = 0 \<longleftrightarrow> mig = 0"
  "drop_bit 4 (BTH_PAD_MASK AND bth_flags se mig pad) = word_of_int pad AND 3"
  "BTH_TVER_MASK AND bth_flags se mig pad = 0"
proof -
  have d: "N AND bth_flags se mig pad = (push_bit 4 (word_of_int pad) AND (N AND BTH_PAD_MASK))
      OR (if se \<noteq> 0 then N AND BTH_SE_MASK else 0) OR (if mig \<noteq> 0 then N AND BTH_MIG_MASK else 0)"
    for N :: u8
    by (simp add: bth_flags_def bit.conj_disj_distrib and.left_commute)
  show "BTH_SE_MASK AND bth_flags se mig pad = 0 \<longleftrightarrow> se = 0"
    "BTH_MIG_MASK AND bth_flags se mig pad = 0 \<longleftrightarrow> mig = 0"
    "BTH_TVER_MASK AND bth_flags se mig pad = 0"
    by (simp_all add: d)
  have "drop_bit 4 (push_bit 4 w AND 0x30) = w AND (3 :: u8)" for w :: u8
  proof -
    have m: "(0x30 :: u8) = push_bit 4 (mask 2)" "(3 :: u8) = mask 2"
      by (simp_all add: mask_eq_exp_minus_1 push_bit_eq_mult)
    show ?thesis unfolding m by (auto simp: bit_eq_iff bit_simps)
  qed
  then show "drop_bit 4 (BTH_PAD_MASK AND bth_flags se mig pad) = word_of_int pad AND 3"
    by (simp add: d)
qed

lemma bth_init_fields:
  "let pkt' = bth_init pkt opcode se mig pad pkey qpn ack psn in
     bth_opcode pkt' = opcode \<and> bth_se pkt' = (if se \<noteq> 0 then 1 else 0)
     \<and> bth_mig pkt' = (if mig \<noteq> 0 then 1 else 0) \<and> bth_pad pkt' = word_of_int pad AND 3
     \<and> bth_tver pkt' = BTH_TVER \<and> bth_pkey pkt' = pkey \<and> bth_qpn pkt' = qpn AND BTH_QPN_MASK
     \<and> bth_fecn pkt' = 0 \<and> bth_becn pkt' = 0 \<and> bth_resv6a pkt' = 0
     \<and> bth_ack pkt' = (if ack \<noteq> 0 then 1 else 0) \<and> bth_psn pkt' = psn AND BTH_PSN_MASK
     \<and> {q. pkt_hdr pkt' q \<noteq> pkt_hdr pkt q} \<subseteq> {bth_ptr pkt ..< bth_ptr pkt + RXE_BTH_BYTES}"
proof -
  let ?pkt = "bth_init pkt opcode se mig pad pkey qpn ack psn"
  have masks: "(0xffffff :: u32) AND 0xffffff = 0xffffff" "(0x80000000 :: u32) AND 0xffffff = 0"
    by simp_all
  have a: "N AND ((v AND M) OR (if ack \<noteq> 0 then A else 0))
      = (v AND (N AND M)) OR (if ack \<noteq> 0 then N AND A else 0)" for N M A v :: u32
    by (simp add: bit.conj_disj_distrib and.left_commute)
  have b: "N AND (v AND M) = v AND (N AND M)" for N M v :: u32
    by (simp add: and.left_commute)
  have "pkt_hdr ?pkt q = pkt_hdr pkt q" if "q < bth_ptr pkt \<or> bth_ptr pkt + 12 \<le> q" for q
    using that by (auto simp: bth_init_bytes Let_def store_frame)
  then have "{q. pkt_hdr ?pkt q \<noteq> pkt_hdr pkt q} \<subseteq> {bth_ptr pkt ..< bth_ptr pkt + RXE_BTH_BYTES}"
    by (auto simp: not_less) (meson not_le)+
  then show ?thesis
    unfolding Let_def
    by (simp add: bth_defs bth_init_bytes Let_def load_store load_apart swab32_flag
        bth_flags_fields a b del: drop_bit_and drop_bit_or)
qed

text \<open>
  C10: a base transport header written by \<open>bth_init\<close> reads back field by field: opcode,
  solicited event, migration and acknowledge flags, pad count (two bits), partition key, the
  24-bit queue pair and sequence numbers, with version and reserved bits zero; and no byte
  outside the twelve bytes of the header changes.
\<close>

theorem bth_init_roundtrip:
  "let pkt' = bth_init pkt opcode se mig pad pkey qpn ack psn in
     bth_opcode pkt' = opcode \<and> bth_se pkt' = (if se \<noteq> 0 then 1 else 0)
     \<and> bth_mig pkt' = (if mig \<noteq> 0 then 1 else 0) \<and> bth_pad pkt' = word_of_int pad AND 3
     \<and> bth_tver pkt' = BTH_TVER \<and> bth_pkey pkt' = pkey \<and> bth_qpn pkt' = qpn AND BTH_QPN_MASK
     \<and> bth_fecn pkt' = 0 \<and> bth_becn pkt' = 0 \<and> bth_resv6a pkt' = 0
     \<and> bth_ack pkt' = (if ack \<noteq> 0 then 1 else 0) \<and> bth_psn pkt' = psn AND BTH_PSN_MASK
     \<and> {q. pkt_hdr pkt' q \<noteq> pkt_hdr pkt q} \<subseteq> {bth_ptr pkt ..< bth_ptr pkt + RXE_BTH_BYTES}"
  by (rule bth_init_fields)

text \<open>
  A setter of a base header field changes that field and no other: the 24-bit numbers next to
  the acknowledge and congestion flags in the same word, and the flags that share a byte, keep
  their values.
\<close>

theorem bth_setters_independent:
  "bth_view (bth_set_opcode pkt v8) = (bth_view pkt)[0 := ucast v8]
   \<and> bth_view (bth_set_se pkt i) = (bth_view pkt)[1 := if i \<noteq> 0 then 1 else 0]
   \<and> bth_view (bth_set_mig pkt v8) = (bth_view pkt)[2 := if v8 \<noteq> 0 then 1 else 0]
   \<and> bth_view (bth_set_pad pkt v8) = (bth_view pkt)[3 := ucast (v8 AND 3)]
   \<and> bth_view (bth_set_tver pkt v8) = (bth_view pkt)[4 := ucast (v8 AND BTH_TVER_MASK)]
   \<and> bth_view (bth_set_pkey pkt v16) = (bth_view pkt)[5 := ucast v16]
   \<and> bth_view (bth_set_qpn pkt v32) = (bth_view pkt)[6 := v32 AND BTH_QPN_MASK]
   \<and> bth_view (bth_set_fecn pkt i) = (bth_view pkt)[7 := if i \<noteq> 0 then 1 else 0]
   \<and> bth_view (bth_set_becn pkt i) = (bth_view pkt)[8 := if i \<noteq> 0 then 1 else 0]
   \<and> bth_view (bth_set_ack pkt i) = (bth_view pkt)[10 := if i \<noteq> 0 then 1 else 0]
   \<and> bth_view (bth_set_psn pkt v32) = (bth_view pkt)[11 := v32 AND BTH_PSN_MASK]"
proof -
  have pad: "drop_bit 4 (BTH_PAD_MASK AND push_bit 4 w) = w AND 3" for w :: u8
  proof -
    have m: "(0x30 :: u8) = push_bit 4 (mask 2)" "(3 :: u8) = mask 2"
      by (simp_all add: mask_eq_exp_minus_1 push_bit_eq_mult)
    show ?thesis unfolding m by (auto simp: bit_eq_iff bit_simps)
  qed
  note simps = bth_view_def bth_defs bth_set_defs load_store load_apart swab32_flag swab32_update
    bth_mask_fields and.commute [of _ "0xffffff"] and.commute [of _ "0x0f"] pad
  show ?thesis
    by (intro conjI; simp add: simps del: drop_bit_and drop_bit_or)
qed

subsection \<open>Extension headers\<close>

text \<open>The fields of an extension header, and its setters at a value.\<close>

fun hdr_view :: "rxe_hdr_type \<Rightarrow> rxe_pkt_info \<Rightarrow> u64 list" where
  "hdr_view RXE_RETH pkt = [reth_va pkt, ucast (reth_rkey pkt), ucast (reth_len pkt)]"
| "hdr_view RXE_AETH pkt = [ucast (aeth_syn pkt), ucast (aeth_msn pkt)]"
| "hdr_view RXE_ATMETH pkt =
     [atmeth_va pkt, ucast (atmeth_rkey pkt), atmeth_swap_add pkt, atmeth_comp pkt]"
| "hdr_view RXE_ATMACK pkt = [atmack_orig pkt]"
| "hdr_view RXE_IETH pkt = [ucast (ieth_rkey pkt)]"
| "hdr_view RXE_RDETH pkt = [ucast (rdeth_een pkt)]"
| "hdr_view RXE_DETH pkt = [ucast (deth_qkey pkt), ucast (deth_sqp pkt)]"
| "hdr_view RXE_IMMDT pkt = [ucast (immdt_imm pkt)]"
| "hdr_view _ pkt = []"

fun hdr_setters :: "rxe_hdr_type \<Rightarrow> u64 \<Rightarrow> (rxe_pkt_info \<Rightarrow> rxe_pkt_info) list" where
  "hdr_setters RXE_RETH v = [\<lambda>pkt. reth_set_va pkt v, \<lambda>pkt. reth_set_rkey pkt (ucast v),
     \<lambda>pkt. reth_set_len pkt (ucast v)]"
| "hdr_setters RXE_AETH v = [\<lambda>pkt. aeth_set_syn pkt (ucast v), \<lambda>pkt. aeth_set_msn pkt (ucast v)]"
| "hdr_setters RXE_ATMETH v = [\<lambda>pkt. atmeth_set_va pkt v, \<lambda>pkt. atmeth_set_rkey pkt (ucast v),
     \<lambda>pkt. atmeth_set_swap_add pkt v, \<lambda>pkt. atmeth_set_comp pkt v]"
| "hdr_setters RXE_ATMACK v = [\<lambda>pkt. atmack_set_orig pkt v]"
| "hdr_setters RXE_IETH v = [\<lambda>pkt. ieth_set_rkey pkt (ucast v)]"
| "hdr_setters RXE_RDETH v = [\<lambda>pkt. rdeth_set_een pkt (ucast v)]"
| "hdr_setters RXE_DETH v = [\<lambda>pkt. deth_set_qkey pkt (ucast v), \<lambda>pkt. deth_set_sqp pkt (ucast v)]"
| "hdr_setters RXE_IMMDT v = [\<lambda>pkt. immdt_set_imm pkt (ucast v)]"
| "hdr_setters _ v = []"

definition pkt_hdrs :: "rxe_pkt_info \<Rightarrow> rxe_hdr_type list" where
  "pkt_hdrs pkt = ext_hdrs (oi_mask (rxe_opcode (pkt_opcode pkt)))"

lemmas ext_defs = reth_va_def reth_va_at_def reth_rkey_def reth_rkey_at_def reth_len_def
  reth_len_at_def aeth_syn_def aeth_syn_at_def aeth_msn_def aeth_msn_at_def atmeth_va_def
  atmeth_va_at_def atmeth_rkey_def atmeth_rkey_at_def atmeth_swap_add_def atmeth_swap_add_at_def
  atmeth_comp_def atmeth_comp_at_def atmack_orig_def atmack_orig_at_def ieth_rkey_def
  ieth_rkey_at_def rdeth_een_def rdeth_een_at_def deth_qkey_def deth_qkey_at_def deth_sqp_def
  deth_sqp_at_def immdt_imm_def immdt_imm_at_def

lemmas ext_set_defs = reth_set_va_def reth_set_va_at_def reth_set_rkey_def reth_set_rkey_at_def
  reth_set_len_def reth_set_len_at_def aeth_set_syn_def aeth_set_syn_at_def aeth_set_msn_def
  aeth_set_msn_at_def atmeth_set_va_def atmeth_set_va_at_def atmeth_set_rkey_def
  atmeth_set_rkey_at_def atmeth_set_swap_add_def atmeth_set_swap_add_at_def atmeth_set_comp_def
  atmeth_set_comp_at_def atmack_set_orig_def atmack_set_orig_at_def ieth_set_rkey_def
  ieth_set_rkey_at_def rdeth_set_een_def rdeth_set_een_at_def deth_set_qkey_def
  deth_set_qkey_at_def deth_set_sqp_def deth_set_sqp_at_def immdt_set_imm_def immdt_set_imm_at_def

text \<open>A setter of a header writes inside that header only, and a view reads inside only.\<close>

lemma setter_frame:
  assumes "f \<in> set (hdr_setters g v)"
  shows "\<exists>m. f pkt = pkt\<lparr>pkt_hdr := m\<rparr>
    \<and> (\<forall>q. q < hdr_ptr g pkt \<or> hdr_ptr g pkt + hdr_bytes g \<le> q \<longrightarrow> m q = pkt_hdr pkt q)"
  using assms by (cases g) (auto simp: ext_set_defs store_frame)

lemma loads_local:
  assumes "\<And>q. a \<le> q \<Longrightarrow> q < b \<Longrightarrow> m q = m' q"
  shows "a \<le> p \<Longrightarrow> p + 1 \<le> b \<Longrightarrow> load8 m p = load8 m' p"
    "a \<le> p \<Longrightarrow> p + 2 \<le> b \<Longrightarrow> load16 m p = load16 m' p"
    "a \<le> p \<Longrightarrow> p + 4 \<le> b \<Longrightarrow> load32 m p = load32 m' p"
    "a \<le> p \<Longrightarrow> p + 8 \<le> b \<Longrightarrow> load64 m p = load64 m' p"
  by (rule f8.get_local f16.get_local f32.get_local f64.get_local, rule assms, linarith, linarith)+

lemma hdr_view_local:
  assumes "\<And>q. hdr_ptr h pkt \<le> q \<Longrightarrow> q < hdr_ptr h pkt + hdr_bytes h \<Longrightarrow> m q = pkt_hdr pkt q"
  shows "hdr_view h (pkt\<lparr>pkt_hdr := m\<rparr>) = hdr_view h pkt"
proof -
  note loads_local [of "hdr_ptr h pkt" "hdr_ptr h pkt + hdr_bytes h" m "pkt_hdr pkt", OF assms]
  then show ?thesis by (cases h) (simp_all add: ext_defs)
qed

lemma bth_view_local:
  assumes "\<And>q. bth_ptr pkt \<le> q \<Longrightarrow> q < bth_ptr pkt + RXE_BTH_BYTES \<Longrightarrow> m q = pkt_hdr pkt q"
  shows "bth_view (pkt\<lparr>pkt_hdr := m\<rparr>) = bth_view pkt"
  by (simp add: bth_view_def bth_defs
      loads_local [of "bth_ptr pkt" "bth_ptr pkt + RXE_BTH_BYTES" m "pkt_hdr pkt", OF assms])

lemma hdr_layout:
  assumes "oi_name (rxe_opcode (pkt_opcode pkt)) \<noteq> None" and "g \<in> set (pkt_hdrs pkt)"
  shows "bth_ptr pkt + RXE_BTH_BYTES \<le> hdr_ptr g pkt"
    and "h \<in> set (pkt_hdrs pkt) \<Longrightarrow> g \<noteq> h \<Longrightarrow> hdr_ptr g pkt + hdr_bytes g \<le> hdr_ptr h pkt
      \<or> hdr_ptr h pkt + hdr_bytes h \<le> hdr_ptr g pkt"
proof -
  have "hdrs_tile (rxe_opcode (pkt_opcode pkt))"
    using rxe_opcode_in_table [OF assms(1)] opcode_table_tiles by (auto simp: list_all_iff)
  then show "bth_ptr pkt + RXE_BTH_BYTES \<le> hdr_ptr g pkt"
    and "h \<in> set (pkt_hdrs pkt) \<Longrightarrow> g \<noteq> h \<Longrightarrow> hdr_ptr g pkt + hdr_bytes g \<le> hdr_ptr h pkt
      \<or> hdr_ptr h pkt + hdr_bytes h \<le> hdr_ptr g pkt"
    using assms(2) by (auto simp: hdrs_tile_def pkt_hdrs_def list_all_iff bth_ptr_def hdr_ptr_def
      hdr_apart_def)
qed

text \<open>
  C28: the extension headers of a packet do not interfere. Through the offsets of the opcode table,
  a setter of one header that the packet's opcode announces changes no field of another announced
  header and no field of the base header.
\<close>

theorem ext_headers_independent:
  assumes "oi_name (rxe_opcode (pkt_opcode pkt)) \<noteq> None"
    and "g \<in> set (pkt_hdrs pkt)" and "h \<in> set (pkt_hdrs pkt)" and "g \<noteq> h"
    and "f \<in> set (hdr_setters g v)"
  shows "hdr_view h (f pkt) = hdr_view h pkt \<and> bth_view (f pkt) = bth_view pkt"
proof -
  obtain m where f: "f pkt = pkt\<lparr>pkt_hdr := m\<rparr>"
    and m: "q < hdr_ptr g pkt \<or> hdr_ptr g pkt + hdr_bytes g \<le> q \<Longrightarrow> m q = pkt_hdr pkt q" for q
    using setter_frame [OF assms(5), of pkt] by blast
  note layout = hdr_layout [OF assms(1,2)]
  have "hdr_view h (pkt\<lparr>pkt_hdr := m\<rparr>) = hdr_view h pkt"
    using layout(2) [OF assms(3,4)] by (intro hdr_view_local m) linarith
  moreover have "bth_view (pkt\<lparr>pkt_hdr := m\<rparr>) = bth_view pkt"
    using layout(1) by (intro bth_view_local m) linarith
  ultimately show ?thesis by (simp add: f)
qed

definition sample_pkt :: rxe_pkt_info where
  "sample_pkt = \<lparr>pkt_hdr = (\<lambda>_. 0), pkt_mask = 0, pkt_psn = 0, pkt_pkey_index = 0, pkt_paylen = 0,
     pkt_port_num = 1, pkt_opcode = IB_OPCODE_RC_RDMA_WRITE_ONLY_WITH_IMMEDIATE, pkt_offset = 40\<rparr>"

lemma sample_pkt_hdrs:
  "oi_name (rxe_opcode (pkt_opcode sample_pkt)) \<noteq> None" "pkt_hdrs sample_pkt = [RXE_RETH, RXE_IMMDT]"
  by code_simp+

theorem ext_headers_independent_witness:
  "hdr_view RXE_IMMDT (reth_set_len sample_pkt 7) = hdr_view RXE_IMMDT sample_pkt"
  using ext_headers_independent [OF sample_pkt_hdrs(1), of RXE_RETH RXE_IMMDT
      "\<lambda>pkt. reth_set_len pkt (ucast (7 :: u64))" 7]
  by (simp add: sample_pkt_hdrs)

text \<open>
  Every extension header field reads back what its setter stored, truncated to the width of
  the field, and the setter keeps the other fields of its header. The exception is
  \<open>rdeth_een\<close>, which returns only the low eight bits of the 24-bit number.
\<close>

theorem ext_setters_roundtrip:
  "hdr_view RXE_RETH (reth_set_va pkt v) = (hdr_view RXE_RETH pkt)[0 := v]
   \<and> hdr_view RXE_RETH (reth_set_rkey pkt w) = (hdr_view RXE_RETH pkt)[1 := ucast w]
   \<and> hdr_view RXE_RETH (reth_set_len pkt w) = (hdr_view RXE_RETH pkt)[2 := ucast w]
   \<and> hdr_view RXE_ATMETH (atmeth_set_va pkt v) = (hdr_view RXE_ATMETH pkt)[0 := v]
   \<and> hdr_view RXE_ATMETH (atmeth_set_rkey pkt w) = (hdr_view RXE_ATMETH pkt)[1 := ucast w]
   \<and> hdr_view RXE_ATMETH (atmeth_set_swap_add pkt v) = (hdr_view RXE_ATMETH pkt)[2 := v]
   \<and> hdr_view RXE_ATMETH (atmeth_set_comp pkt v) = (hdr_view RXE_ATMETH pkt)[3 := v]
   \<and> hdr_view RXE_AETH (aeth_set_syn pkt b) = (hdr_view RXE_AETH pkt)[0 := ucast b]
   \<and> hdr_view RXE_AETH (aeth_set_msn pkt w) = (hdr_view RXE_AETH pkt)[1 := ucast (w AND AETH_MSN_MASK)]
   \<and> hdr_view RXE_DETH (deth_set_qkey pkt w) = (hdr_view RXE_DETH pkt)[0 := ucast w]
   \<and> hdr_view RXE_DETH (deth_set_sqp pkt w) = (hdr_view RXE_DETH pkt)[1 := ucast (w AND DETH_SQP_MASK)]
   \<and> hdr_view RXE_ATMACK (atmack_set_orig pkt v) = [v]
   \<and> hdr_view RXE_IETH (ieth_set_rkey pkt w) = [ucast w]
   \<and> hdr_view RXE_IMMDT (immdt_set_imm pkt w) = [ucast w]
   \<and> hdr_view RXE_RDETH (rdeth_set_een pkt w) = [ucast (ucast w :: u8)]"
proof -
  have syn: "ucast (drop_bit 24 (0xff000000 AND push_bit 24 (ucast b :: u32))) = b" for b :: u8
  proof -
    have m: "(0xff000000 :: u32) = push_bit 24 (mask 8)"
      by (simp add: mask_eq_exp_minus_1 push_bit_eq_mult)
    show ?thesis unfolding m by (rule bit_word_eqI) (auto simp: bit_simps)
  qed
  have een: "ucast (0xffffff AND w) = (ucast w :: u8)" for w :: u32
  proof -
    have m: "(0xffffff :: u32) = mask 24" by (simp add: mask_eq_exp_minus_1)
    show ?thesis unfolding m by (rule bit_word_eqI) (auto simp: bit_simps)
  qed
  note merges = mask_merge [of "0xff000000 :: u32", simplified]
    mask_merge [of "0x00ffffff :: u32", simplified]
    mask_merge_other [of "0xff000000 :: u32" "0x00ffffff", simplified]
    mask_merge_other [of "0x00ffffff :: u32" "0xff000000", simplified]
  show ?thesis
    by (intro conjI; simp add: ext_defs ext_set_defs load_store load_apart merges syn een
        and.commute [of _ "0xffffff"] del: drop_bit_and drop_bit_or)
qed

end
