(* ===== verification/Rxe_Crc.thy ===== *)
theory Rxe_Crc
  imports Rxe_Bytes
begin

text \<open>
  The CRC of \<open>src/linux/lib/crc32.c\<close> that the driver computes over every packet: the
  bit-serial branch, which is the definition of the code, the table that
  \<open>gen_crc32table.c\<close> generates, and the slicing-by-8 routine \<open>crc32_body\<close> that
  the board's kernel configuration selects. The routine is shown equal to the definition for
  every alignment of the buffer.
\<close>

subsection \<open>Bit by bit (CRC_LE_BITS == 1)\<close>

abbreviation (input) CRCPOLY_LE :: u32 where "CRCPOLY_LE \<equiv> 0xedb88320"

definition crc_bit :: "u32 \<Rightarrow> u32 \<Rightarrow> u32" where
  "crc_bit polynomial crc = drop_bit 1 crc XOR (if crc AND 1 \<noteq> 0 then polynomial else 0)"

definition crc_byte :: "u32 \<Rightarrow> u32 \<Rightarrow> u32" where
  "crc_byte polynomial crc = (crc_bit polynomial ^^ 8) crc"

definition crc32_le_serial :: "u32 \<Rightarrow> u32 \<Rightarrow> u8 list \<Rightarrow> u32" where
  "crc32_le_serial polynomial crc p =
     foldl (\<lambda>crc x. crc_byte polynomial (crc XOR ucast x)) crc p"

subsection \<open>The generated table\<close>

text \<open>One round of the first loop: \<open>tab[0][i + j]\<close> for every multiple \<open>j\<close> of
  \<open>2 * i\<close> below 256.\<close>

definition init_le_round :: "u32 \<Rightarrow> u32 \<times> u32 list \<Rightarrow> nat \<Rightarrow> u32 \<times> u32 list" where
  "init_le_round polynomial st i = (case st of (crc, tab) \<Rightarrow>
     let crc = crc_bit polynomial crc
     in (crc, fold (\<lambda>k tab. tab[i + 2 * i * k := crc XOR tab ! (2 * i * k)]) [0..<256 div (2 * i)] tab))"

definition init_le_row0 :: "u32 \<Rightarrow> u32 list" where
  "init_le_row0 polynomial =
     snd (foldl (init_le_round polynomial) (1, replicate 256 0) [128, 64, 32, 16, 8, 4, 2, 1])"

text \<open>The second loop: the entries \<open>tab[1][i]\<close>, \<open>tab[2][i]\<close>, ... of one column.\<close>

fun init_le_column :: "u32 list \<Rightarrow> nat \<Rightarrow> u32 \<Rightarrow> u32 list" where
  "init_le_column row0 0 crc = []"
| "init_le_column row0 (Suc n) crc =
     (let crc = row0 ! unat (crc AND 0xff) XOR drop_bit 8 crc in crc # init_le_column row0 n crc)"

text \<open>The table by columns: entry \<open>j\<close> of column \<open>i\<close> is \<open>tab[j][i]\<close>.\<close>

definition crc32init_le_generic :: "u32 \<Rightarrow> u32 list list" where
  "crc32init_le_generic polynomial = (let row0 = init_le_row0 polynomial in
     map (\<lambda>i. row0 ! i # init_le_column row0 7 (row0 ! i)) [0..<256])"

subsection \<open>Slicing by 8 (CRC_LE_BITS == 64)\<close>

definition tab_at :: "u32 list list \<Rightarrow> nat \<Rightarrow> u32 \<Rightarrow> u32" where
  "tab_at tab j x = tab ! unat (x AND 255) ! j"

definition do_crc :: "u32 list list \<Rightarrow> u32 \<Rightarrow> u8 \<Rightarrow> u32" where
  "do_crc tab crc x = tab_at tab 0 (crc XOR ucast x) XOR drop_bit 8 crc"

definition do_crc4 :: "u32 list list \<Rightarrow> u32 \<Rightarrow> u32" where
  "do_crc4 tab q = tab_at tab 3 q XOR tab_at tab 2 (drop_bit 8 q)
     XOR tab_at tab 1 (drop_bit 16 q) XOR tab_at tab 0 (drop_bit 24 q)"

definition do_crc8 :: "u32 list list \<Rightarrow> u32 \<Rightarrow> u32" where
  "do_crc8 tab q = tab_at tab 7 q XOR tab_at tab 6 (drop_bit 8 q)
     XOR tab_at tab 5 (drop_bit 16 q) XOR tab_at tab 4 (drop_bit 24 q)"

text \<open>A word as the little-endian machine loads it from four bytes.\<close>

definition le32 :: "u8 \<Rightarrow> u8 \<Rightarrow> u8 \<Rightarrow> u8 \<Rightarrow> u32" where
  "le32 b0 b1 b2 b3 =
     ucast b0 OR push_bit 8 (ucast b1) OR push_bit 16 (ucast b2) OR push_bit 24 (ucast b3)"

text \<open>The alignment loop consumes bytes while the address is no multiple of 4.\<close>

fun crc_align :: "u32 list list \<Rightarrow> u32 \<Rightarrow> nat \<Rightarrow> u8 list \<Rightarrow> u32 \<times> u8 list" where
  "crc_align tab crc buf [] = (crc, [])"
| "crc_align tab crc buf (x # p) =
     (if buf mod 4 \<noteq> 0 then crc_align tab (do_crc tab crc x) (buf + 1) p else (crc, x # p))"

fun crc_words :: "u32 list list \<Rightarrow> nat \<Rightarrow> u32 \<Rightarrow> u8 list \<Rightarrow> u32 \<times> u8 list" where
  "crc_words tab 0 crc p = (crc, p)"
| "crc_words tab (Suc len) crc p =
     (let q = crc XOR le32 (p ! 0) (p ! 1) (p ! 2) (p ! 3);
          crc = do_crc8 tab q;
          q = le32 (p ! 4) (p ! 5) (p ! 6) (p ! 7);
          crc = crc XOR do_crc4 tab q
      in crc_words tab len crc (drop 8 p))"

definition crc32_body :: "u32 \<Rightarrow> nat \<Rightarrow> u8 list \<Rightarrow> u32 list list \<Rightarrow> u32" where
  "crc32_body crc buf p tab =
     (let (crc, p) = crc_align tab crc buf p;
          (crc, p) = crc_words tab (length p div 8) crc p
      in foldl (do_crc tab) crc p)"

text \<open>\<open>cpu_to_le32\<close> and \<open>le32_to_cpu\<close> around the body are the identity on this machine.\<close>

definition crc32_le :: "u32 \<Rightarrow> nat \<Rightarrow> u8 list \<Rightarrow> u32" where
  "crc32_le crc buf p = crc32_body crc buf p (crc32init_le_generic CRCPOLY_LE)"

subsection \<open>The bit step is linear\<close>

lemma crc_bit_xor: "crc_bit poly (x XOR y) = crc_bit poly x XOR crc_bit poly y"
  by (auto simp: crc_bit_def and_one_eq odd_iff_mod_2_eq_one [symmetric] even_xor_iff drop_bit_xor
    xor.assoc xor.left_commute)

lemma crc_bits_xor: "(crc_bit poly ^^ n) (x XOR y) = (crc_bit poly ^^ n) x XOR (crc_bit poly ^^ n) y"
  by (induction n) (simp_all add: crc_bit_xor)

lemma crc_bits_0 [simp]: "(crc_bit poly ^^ n) 0 = 0"
  by (induction n) (simp_all add: crc_bit_def)

text \<open>While the low bits are zero the step is a shift.\<close>

lemma crc_bit_even: "even x \<Longrightarrow> crc_bit poly x = drop_bit 1 x"
  by (simp add: crc_bit_def and_one_eq even_iff_mod_2_eq_zero)

lemma crc_bits_shift: "take_bit n x = 0 \<Longrightarrow> (crc_bit poly ^^ n) x = drop_bit n x"
proof (induction n arbitrary: x)
  case (Suc n)
  have "\<not> bit (take_bit (Suc n) x) 0" by (simp add: Suc.prems)
  then have "even x" by (simp add: bit_simps bit_0)
  moreover have "take_bit n (drop_bit 1 x) = 0"
    using Suc.prems by (metis drop_bit_take_bit drop_bit_of_0 diff_Suc_1' One_nat_def)
  ultimately show ?case using Suc.IH [of "drop_bit 1 x"]
    by (simp add: funpow_Suc_right crc_bit_even del: funpow.simps)
qed simp

lemma crc_byte_xor: "crc_byte poly (x XOR y) = crc_byte poly x XOR crc_byte poly y"
  by (simp add: crc_byte_def crc_bits_xor)

lemma crc_bytes_xor:
  "(crc_byte poly ^^ n) (x XOR y) = (crc_byte poly ^^ n) x XOR (crc_byte poly ^^ n) y"
  by (induction n) (simp_all add: crc_byte_xor)

lemma crc_byte_shift: "take_bit 8 x = 0 \<Longrightarrow> crc_byte poly x = drop_bit 8 x"
  by (simp add: crc_byte_def crc_bits_shift)

lemma xor_split_low: "(x :: u32) = take_bit n x XOR push_bit n (drop_bit n x)"
  by (rule bit_word_eqI) (auto simp: bit_simps)

lemma crc_byte_split: "crc_byte poly x = crc_byte poly (take_bit 8 x) XOR drop_bit 8 x"
proof -
  have "crc_byte poly (push_bit 8 (drop_bit 8 x)) = drop_bit 8 x"
    by (subst crc_byte_shift)
      (auto simp: take_bit_push_bit bit_simps intro!: bit_word_eqI, drule bit_imp_le_length, simp)
  then show ?thesis by (subst xor_split_low [of x 8]) (simp add: crc_byte_xor)
qed

text \<open>A byte that enters below the shifted remainder could have entered a byte earlier.\<close>

lemma crc_byte_feed: "crc_byte poly x XOR ucast (b :: u8) = crc_byte poly (x XOR push_bit 8 (ucast b))"
proof -
  have "crc_byte poly (push_bit 8 (ucast b)) = (ucast b :: u32)"
    by (subst crc_byte_shift)
      (auto simp: take_bit_push_bit bit_simps intro!: bit_word_eqI, drule bit_imp_le_length, simp)
  then show ?thesis by (simp add: crc_byte_xor)
qed

subsection \<open>The table holds the remainders of the bytes\<close>

lemma init_fold_nth:
  assumes "0 < i"
  shows "j < length tab \<Longrightarrow> 2 * i * n \<le> length tab \<Longrightarrow>
    fold (\<lambda>k tab. tab[i + 2 * i * k := c XOR tab ! (2 * i * k)]) [0..<n] tab ! j
      = (if \<exists>k<n. j = i + 2 * i * k then c XOR tab ! (j - i) else tab ! j)"
    and "length (fold (\<lambda>k tab. tab[i + 2 * i * k := c XOR tab ! (2 * i * k)]) [0..<n] tab) = length tab"
proof (induction n arbitrary: j)
  case (Suc n)
  let ?f = "fold (\<lambda>k tab. tab[i + 2 * i * k := c XOR tab ! (2 * i * k)]) [0..<n] tab"
  show len: "length (fold (\<lambda>k tab. tab[i + 2 * i * k := c XOR tab ! (2 * i * k)]) [0..<Suc n] tab) = length tab"
    using Suc.IH(2) by simp
  {
    case 1
    have "2 * i * n < length tab" using 1(2) assms by simp
    moreover have "\<not> (\<exists>k<n. 2 * i * n = i + 2 * i * k)"
    proof
      assume "\<exists>k<n. 2 * i * n = i + 2 * i * k"
      then obtain k where "i * (2 * n) = i * (1 + 2 * k)" by (auto simp: algebra_simps)
      then have "2 * n = 1 + 2 * k" by (simp only: nat_mult_eq_cancel1 [OF assms])
      then show False by presburger
    qed
    ultimately have src: "?f ! (2 * i * n) = tab ! (2 * i * n)" using Suc.IH(1) [of "2 * i * n"] 1(2) by (auto split: if_splits)
    show ?case
    proof (cases "j = i + 2 * i * n")
      case True
      then show ?thesis using 1 src Suc.IH(2) by auto
    next
      case False
      then have "(\<exists>k<Suc n. j = i + 2 * i * k) \<longleftrightarrow> (\<exists>k<n. j = i + 2 * i * k)"
        using less_Suc_eq by auto
      then show ?thesis using 1 False Suc.IH(1) [of j] by simp
    qed
  }
qed simp_all

lemma of_nat_pow_xor: "of_nat (2 ^ m + 2 * 2 ^ m * k) = (of_nat (2 ^ m) XOR of_nat (2 * 2 ^ m * k) :: u32)"
proof -
  have *: "of_nat (2 * 2 ^ m * k) = (push_bit (Suc m) (of_nat k) :: u32)"
    "of_nat (2 ^ m) = (push_bit m 1 :: u32)"
    by (simp_all add: push_bit_eq_mult mult.commute)
  have "push_bit m 1 AND (push_bit (Suc m) (of_nat k)) = (0 :: u32)"
    by (rule bit_word_eqI) (auto simp: bit_simps bit_0)
  then show ?thesis unfolding of_nat_add * by (simp add: disjunctive_add_eq_or disjunctive_xor_eq_or)
qed

lemma crc_byte_pow: "m < 8 \<Longrightarrow> crc_byte poly (of_nat (2 ^ m)) = (crc_bit poly ^^ (8 - m)) 1"
proof -
  assume "m < 8"
  then have "(crc_bit poly ^^ 8) = (crc_bit poly ^^ (8 - m)) \<circ> (crc_bit poly ^^ m)"
    by (simp flip: funpow_add)
  moreover have "(crc_bit poly ^^ m) (push_bit m 1) = 1" using \<open>m < 8\<close>
    by (subst crc_bits_shift) (auto simp: take_bit_push_bit bit_simps intro!: bit_word_eqI)
  ultimately show ?thesis by (simp add: crc_byte_def push_bit_eq_mult)
qed

definition row_upto :: "u32 \<Rightarrow> nat \<Rightarrow> u32 list \<Rightarrow> bool" where
  "row_upto poly i tab \<longleftrightarrow> length tab = 256
     \<and> (\<forall>j<256. i dvd j \<longrightarrow> tab ! j = crc_byte poly (of_nat j))"

lemma init_le_round_upto:
  assumes "m < 8" and "row_upto poly (2 * 2 ^ m) tab" and "crc = (crc_bit poly ^^ (7 - m)) 1"
  shows "case init_le_round poly (crc, tab) (2 ^ m) of (crc', tab') \<Rightarrow>
    crc' = (crc_bit poly ^^ (8 - m)) 1 \<and> row_upto poly (2 ^ m) tab'"
proof -
  let ?i = "2 ^ m :: nat" and ?c = "(crc_bit poly ^^ (8 - m)) 1"
  define tab' where "tab' = fold (\<lambda>k tab. tab[?i + 2 * ?i * k := ?c XOR tab ! (2 * ?i * k)])
    [0..<256 div (2 * ?i)] tab"
  have len: "length tab = 256" using assms(2) by (simp add: row_upto_def)
  have "8 - m = Suc (7 - m)" using assms(1) by simp
  then have c: "crc_bit poly crc = ?c" using assms(3) by simp
  have i: "2 * ?i * (256 div (2 * ?i)) = 256"
  proof -
    have "(256 :: nat) = 2 * ?i * 2 ^ (7 - m)" using assms(1) by (simp flip: power_add power_Suc)
    then show ?thesis by (metis dvd_mult_div_cancel dvd_triv_left)
  qed
  have "tab' ! j = crc_byte poly (of_nat j)" if j: "j < 256" "?i dvd j" for j
  proof (cases "\<exists>k. j = ?i + 2 * ?i * k")
    case True
    then obtain k where k: "j = ?i + 2 * ?i * k" ..
    then have "2 * ?i * k < 2 * ?i * (256 div (2 * ?i))" using j i by linarith
    then have "k < 256 div (2 * ?i)" by simp
    then have "tab' ! j = ?c XOR tab ! (2 * ?i * k)"
      using init_fold_nth(1) [of ?i j tab "256 div (2 * ?i)" ?c] j len i k
      by (auto simp: tab'_def)
    also have "tab ! (2 * ?i * k) = crc_byte poly (of_nat (2 * ?i * k))"
    proof -
      have "2 * ?i * k < 256" using j k by linarith
      moreover have "2 * ?i dvd 2 * ?i * k" by (rule dvd_triv_left)
      ultimately show ?thesis using assms(2) unfolding row_upto_def by blast
    qed
    finally show ?thesis using k of_nat_pow_xor [of m k] crc_byte_pow [OF assms(1), of poly]
      by (simp add: crc_byte_xor)
  next
    case False
    from j obtain q where q: "j = ?i * q" by blast
    have "even q"
    proof (rule ccontr)
      assume "odd q"
      then obtain k where "q = 2 * k + 1" by (rule oddE)
      then have "j = ?i + 2 * ?i * k" using q by (simp add: algebra_simps)
      with False show False by blast
    qed
    then have "2 * ?i dvd j" using q by auto
    moreover have "tab' ! j = tab ! j"
      using init_fold_nth(1) [of ?i j tab "256 div (2 * ?i)" ?c] j len i False
      by (auto simp: tab'_def)
    ultimately show ?thesis using assms(2) j by (simp add: row_upto_def)
  qed
  moreover have "length tab' = 256" unfolding tab'_def by (subst init_fold_nth(2)) (simp_all add: len)
  ultimately show ?thesis by (simp add: init_le_round_def c row_upto_def tab'_def Let_def)
qed

lemma init_le_row0_nth:
  assumes "j < 256"
  shows "init_le_row0 poly ! j = crc_byte poly (of_nat j)"
proof -
  define z where "z = replicate 256 (0 :: u32)"
  have z: "length z = 256" "z ! 0 = 0" by (simp_all only: z_def length_replicate nth_replicate zero_less_numeral)
  have round: "\<exists>crc' tab'. init_le_round poly (crc, tab) (2 ^ m) = (crc', tab')
      \<and> crc' = (crc_bit poly ^^ (8 - m)) 1 \<and> row_upto poly (2 ^ m) tab'"
    if "m < 8" "crc = (crc_bit poly ^^ (7 - m)) 1" "row_upto poly (2 * 2 ^ m) tab" for m crc tab
    using init_le_round_upto [OF that(1,3,2)] by (auto split: prod.splits)
  have "\<exists>crc' tab'. foldl (init_le_round poly) (1, z) (map (\<lambda>k. 2 ^ (7 - k)) [0..<n]) = (crc', tab')
      \<and> crc' = (crc_bit poly ^^ n) 1 \<and> row_upto poly (2 ^ (8 - n)) tab'" if "n \<le> 8" for n
    using that
  proof (induction n)
    case 0
    have "z ! j = crc_byte poly (of_nat j)" if "256 dvd j" "j < 256" for j
    proof -
      have "j = 0" using that dvd_imp_le [of 256 j] by (cases "j = 0") simp_all
      then show ?thesis using z by (simp add: crc_byte_def)
    qed
    then have "row_upto poly 256 z" using z unfolding row_upto_def by blast
    then show ?case by simp
  next
    case (Suc n)
    then obtain crc tab where *: "foldl (init_le_round poly) (1, z) (map (\<lambda>k. 2 ^ (7 - k)) [0..<n]) = (crc, tab)"
      "crc = (crc_bit poly ^^ n) 1" "row_upto poly (2 ^ (8 - n)) tab" by auto
    from Suc.prems have "8 - n = Suc (7 - n)" "7 - (7 - n) = n" "8 - (7 - n) = Suc n" "8 - Suc n = 7 - n" by auto
    then show ?case using round [of "7 - n" crc tab] * by simp
  qed
  note this [of 8]
  moreover have "map (\<lambda>k. 2 ^ (7 - k)) [0..<8] = [128, 64, 32, 16, 8, 4, 2, 1 :: nat]"
    by (simp add: upt_rec)
  ultimately have "row_upto poly 1 (init_le_row0 poly)" by (auto simp: init_le_row0_def z_def [symmetric])
  then show ?thesis using assms by (simp add: row_upto_def)
qed

lemma row_step: "init_le_row0 poly ! unat (crc AND 0xff) XOR drop_bit 8 crc = crc_byte poly crc"
proof -
  have m: "(0xff :: u32) = mask 8" by (simp add: mask_eq_exp_minus_1)
  have "unat (take_bit 8 crc) < 256" by (simp add: unat_take_bit)
  then show ?thesis unfolding m and_mask_take_bit
    by (simp add: init_le_row0_nth crc_byte_split [of poly crc])
qed

lemma init_le_column_nth:
  "j < n \<Longrightarrow> init_le_column (init_le_row0 poly) n crc ! j = (crc_byte poly ^^ Suc j) crc"
proof (induction n arbitrary: j crc)
  case (Suc n)
  then show ?case by (cases j) (simp_all add: row_step Let_def funpow_swap1)
qed simp

lemma tab_at_crc:
  assumes "j < 8"
  shows "tab_at (crc32init_le_generic poly) j x = (crc_byte poly ^^ Suc j) (take_bit 8 x)"
proof -
  have m: "(255 :: u32) = mask 8" by (simp add: mask_eq_exp_minus_1)
  let ?r = "init_le_row0 poly" and ?i = "unat (x AND 255)"
  have i: "?i < 256" unfolding m and_mask_take_bit unat_take_bit by simp
  have "of_nat ?i = take_bit 8 x" by (simp add: m and_mask_take_bit)
  then have r: "?r ! ?i = crc_byte poly (take_bit 8 x)" using init_le_row0_nth [OF i] by simp
  have "crc32init_le_generic poly ! ?i = ?r ! ?i # init_le_column ?r 7 (?r ! ?i)"
    unfolding crc32init_le_generic_def Let_def using i by (subst nth_map) (simp_all del: upt_conv_Cons upt.simps)
  then show ?thesis using assms r init_le_column_nth [of "j - 1" 7 poly "?r ! ?i"]
    by (cases j) (simp_all add: tab_at_def funpow_swap1)
qed

subsection \<open>Slicing by 8 is the bit-serial code\<close>

lemma do_crc_eq: "do_crc (crc32init_le_generic poly) crc x = crc_byte poly (crc XOR ucast x)"
proof -
  have "drop_bit 8 (crc XOR ucast x) = drop_bit 8 crc"
    by (rule bit_word_eqI) (auto simp: bit_simps dest: bit_imp_le_length)
  then show ?thesis
    by (simp add: do_crc_def tab_at_crc crc_byte_split [of poly "crc XOR ucast x"])
qed

lemma word_bytes_xor: "(q :: u32) = take_bit 8 q XOR push_bit 8 (take_bit 8 (drop_bit 8 q))
    XOR push_bit 16 (take_bit 8 (drop_bit 16 q)) XOR push_bit 24 (take_bit 8 (drop_bit 24 q))"
  by (rule bit_word_eqI) (auto simp: bit_simps)

lemma crc_bytes_push:
  assumes "8 * k \<le> 24"
  shows "(crc_byte poly ^^ (k + n)) (push_bit (8 * k) (take_bit 8 x)) = (crc_byte poly ^^ n) (take_bit 8 x)"
  using assms
proof (induction k)
  case (Suc k)
  have "crc_byte poly (push_bit (8 * Suc k) (take_bit 8 x)) = push_bit (8 * k) (take_bit 8 x)"
    using Suc.prems by (subst crc_byte_shift)
      (auto simp: take_bit_push_bit bit_simps intro!: bit_word_eqI)
  then show ?case using Suc by (simp add: funpow_swap1)
qed simp

lemma do_crc4_eq: "do_crc4 (crc32init_le_generic poly) q = (crc_byte poly ^^ 4) q"
proof -
  have "(crc_byte poly ^^ 4) q = (crc_byte poly ^^ (0 + 4)) (push_bit (8 * 0) (take_bit 8 q))
      XOR (crc_byte poly ^^ (1 + 3)) (push_bit (8 * 1) (take_bit 8 (drop_bit 8 q)))
      XOR (crc_byte poly ^^ (2 + 2)) (push_bit (8 * 2) (take_bit 8 (drop_bit 16 q)))
      XOR (crc_byte poly ^^ (3 + 1)) (push_bit (8 * 3) (take_bit 8 (drop_bit 24 q)))"
    by (subst word_bytes_xor [of q]) (simp add: crc_bytes_xor del: funpow.simps)
  also have "\<dots> = do_crc4 (crc32init_le_generic poly) q"
    by (subst crc_bytes_push, simp)+ (simp add: do_crc4_def tab_at_crc numeral_eq_Suc)
  finally show ?thesis by simp
qed

lemma do_crc8_eq: "do_crc8 (crc32init_le_generic poly) q = (crc_byte poly ^^ 8) q"
proof -
  have "(crc_byte poly ^^ 8) q = (crc_byte poly ^^ (0 + 8)) (push_bit (8 * 0) (take_bit 8 q))
      XOR (crc_byte poly ^^ (1 + 7)) (push_bit (8 * 1) (take_bit 8 (drop_bit 8 q)))
      XOR (crc_byte poly ^^ (2 + 6)) (push_bit (8 * 2) (take_bit 8 (drop_bit 16 q)))
      XOR (crc_byte poly ^^ (3 + 5)) (push_bit (8 * 3) (take_bit 8 (drop_bit 24 q)))"
    by (subst word_bytes_xor [of q]) (simp add: crc_bytes_xor del: funpow.simps)
  also have "\<dots> = do_crc8 (crc32init_le_generic poly) q"
    by (subst crc_bytes_push, simp)+ (simp add: do_crc8_def tab_at_crc numeral_eq_Suc)
  finally show ?thesis by simp
qed

lemma le32_xor: "le32 b0 b1 b2 b3 = ucast b0 XOR push_bit 8 (ucast b1) XOR push_bit 16 (ucast b2)
    XOR push_bit 24 (ucast b3)"
  unfolding le32_def
  by (rule bit_word_eqI) (auto simp: bit_simps dest: bit_imp_le_length)

text \<open>Four bytes one by one are one word in four byte steps.\<close>

lemma crc_four_bytes: "crc_byte poly (crc_byte poly (crc_byte poly (crc_byte poly (crc XOR ucast b0)
    XOR ucast b1) XOR ucast b2) XOR ucast b3) = (crc_byte poly ^^ 4) (crc XOR le32 b0 b1 b2 b3)"
proof -
  have push: "crc_byte poly (push_bit (8 + n) (ucast b)) = push_bit n (ucast b :: u32)"
    if "n \<le> 16" for n and b :: u8
    using that by (subst crc_byte_shift)
      (auto simp: take_bit_push_bit bit_simps intro!: bit_word_eqI, drule bit_imp_le_length, simp)
  have "crc_byte poly (push_bit 16 (ucast b)) = push_bit 8 (ucast b :: u32)" for b :: u8
    using push [of 8 b] by simp
  moreover have "crc_byte poly (push_bit 24 (ucast b3)) = push_bit 16 (ucast b3)"
    using push [of 16 b3] by simp
  moreover have "(crc_byte poly ^^ 4) x = crc_byte poly (crc_byte poly (crc_byte poly (crc_byte poly x)))" for x
    by (simp add: numeral_eq_Suc)
  ultimately show ?thesis by (simp add: crc_byte_feed le32_xor crc_byte_xor xor.assoc)
qed

lemma list_nth8:
  assumes "8 \<le> length p"
  shows "p = p ! 0 # p ! 1 # p ! 2 # p ! 3 # p ! 4 # p ! 5 # p ! 6 # p ! 7 # drop 8 p"
proof -
  have d: "drop k p = p ! k # drop (Suc k) p" if "k < 8" for k
    using that assms by (simp add: Cons_nth_drop_Suc)
  have "p = p ! 0 # drop 1 p" using d [of 0] by simp
  also have "drop 1 p = p ! 1 # drop 2 p" using d [of 1] by (simp add: numeral_2_eq_2)
  also have "drop 2 p = p ! 2 # drop 3 p" using d [of 2] by simp
  also have "drop 3 p = p ! 3 # drop 4 p" using d [of 3] by simp
  also have "drop 4 p = p ! 4 # drop 5 p" using d [of 4] by simp
  also have "drop 5 p = p ! 5 # drop 6 p" using d [of 5] by simp
  also have "drop 6 p = p ! 6 # drop 7 p" using d [of 6] by simp
  also have "drop 7 p = p ! 7 # drop 8 p" using d [of 7] by simp
  finally show ?thesis .
qed

abbreviation (input) serial_step :: "u32 \<Rightarrow> u32 \<Rightarrow> u8 \<Rightarrow> u32" where
  "serial_step poly \<equiv> \<lambda>crc x. crc_byte poly (crc XOR ucast x)"

lemma crc_words_eq:
  assumes "8 * len \<le> length p"
  shows "case crc_words (crc32init_le_generic poly) len crc p of (crc', p') \<Rightarrow>
    foldl (serial_step poly) crc' p' = foldl (serial_step poly) crc p"
  using assms
proof (induction len arbitrary: crc p)
  case (Suc len)
  let ?q = "crc XOR le32 (p ! 0) (p ! 1) (p ! 2) (p ! 3)" and ?w = "le32 (p ! 4) (p ! 5) (p ! 6) (p ! 7)"
  have "foldl (serial_step poly) crc p
      = foldl (serial_step poly) ((crc_byte poly ^^ 4) ((crc_byte poly ^^ 4) ?q XOR ?w)) (drop 8 p)"
    using Suc.prems by (subst list_nth8 [of p]) (simp_all add: crc_four_bytes del: funpow.simps)
  also have "(crc_byte poly ^^ 4) ((crc_byte poly ^^ 4) ?q XOR ?w)
      = do_crc8 (crc32init_le_generic poly) ?q XOR do_crc4 (crc32init_le_generic poly) ?w"
    by (simp add: do_crc8_eq do_crc4_eq crc_bytes_xor flip: funpow_add [THEN fun_cong, unfolded comp_def])
  finally show ?case using Suc by (simp add: Let_def)
qed simp

lemma crc_align_eq: "case crc_align (crc32init_le_generic poly) crc buf p of (crc', p') \<Rightarrow>
    foldl (serial_step poly) crc' p' = foldl (serial_step poly) crc p"
  by (induction p arbitrary: crc buf) (simp_all add: do_crc_eq)

lemma crc32_le_eq: "crc32_le crc buf p = crc32_le_serial CRCPOLY_LE crc p"
proof -
  let ?t = "crc32init_le_generic CRCPOLY_LE"
  obtain crc1 p1 where 1: "crc_align ?t crc buf p = (crc1, p1)" by fastforce
  obtain crc2 p2 where 2: "crc_words ?t (length p1 div 8) crc1 p1 = (crc2, p2)" by fastforce
  have "do_crc ?t = serial_step CRCPOLY_LE" by (intro ext) (rule do_crc_eq)
  then show ?thesis
    using crc_align_eq [of CRCPOLY_LE crc p buf] crc_words_eq [of "length p1 div 8" p1 CRCPOLY_LE crc1] 1 2
    by (simp add: crc32_le_def crc32_body_def crc32_le_serial_def)
qed

text \<open>C14: The CRC routine the board runs, which aligns the buffer, takes eight bytes at a time
  through the generated table and finishes byte by byte, computes for every seed, every
  alignment and every buffer the code that the bit-serial definition gives with the CRC-32
  polynomial.\<close>

theorem crc32_le_is_serial: "crc32_le crc buf p = crc32_le_serial CRCPOLY_LE crc p"
  by (rule crc32_le_eq)

text \<open>The code of a buffer can be computed piece by piece, which is how the driver carries it
  through scattered memory.\<close>

lemma crc32_le_serial_append:
  "crc32_le_serial poly crc (p @ q) = crc32_le_serial poly (crc32_le_serial poly crc p) q"
  by (simp add: crc32_le_serial_def)

lemma crc32_le_serial_Nil [simp]: "crc32_le_serial poly crc [] = crc"
  by (simp add: crc32_le_serial_def)

lemma crc32_le_serial_Cons:
  "crc32_le_serial poly crc (x # p) = crc32_le_serial poly (crc_byte poly (crc XOR ucast x)) p"
  by (simp add: crc32_le_serial_def)

lemma crc_byte_unroll: "crc_byte poly x = crc_bit poly (crc_bit poly (crc_bit poly (crc_bit poly
    (crc_bit poly (crc_bit poly (crc_bit poly (crc_bit poly x)))))))"
  by (simp add: crc_byte_def numeral_eq_Suc)

lemma crc_masked_lrh: "crc32_le_serial CRCPOLY_LE 0xffffffff (replicate 8 0xff) = 0xdebb20e3"
proof -
  have "replicate 8 (0xff :: u8) = [0xff, 0xff, 0xff, 0xff, 0xff, 0xff, 0xff, 0xff]"
    by (simp add: numeral_eq_Suc)
  then show ?thesis by (simp add: crc32_le_serial_Cons crc_byte_unroll crc_bit_def)
qed

end
