(* ===== verification/Rxe_Icrc.thy ===== *)
theory Rxe_Icrc
  imports Rxe_Hdr Rxe_Crc
begin

text \<open>
  The invariant CRC of \<open>rxe_icrc.c\<close>. Routers may change some header fields on the way, so
  the code is computed over a copy of the headers in which those fields are all ones.
\<close>

subsection \<open>Buffers\<close>

definition bytes_list :: "bytes \<Rightarrow> int \<Rightarrow> nat \<Rightarrow> u8 list" where
  "bytes_list buf p n = map (\<lambda>k. buf (p + int k)) [0..<n]"

lemma length_bytes_list [simp]: "length (bytes_list buf p n) = n"
  by (simp add: bytes_list_def)

lemma nth_bytes_list [simp]: "k < n \<Longrightarrow> bytes_list buf p n ! k = buf (p + int k)"
  by (simp add: bytes_list_def)

lemma bytes_list_0 [simp]: "bytes_list buf p 0 = []"
  by (simp add: bytes_list_def)

lemma bytes_list_add: "bytes_list buf p (m + n) = bytes_list buf p m @ bytes_list buf (p + int m) n"
  by (rule nth_equalityI) (auto simp: nth_append)

lemma bytes_list_cong:
  "(\<And>k. k < n \<Longrightarrow> f (p + int k) = g (q + int k)) \<Longrightarrow> bytes_list f p n = bytes_list g q n"
  by (simp add: bytes_list_def)

subsection \<open>rxe_icrc.c\<close>

text \<open>The lengths that depend on which of the local and global route headers the packet has.\<close>

definition icrc_grh_offset :: "rxe_pkt_info \<Rightarrow> int" where
  "icrc_grh_offset pkt = (if pkt_mask pkt AND RXE_LRH_MASK \<noteq> 0 then RXE_LRH_BYTES else 0)"

definition icrc_bth_offset :: "rxe_pkt_info \<Rightarrow> int" where
  "icrc_bth_offset pkt = icrc_grh_offset pkt
     + (if pkt_mask pkt AND RXE_GRH_MASK \<noteq> 0 then RXE_GRH_BYTES else 0)"

text \<open>The temporary copy with the variant fields set to ones.\<close>

definition icrc_tmp :: "rxe_pkt_info \<Rightarrow> bytes" where
  "icrc_tmp pkt =
     (let g = icrc_grh_offset pkt; b = icrc_bth_offset pkt; tmp = pkt_hdr pkt;
          tmp = (if pkt_mask pkt AND RXE_GRH_MASK \<noteq> 0
            then tmp(g := tmp g OR 0x0f, g + 1 := 0xff, g + 2 := 0xff, g + 3 := 0xff, g + 7 := 0xff)
            else tmp)
      in tmp(b + 4 := 0xff))"

text \<open>\<open>tmp_addr\<close> and \<open>hdr_addr\<close> are the addresses of the two buffers.\<close>

definition rxe_icrc_hdr :: "nat \<Rightarrow> nat \<Rightarrow> rxe_pkt_info \<Rightarrow> u32" where
  "rxe_icrc_hdr tmp_addr hdr_addr pkt =
     (let len = RXE_BTH_BYTES + icrc_bth_offset pkt;
          g = icrc_grh_offset pkt;
          crc = crc32_le 0xdebb20e3 (tmp_addr + nat g) (bytes_list (icrc_tmp pkt) g (nat (len - g)))
      in crc32_le crc (hdr_addr + nat len) (bytes_list (pkt_hdr pkt) len
           (unat (word_of_int (oi_length (rxe_opcode (pkt_opcode pkt)) - RXE_BTH_BYTES) :: u32))))"

definition rxe_icrc_pkt :: "nat \<Rightarrow> nat \<Rightarrow> rxe_pkt_info \<Rightarrow> u32" where
  "rxe_icrc_pkt tmp_addr hdr_addr pkt =
     (let crc = rxe_icrc_hdr tmp_addr hdr_addr pkt;
          sz = uint (pkt_paylen pkt) - oi_length (rxe_opcode (pkt_opcode pkt)) - RXE_ICRC_SIZE;
          crc = crc32_le crc (hdr_addr + nat (payload_addr pkt))
            (bytes_list (pkt_hdr pkt) (payload_addr pkt) (unat (word_of_int sz :: u32)))
      in NOT crc)"

subsection \<open>The code covers the masked packet\<close>

text \<open>The bits a router may change: traffic class, flow label and hop limit of the global route
  header, and the reserved byte of the base header.\<close>

definition icrc_variant :: "rxe_pkt_info \<Rightarrow> int \<Rightarrow> u8" where
  "icrc_variant pkt x =
     (if x = icrc_bth_offset pkt + 4 then 0xff
      else if pkt_mask pkt AND RXE_GRH_MASK = 0 then 0
      else if x = icrc_grh_offset pkt then 0x0f
      else if x - icrc_grh_offset pkt \<in> {1, 2, 3, 7} then 0xff else 0)"

lemma or_ff [simp]: "(x :: u8) OR 0xff = 0xff"
proof -
  have m: "(0xff :: u8) = mask 8" by (simp add: mask_eq_exp_minus_1)
  show ?thesis unfolding m by (rule bit_word_eqI) (auto simp: bit_simps)
qed

lemma icrc_tmp_eq: "icrc_tmp pkt x = pkt_hdr pkt x OR icrc_variant pkt x"
  by (auto simp: icrc_tmp_def icrc_variant_def Let_def)

lemma icrc_tmp_beyond: "icrc_bth_offset pkt + 4 < x \<Longrightarrow> icrc_tmp pkt x = pkt_hdr pkt x"
  by (auto simp: icrc_tmp_def icrc_bth_offset_def Let_def)

text \<open>The bytes the code covers, from the global route header to the end of the payload.\<close>

definition icrc_covered :: "rxe_pkt_info \<Rightarrow> u8 list" where
  "icrc_covered pkt = bytes_list (\<lambda>x. pkt_hdr pkt x OR icrc_variant pkt x) (icrc_grh_offset pkt)
     (nat (icrc_bth_offset pkt - icrc_grh_offset pkt + uint (pkt_paylen pkt) - RXE_ICRC_SIZE))"

lemma bytes_list_tmp:
  "icrc_bth_offset pkt + 4 < p \<Longrightarrow> bytes_list (icrc_tmp pkt) p n = bytes_list (pkt_hdr pkt) p n"
  by (rule bytes_list_cong) (simp add: icrc_tmp_beyond)

lemma icrc_offsets: "0 \<le> icrc_grh_offset pkt" "icrc_grh_offset pkt \<le> icrc_bth_offset pkt"
  by (simp_all add: icrc_grh_offset_def icrc_bth_offset_def)

lemma unat_word_of_int: "0 \<le> n \<Longrightarrow> n < 4294967296 \<Longrightarrow> unat (word_of_int n :: u32) = nat n"
  by (simp add: unsigned_of_int take_bit_int_eq_self)

lemma rxe_opcode_sizes:
  assumes "oi_name (rxe_opcode c) \<noteq> None"
  shows "12 \<le> oi_length (rxe_opcode c)"
    and "c \<notin> set no_payload_offset \<Longrightarrow> oi_offset (rxe_opcode c) RXE_PAYLOAD = oi_length (rxe_opcode c)"
  using opcode_table_lengths opcode_table_payload rxe_opcode_in_table [OF assms]
  by (fastforce simp: list_all_iff)+

lemma rxe_icrc_pkt_eq:
  assumes "oi_name (rxe_opcode (pkt_opcode pkt)) \<noteq> None"
    and "pkt_opcode pkt \<notin> set no_payload_offset"
    and "uint (pkt_offset pkt) = icrc_bth_offset pkt"
    and "oi_length (rxe_opcode (pkt_opcode pkt)) + RXE_ICRC_SIZE \<le> uint (pkt_paylen pkt)"
  shows "rxe_icrc_pkt tmp_addr hdr_addr pkt =
    NOT (crc32_le_serial CRCPOLY_LE 0xffffffff (replicate 8 0xff @ icrc_covered pkt))"
proof -
  let ?l = "oi_length (rxe_opcode (pkt_opcode pkt))" and ?g = "icrc_grh_offset pkt"
  let ?b = "icrc_bth_offset pkt" and ?n = "uint (pkt_paylen pkt)"
  have l: "12 \<le> ?l" using assms(1) by (rule rxe_opcode_sizes)
  have pay: "payload_addr pkt = ?b + ?l"
    using rxe_opcode_sizes(2) [OF assms(1,2)] assms(3) by (simp add: payload_addr_def hdr_ptr_def)
  have n: "?n < 65536" using unsigned_less [of "pkt_paylen pkt"] by simp
  note o = icrc_offsets [of pkt]
  let ?x = "nat (12 + ?b - ?g)" and ?y = "nat (?l - 12)" and ?z = "nat (?n - ?l - 4)"
  have len: "nat (?b - ?g + ?n - 4) = ?x + ?y + ?z" using o l assms(4) by simp
  have pos: "?g + int ?x = 12 + ?b" "?g + int (?x + ?y) = ?b + ?l" using o l by simp_all
  have "icrc_covered pkt = bytes_list (icrc_tmp pkt) ?g (?x + ?y + ?z)"
    by (simp only: icrc_covered_def icrc_tmp_eq [symmetric] len)
  also have "\<dots> = bytes_list (icrc_tmp pkt) ?g ?x @ bytes_list (pkt_hdr pkt) (12 + ?b) ?y
      @ bytes_list (pkt_hdr pkt) (?b + ?l) ?z"
    using l by (simp only: bytes_list_add pos append_assoc) (simp add: bytes_list_tmp)
  finally have "icrc_covered pkt = \<dots>" .
  moreover have "unat (word_of_int (?l - 12) :: u32) = ?y" "unat (word_of_int (?n - ?l - 4) :: u32) = ?z"
    by (rule unat_word_of_int; use l n assms(4) in simp)+
  ultimately show ?thesis
    by (simp only: rxe_icrc_pkt_def rxe_icrc_hdr_def Let_def crc32_le_eq pay crc_masked_lrh
      crc32_le_serial_append)
qed


definition icrc_sample :: rxe_pkt_info where
  "icrc_sample = \<lparr>pkt_hdr = (\<lambda>_. 0), pkt_mask = 0, pkt_psn = 0, pkt_pkey_index = 0, pkt_paylen = 20,
     pkt_port_num = 1, pkt_opcode = IB_OPCODE_RC_SEND_ONLY, pkt_offset = 0\<rparr>"

lemma icrc_sample_opcode: "oi_name (rxe_opcode IB_OPCODE_RC_SEND_ONLY) \<noteq> None
    \<and> oi_length (rxe_opcode IB_OPCODE_RC_SEND_ONLY) = 12
    \<and> IB_OPCODE_RC_SEND_ONLY \<notin> set no_payload_offset"
  by code_simp


text \<open>C22: A router that changes only the traffic class, the flow label, the hop limit and the
  reserved byte of the base header leaves the invariant CRC of the packet as it was.\<close>

theorem rxe_icrc_pkt_invariant:
  assumes "oi_name (rxe_opcode (pkt_opcode pkt)) \<noteq> None"
    and "pkt_opcode pkt \<notin> set no_payload_offset"
    and "uint (pkt_offset pkt) = icrc_bth_offset pkt"
    and "oi_length (rxe_opcode (pkt_opcode pkt)) + RXE_ICRC_SIZE \<le> uint (pkt_paylen pkt)"
    and "\<And>x. h x OR icrc_variant pkt x = pkt_hdr pkt x OR icrc_variant pkt x"
  shows "rxe_icrc_pkt tmp_addr hdr_addr (pkt\<lparr>pkt_hdr := h\<rparr>) = rxe_icrc_pkt tmp_addr hdr_addr pkt"
proof -
  let ?q = "pkt\<lparr>pkt_hdr := h\<rparr>"
  have "icrc_bth_offset ?q = icrc_bth_offset pkt" "icrc_grh_offset ?q = icrc_grh_offset pkt"
    "icrc_variant ?q = icrc_variant pkt"
    by (simp_all add: icrc_bth_offset_def icrc_grh_offset_def icrc_variant_def fun_eq_iff)
  with assms show ?thesis by (simp add: rxe_icrc_pkt_eq icrc_covered_def)
qed

theorem rxe_icrc_pkt_invariant_witness:
  "rxe_icrc_pkt 0 0 (icrc_sample\<lparr>pkt_hdr := (\<lambda>_. 0)(4 := 7)\<rparr>) = rxe_icrc_pkt 0 0 icrc_sample"
  by (rule rxe_icrc_pkt_invariant)
    (simp_all add: icrc_sample_def icrc_sample_opcode icrc_variant_def icrc_bth_offset_def icrc_grh_offset_def)

end
