(* ===== verification/Rxe_Mr.thy ===== *)
theory Rxe_Mr
  imports Rxe_Pool Rxe_Icrc
begin

text \<open>
  Memory regions, \<open>rxe_mr.c\<close>: keys, registration, the translation from I/O virtual
  addresses to kernel addresses, and the copies in and out of registered memory.

  Kernel memory is a map from 32-bit addresses to bytes. Where the source would read or write
  outside an array, or never return, the model has the value \<open>None\<close>.
\<close>

type_synonym ram = "u32 \<Rightarrow> u8"

abbreviation (input) IB_ACCESS_LOCAL_WRITE :: u32 where "IB_ACCESS_LOCAL_WRITE \<equiv> 1"
abbreviation (input) IB_ACCESS_REMOTE_WRITE :: u32 where "IB_ACCESS_REMOTE_WRITE \<equiv> 2"
abbreviation (input) IB_ACCESS_REMOTE_READ :: u32 where "IB_ACCESS_REMOTE_READ \<equiv> 4"
abbreviation (input) IB_ACCESS_REMOTE_ATOMIC :: u32 where "IB_ACCESS_REMOTE_ATOMIC \<equiv> 8"
abbreviation (input) IB_ACCESS_MW_BIND :: u32 where "IB_ACCESS_MW_BIND \<equiv> 16"

definition IB_ACCESS_REMOTE :: u32 where
  "IB_ACCESS_REMOTE = IB_ACCESS_REMOTE_READ OR IB_ACCESS_REMOTE_WRITE OR IB_ACCESS_REMOTE_ATOMIC"

subsection \<open>Data\<close>

datatype rxe_mem_state = RXE_MEM_STATE_ZOMBIE | RXE_MEM_STATE_INVALID | RXE_MEM_STATE_FREE
  | RXE_MEM_STATE_VALID

datatype rxe_mem_type = RXE_MEM_TYPE_NONE | RXE_MEM_TYPE_DMA | RXE_MEM_TYPE_MR | RXE_MEM_TYPE_FMR
  | RXE_MEM_TYPE_MW

record ib_phys_buf =
  pb_addr :: u64
  pb_size :: u64

text \<open>A map page holds 4096 / 16 buffers.\<close>

abbreviation (input) RXE_BUF_PER_MAP :: nat where "RXE_BUF_PER_MAP \<equiv> 256"

text \<open>\<open>mem_index\<close> and \<open>mem_pool\<close> stand for \<open>pelem.index\<close> and
  \<open>pelem.pool->type\<close>; a null map is \<open>None\<close>; \<open>mem_ib_lkey\<close> and
  \<open>mem_ib_rkey\<close> are the keys of the union of \<open>ib_mr\<close> and \<open>ib_fmr\<close>.\<close>

record rxe_mem =
  mem_index :: u32
  mem_pool :: rxe_elem_type
  mem_ib_lkey :: u32
  mem_ib_rkey :: u32
  mem_pd :: "nat option"
  mem_umem :: "nat option"
  mem_lkey :: u32
  mem_rkey :: u32
  mem_state :: rxe_mem_state
  mem_type :: rxe_mem_type
  mem_va :: u64
  mem_iova :: u64
  mem_length :: u32
  mem_offset :: u32
  mem_access :: u32
  mem_page_shift :: nat
  mem_page_mask :: u32
  mem_map_shift :: nat
  mem_map_mask :: u32
  mem_num_buf :: nat
  mem_max_buf :: nat
  mem_num_map :: nat
  mem_map :: "ib_phys_buf list list option"

subsection \<open>Keys and ranges\<close>

definition of_flag :: "bool \<Rightarrow> u32" where
  "of_flag b = (if b then 1 else 0)"

definition rxe_get_key :: "u32 \<Rightarrow> u32" where
  "rxe_get_key key =
     (let key = push_bit 1 key;
          key = key OR (of_flag (0 \<noteq> key AND 0x100) XOR of_flag (0 \<noteq> key AND 0x10)
            XOR of_flag (0 \<noteq> key AND 0x80) XOR of_flag (0 \<noteq> key AND 0x40))
      in key AND 0xff)"

definition mem_check_range :: "rxe_mem \<Rightarrow> u64 \<Rightarrow> u32 \<Rightarrow> errno option" where
  "mem_check_range mem iova len = (case mem_type mem of
       RXE_MEM_TYPE_DMA \<Rightarrow> None
     | RXE_MEM_TYPE_MR \<Rightarrow>
         (if iova < mem_iova mem \<or> mem_iova mem + ucast (mem_length mem) < iova + ucast len
          then Some EFAULT else None)
     | RXE_MEM_TYPE_FMR \<Rightarrow>
         (if iova < mem_iova mem \<or> mem_iova mem + ucast (mem_length mem) < iova + ucast len
          then Some EFAULT else None)
     | _ \<Rightarrow> Some EFAULT)"

subsection \<open>Initialisation\<close>

text \<open>The second component is the static variable of \<open>rxe_get_key\<close>.\<close>

definition rxe_mem_init :: "u32 \<Rightarrow> rxe_mem \<Rightarrow> u32 \<Rightarrow> rxe_mem \<times> u32" where
  "rxe_mem_init access mem key =
     (let key = rxe_get_key key;
          lkey = push_bit 8 (mem_index mem) OR (key AND 0xff);
          rkey = (if access AND IB_ACCESS_REMOTE \<noteq> 0 then lkey else 0)
      in (mem\<lparr>mem_ib_lkey := lkey, mem_ib_rkey := rkey, mem_pd := None, mem_umem := None,
            mem_lkey := lkey, mem_rkey := rkey, mem_state := RXE_MEM_STATE_INVALID,
            mem_type := RXE_MEM_TYPE_NONE, mem_va := 0, mem_iova := 0, mem_length := 0,
            mem_offset := 0, mem_access := 0, mem_page_shift := 0, mem_page_mask := 0,
            mem_map_shift := ilog2 (of_nat RXE_BUF_PER_MAP), mem_map_mask := 0, mem_num_buf := 0,
            mem_max_buf := 0, mem_num_map := 0, mem_map := None\<rparr>, key))"

text \<open>What the memory functions give back to the system.\<close>

datatype mem_release = Release_umem nat | Free_map_page nat | Free_map

definition rxe_mem_cleanup :: "rxe_mem \<Rightarrow> mem_release list" where
  "rxe_mem_cleanup mem =
     (case mem_umem mem of Some u \<Rightarrow> [Release_umem u] | None \<Rightarrow> [])
     @ (case mem_map mem of None \<Rightarrow> []
        | Some maps \<Rightarrow> map Free_map_page [0..<mem_num_map mem] @ [Free_map])"

text \<open>\<open>kmalloc_map\<close> is the outcome of the first allocation and \<open>kmalloc_page i\<close> that of
  page \<open>i\<close>: a page of 256 arbitrary buffers, or \<open>None\<close>.\<close>

fun alloc_pages :: "(nat \<Rightarrow> ib_phys_buf list option) \<Rightarrow> nat \<Rightarrow> nat \<Rightarrow> nat option \<times> ib_phys_buf list list" where
  "alloc_pages kmalloc_page i 0 = (None, [])"
| "alloc_pages kmalloc_page i (Suc n) =
     (case kmalloc_page i of None \<Rightarrow> (Some i, [])
      | Some page \<Rightarrow> (case alloc_pages kmalloc_page (Suc i) n of (e, pages) \<Rightarrow> (e, page # pages)))"

definition rxe_mem_alloc ::
    "bool \<Rightarrow> (nat \<Rightarrow> ib_phys_buf list option) \<Rightarrow> rxe_mem \<Rightarrow> nat \<Rightarrow> errno option \<times> rxe_mem \<times> mem_release list" where
  "rxe_mem_alloc kmalloc_map kmalloc_page mem num_buf =
     (let num_map = (num_buf + RXE_BUF_PER_MAP - 1) div RXE_BUF_PER_MAP
      in if \<not> kmalloc_map then (Some ENOMEM, mem\<lparr>mem_map := None\<rparr>, [])
         else case alloc_pages kmalloc_page 0 num_map of
             (None, pages) \<Rightarrow> (None, mem\<lparr>mem_map := Some pages,
                mem_map_shift := ilog2 (of_nat RXE_BUF_PER_MAP),
                mem_map_mask := of_nat RXE_BUF_PER_MAP - 1, mem_num_buf := num_buf,
                mem_num_map := num_map, mem_max_buf := num_map * RXE_BUF_PER_MAP\<rparr>, [])
           | (Some i, pages) \<Rightarrow> (Some ENOMEM, mem\<lparr>mem_map := Some pages\<rparr>,
                map Free_map_page (rev [0..<i]) @ [Free_map]))"

definition rxe_mem_init_dma :: "nat \<Rightarrow> u32 \<Rightarrow> rxe_mem \<Rightarrow> u32 \<Rightarrow> rxe_mem \<times> u32" where
  "rxe_mem_init_dma pd access mem key = (case rxe_mem_init access mem key of (mem, key) \<Rightarrow>
     (mem\<lparr>mem_pd := Some pd, mem_access := access, mem_state := RXE_MEM_STATE_VALID,
        mem_type := RXE_MEM_TYPE_DMA\<rparr>, key))"

text \<open>The cursor that the three filling loops share: buffer \<open>n\<close> of map page \<open>m\<close> is
  written and the cursor moves on, to the next page when this one is full.\<close>

definition put_buf :: "ib_phys_buf list list \<Rightarrow> nat \<Rightarrow> nat \<Rightarrow> ib_phys_buf \<Rightarrow> ib_phys_buf list list option" where
  "put_buf maps m n b = (if m < length maps \<and> n < length (maps ! m)
     then Some (maps[m := (maps ! m)[n := b]]) else None)"

definition next_buf :: "nat \<times> nat \<Rightarrow> nat \<times> nat" where
  "next_buf mn = (case mn of (m, n) \<Rightarrow> if Suc n = RXE_BUF_PER_MAP then (Suc m, 0) else (m, Suc n))"

fun fill_bufs :: "ib_phys_buf list list \<Rightarrow> nat \<times> nat \<Rightarrow> ib_phys_buf list \<Rightarrow> ib_phys_buf list list option" where
  "fill_bufs maps mn [] = Some maps"
| "fill_bufs maps mn (b # bs) = (case put_buf maps (fst mn) (snd mn) b of None \<Rightarrow> None
     | Some maps \<Rightarrow> fill_bufs maps (next_buf mn) bs)"

text \<open>The sizes the loop of \<open>rxe_mem_init_phys\<close> accumulates; \<open>max_t(int, ...)\<close> and
  \<open>min_t(int, ...)\<close> compare as signed 32-bit integers.\<close>

definition phys_sizes :: "ib_phys_buf list \<Rightarrow> u32 \<times> u32 \<times> u32" where
  "phys_sizes bufs = foldl (\<lambda>(len, mx, mn) b. let sz = ucast (pb_size b) :: u32 in
     (len + sz, if sint sz < sint mx then mx else sz, if sint mn < sint sz then mn else sz))
     (0, 0, - 1) bufs"

definition rxe_mem_init_phys ::
    "bool \<Rightarrow> (nat \<Rightarrow> ib_phys_buf list option) \<Rightarrow> nat \<Rightarrow> u32 \<Rightarrow> u64 \<Rightarrow> ib_phys_buf list \<Rightarrow> rxe_mem \<Rightarrow> u32
     \<Rightarrow> (errno option \<times> rxe_mem \<times> u32 \<times> mem_release list) option" where
  "rxe_mem_init_phys kmalloc_map kmalloc_page pd access iova phys_buf mem key =
     (case rxe_mem_init access mem key of (mem, key) \<Rightarrow>
      case rxe_mem_alloc kmalloc_map kmalloc_page mem (length phys_buf) of
        (Some err, mem, rel) \<Rightarrow> Some (Some err, mem, key, rel)
      | (None, mem, rel) \<Rightarrow>
          (if mem_map mem = Some [] then None
           else case fill_bufs (the (mem_map mem)) (0, 0) phys_buf of None \<Rightarrow> None
             | Some maps \<Rightarrow> (case phys_sizes phys_buf of (len, max_size, min_size) \<Rightarrow>
                 let mem = mem\<lparr>mem_map := Some maps\<rparr>;
                     mem = (if max_size = min_size \<and> is_power_of_2 max_size
                       then mem\<lparr>mem_page_shift := ilog2 max_size, mem_page_mask := max_size - 1\<rparr>
                       else mem)
                 in Some (None, mem\<lparr>mem_pd := Some pd, mem_access := access, mem_iova := iova,
                      mem_va := iova, mem_length := len, mem_state := RXE_MEM_STATE_VALID,
                      mem_type := RXE_MEM_TYPE_MR\<rparr>, key, rel))))"

text \<open>A pinned user area: its page size, the offset of the area in the first page, and for every
  chunk the kernel addresses of its pages (\<open>None\<close> where \<open>page_address\<close> is null).\<close>

record ib_umem =
  um_id :: nat
  um_page_size :: u32
  um_offset :: u32
  um_chunks :: "u32 option list list"

fun user_fill :: "u32 \<Rightarrow> ib_phys_buf list list \<Rightarrow> nat \<times> nat \<Rightarrow> u32 option list
    \<Rightarrow> (bool \<times> ib_phys_buf list list) option" where
  "user_fill page_size maps mn [] = Some (True, maps)"
| "user_fill page_size maps mn (None # pages) = Some (False, maps)"
| "user_fill page_size maps mn (Some vaddr # pages) =
     (case put_buf maps (fst mn) (snd mn) \<lparr>pb_addr = ucast vaddr, pb_size = ucast page_size\<rparr> of
        None \<Rightarrow> None | Some maps \<Rightarrow> user_fill page_size maps (next_buf mn) pages)"

definition rxe_mem_init_user ::
    "bool \<Rightarrow> (nat \<Rightarrow> ib_phys_buf list option) \<Rightarrow> nat \<Rightarrow> u64 \<Rightarrow> u64 \<Rightarrow> u64 \<Rightarrow> u32 \<Rightarrow> ib_umem option
     \<Rightarrow> rxe_mem \<Rightarrow> u32 \<Rightarrow> (errno option \<times> rxe_mem \<times> u32 \<times> mem_release list) option" where
  "rxe_mem_init_user kmalloc_map kmalloc_page pd start len iova access umem_get mem key =
     (case umem_get of None \<Rightarrow> Some (Some EINVAL, mem, key, [])
      | Some umem \<Rightarrow>
        let mem = mem\<lparr>mem_umem := Some (um_id umem)\<rparr>;
            num_buf = sum_list (map length (um_chunks umem));
            (mem, key) = rxe_mem_init access mem key
        in case rxe_mem_alloc kmalloc_map kmalloc_page mem num_buf of
            (Some err, mem, rel) \<Rightarrow> Some (Some err, mem, key, rel)
          | (None, mem, rel) \<Rightarrow>
            if \<not> is_power_of_2 (um_page_size umem) then None
            else let mem = mem\<lparr>mem_page_shift := ilog2 (um_page_size umem),
                         mem_page_mask := um_page_size umem - 1\<rparr>;
                     filled = (if 0 < len
                       then if mem_map mem = Some [] then None
                         else user_fill (um_page_size umem) (the (mem_map mem)) (0, 0) (concat (um_chunks umem))
                       else Some (True, the (mem_map mem)))
              in case filled of None \<Rightarrow> None
                | Some (False, maps) \<Rightarrow> Some (Some ENOMEM, mem\<lparr>mem_map := Some maps\<rparr>, key, rel)
                | Some (True, maps) \<Rightarrow> Some (None, mem\<lparr>mem_map := Some maps, mem_pd := Some pd,
                    mem_umem := Some (um_id umem), mem_access := access, mem_length := ucast len,
                    mem_iova := iova, mem_va := start, mem_offset := um_offset umem,
                    mem_state := RXE_MEM_STATE_VALID, mem_type := RXE_MEM_TYPE_MR\<rparr>, key, rel))"

definition rxe_mem_init_fast ::
    "bool \<Rightarrow> (nat \<Rightarrow> ib_phys_buf list option) \<Rightarrow> nat \<Rightarrow> nat \<Rightarrow> rxe_mem \<Rightarrow> u32
     \<Rightarrow> errno option \<times> rxe_mem \<times> u32 \<times> mem_release list" where
  "rxe_mem_init_fast kmalloc_map kmalloc_page pd max_pages mem key =
     (case rxe_mem_init 0 mem key of (mem, key) \<Rightarrow>
      case rxe_mem_alloc kmalloc_map kmalloc_page mem max_pages of
        (Some err, mem, rel) \<Rightarrow> (Some err, mem, key, rel)
      | (None, mem, rel) \<Rightarrow> (None, mem\<lparr>mem_pd := Some pd, mem_max_buf := max_pages,
           mem_state := RXE_MEM_STATE_FREE, mem_type := RXE_MEM_TYPE_MR\<rparr>, key, rel))"

definition rxe_mem_init_mw :: "nat \<Rightarrow> rxe_mem \<Rightarrow> u32 \<Rightarrow> rxe_mem \<times> u32" where
  "rxe_mem_init_mw pd mem key = (case rxe_mem_init 0 mem key of (mem, key) \<Rightarrow>
     (mem\<lparr>mem_pd := Some pd, mem_state := RXE_MEM_STATE_FREE, mem_type := RXE_MEM_TYPE_MW\<rparr>, key))"

record ib_fmr_attr =
  fmr_max_pages :: nat
  fmr_max_maps :: int
  fmr_page_shift :: nat

definition rxe_mem_init_fmr ::
    "bool \<Rightarrow> (nat \<Rightarrow> ib_phys_buf list option) \<Rightarrow> int \<Rightarrow> nat \<Rightarrow> u32 \<Rightarrow> ib_fmr_attr \<Rightarrow> rxe_mem \<Rightarrow> u32
     \<Rightarrow> errno option \<times> rxe_mem \<times> u32 \<times> mem_release list" where
  "rxe_mem_init_fmr kmalloc_map kmalloc_page max_map_per_fmr pd access attr mem key =
     (if max_map_per_fmr < fmr_max_maps attr then (Some EINVAL, mem, key, [])
      else case rxe_mem_init access mem key of (mem, key) \<Rightarrow>
        case rxe_mem_alloc kmalloc_map kmalloc_page mem (fmr_max_pages attr) of
          (Some err, mem, rel) \<Rightarrow> (Some err, mem, key, rel)
        | (None, mem, rel) \<Rightarrow> (None, mem\<lparr>mem_pd := Some pd, mem_access := access,
             mem_page_shift := fmr_page_shift attr, mem_page_mask := push_bit (fmr_page_shift attr) 1 - 1,
             mem_max_buf := fmr_max_pages attr, mem_state := RXE_MEM_STATE_FREE,
             mem_type := RXE_MEM_TYPE_FMR\<rparr>, key, rel))"

definition rxe_mem_map_pages :: "rxe_mem \<Rightarrow> u64 list \<Rightarrow> u64 \<Rightarrow> (errno option \<times> rxe_mem) option" where
  "rxe_mem_map_pages mem page iova =
     (if mem_max_buf mem < length page then Some (Some EINVAL, mem)
      else let page_size = push_bit (mem_page_shift mem) 1 :: u32
        in case mem_map mem of None \<Rightarrow> None
          | Some [] \<Rightarrow> None
          | Some maps \<Rightarrow>
            (case fill_bufs maps (0, 0) (map (\<lambda>a. \<lparr>pb_addr = a, pb_size = scast page_size\<rparr>) page) of
               None \<Rightarrow> None
             | Some maps \<Rightarrow> Some (None, mem\<lparr>mem_map := Some maps, mem_iova := iova, mem_va := iova,
                 mem_length := push_bit (mem_page_shift mem) (of_nat (length page)),
                 mem_state := RXE_MEM_STATE_VALID\<rparr>)))"

subsection \<open>Address translation\<close>

definition map_buf :: "rxe_mem \<Rightarrow> nat \<times> nat \<Rightarrow> ib_phys_buf option" where
  "map_buf mem mn = (case (mem_map mem, mn) of (None, _) \<Rightarrow> None
     | (Some maps, (m, n)) \<Rightarrow> if m < length maps \<and> n < length (maps ! m) then Some (maps ! m ! n) else None)"

partial_function (option) lookup_walk :: "rxe_mem \<Rightarrow> nat \<times> nat \<Rightarrow> u32 \<Rightarrow> (nat \<times> nat \<times> u32) option" where
  "lookup_walk mem mn offset = (case map_buf mem mn of None \<Rightarrow> None
     | Some buf \<Rightarrow> if pb_size buf \<le> ucast offset
         then lookup_walk mem (next_buf mn) (offset - ucast (pb_size buf))
         else Some (fst mn, snd mn, offset))"

definition lookup_iova :: "rxe_mem \<Rightarrow> u64 \<Rightarrow> (nat \<times> nat \<times> u32) option" where
  "lookup_iova mem iova =
     (let offset = ucast (iova - mem_iova mem + ucast (mem_offset mem)) :: u32
      in if mem_page_shift mem \<noteq> 0
         then let page = drop_bit (mem_page_shift mem) offset
           in Some (unat (drop_bit (mem_map_shift mem) page), unat (page AND mem_map_mask mem),
                offset AND mem_page_mask mem)
         else lookup_walk mem (0, 0) offset)"

text \<open>The inner \<open>None\<close> is the null pointer.\<close>

definition iova_to_vaddr :: "rxe_mem \<Rightarrow> u64 \<Rightarrow> u32 \<Rightarrow> u32 option option" where
  "iova_to_vaddr mem iova len =
     (if mem_state mem \<noteq> RXE_MEM_STATE_VALID then Some None
      else if mem_map mem = None then Some (Some (ucast iova))
      else if mem_check_range mem iova len \<noteq> None then Some None
      else case lookup_iova mem iova of None \<Rightarrow> None
        | Some (m, n, offset) \<Rightarrow> (case map_buf mem (m, n) of None \<Rightarrow> None
            | Some buf \<Rightarrow> if pb_size buf < ucast (offset + len) then Some None
                else Some (Some (ucast (pb_addr buf) + offset))))"

subsection \<open>Copying\<close>

datatype copy_direction = direction_out | direction_in

definition ram_list :: "ram \<Rightarrow> u32 \<Rightarrow> nat \<Rightarrow> u8 list" where
  "ram_list ram va n = map (\<lambda>k. ram (va + of_nat k)) [0..<n]"

text \<open>\<open>memcpy\<close> between \<open>n\<close> bytes of the packet buffer at \<open>a\<close> and kernel memory at
  \<open>va\<close>, and the bytes that move.\<close>

definition copy_bytes :: "copy_direction \<Rightarrow> u32 \<Rightarrow> int \<Rightarrow> nat \<Rightarrow> bytes \<times> ram \<Rightarrow> bytes \<times> ram" where
  "copy_bytes dir va a n br = (case (dir, br) of
       (direction_in, (buf, ram)) \<Rightarrow>
         (buf, \<lambda>x. if unat (x - va) < n then buf (a + int (unat (x - va))) else ram x)
     | (direction_out, (buf, ram)) \<Rightarrow>
         (\<lambda>x. if a \<le> x \<and> x < a + int n then ram (va + of_nat (nat (x - a))) else buf x, ram))"

definition copy_crc :: "copy_direction \<Rightarrow> u32 \<Rightarrow> int \<Rightarrow> nat \<Rightarrow> bytes \<times> ram \<Rightarrow> u32 option \<Rightarrow> u32 option" where
  "copy_crc dir va a n br crcp = map_option (\<lambda>crc. case dir of
       direction_in \<Rightarrow> crc32_le crc (nat a) (bytes_list (fst br) a n)
     | direction_out \<Rightarrow> crc32_le crc (unat va) (ram_list (snd br) va n)) crcp"

partial_function (option) mem_copy_loop ::
    "rxe_mem \<Rightarrow> copy_direction \<Rightarrow> nat \<times> nat \<Rightarrow> u32 \<Rightarrow> int \<Rightarrow> int \<Rightarrow> u32 option \<Rightarrow> bytes \<times> ram
     \<Rightarrow> ((bytes \<times> ram) \<times> u32 option) option" where
  "mem_copy_loop mem dir mn offset len a crcp br =
     (if 0 < len
      then case map_buf mem mn of None \<Rightarrow> None
        | Some buf \<Rightarrow>
          let va = ucast (pb_addr buf) + offset;
              bytes = sint (ucast (pb_size buf - ucast offset) :: u32);
              bytes = (if len < bytes then len else bytes)
          in if bytes < 0 then None
             else mem_copy_loop mem dir (next_buf mn) 0 (len - bytes) (a + bytes)
                    (copy_crc dir va a (nat bytes) br crcp) (copy_bytes dir va a (nat bytes) br)
      else Some (br, crcp))"

text \<open>The result is the error, or the buffers and the updated code.\<close>

definition rxe_mem_copy ::
    "rxe_mem \<Rightarrow> u64 \<Rightarrow> int \<Rightarrow> int \<Rightarrow> copy_direction \<Rightarrow> u32 option \<Rightarrow> bytes \<times> ram
     \<Rightarrow> (errno option \<times> (bytes \<times> ram) \<times> u32 option) option" where
  "rxe_mem_copy mem iova a len dir crcp br =
     (if mem_type mem = RXE_MEM_TYPE_DMA
      then Some (None, copy_bytes dir (ucast iova) a (nat len) br, copy_crc dir (ucast iova) a (nat len) br crcp)
      else if mem_map mem = None then None
      else if mem_check_range mem iova (word_of_int len) \<noteq> None then Some (Some EFAULT, br, crcp)
      else case lookup_iova mem iova of None \<Rightarrow> None
        | Some (m, i, offset) \<Rightarrow>
            (case mem_copy_loop mem dir (m, i) offset len a crcp br of None \<Rightarrow> None
             | Some (br, crcp) \<Rightarrow> Some (None, br, crcp)))"

subsection \<open>Byte by byte\<close>

text \<open>The reference for every copy: one byte at a time between the packet and a list of kernel
  addresses.\<close>

fun copy_list :: "copy_direction \<Rightarrow> u32 list \<Rightarrow> int \<Rightarrow> bytes \<times> ram \<Rightarrow> bytes \<times> ram" where
  "copy_list dir [] a br = br"
| "copy_list direction_in (x # xs) a (buf, ram) = copy_list direction_in xs (a + 1) (buf, ram(x := buf a))"
| "copy_list direction_out (x # xs) a (buf, ram) = copy_list direction_out xs (a + 1) (buf(a := ram x), ram)"

text \<open>The bytes that move.\<close>

definition moved :: "copy_direction \<Rightarrow> u32 list \<Rightarrow> int \<Rightarrow> bytes \<times> ram \<Rightarrow> u8 list" where
  "moved dir xs a br = (case dir of direction_in \<Rightarrow> bytes_list (fst br) a (length xs)
     | direction_out \<Rightarrow> map (snd br) xs)"

definition span :: "u32 \<Rightarrow> nat \<Rightarrow> u32 list" where
  "span va n = map (\<lambda>k. va + of_nat k) [0..<n]"

lemma length_span [simp]: "length (span va n) = n"
  by (simp add: span_def)

lemma copy_list_append:
  "copy_list dir (xs @ ys) a br = copy_list dir ys (a + int (length xs)) (copy_list dir xs a br)"
  by (induction dir xs a br rule: copy_list.induct) (simp_all add: algebra_simps)

lemma copy_list_in_fst [simp]: "fst (copy_list direction_in xs a br) = fst br"
  by (induction direction_in xs a br rule: copy_list.induct) simp_all

lemma copy_list_out_snd [simp]: "snd (copy_list direction_out xs a br) = snd br"
  by (induction direction_out xs a br rule: copy_list.induct) simp_all

lemma moved_append: "moved dir (xs @ ys) a br
    = moved dir xs a br @ moved dir ys (a + int (length xs)) (copy_list dir xs a br)"
  by (cases dir) (simp_all add: moved_def bytes_list_add)

lemma moved_span: "moved dir (span va n) a br
    = (case dir of direction_in \<Rightarrow> bytes_list (fst br) a n | direction_out \<Rightarrow> ram_list (snd br) va n)"
  by (cases dir) (simp_all add: moved_def ram_list_def span_def)

lemma of_nat_diff_va: "n < 4294967296 \<Longrightarrow> unat ((x :: u32) - va) = n \<longleftrightarrow> x = va + of_nat n"
proof
  assume "n < 4294967296" "x = va + of_nat n"
  then show "unat (x - va) = n" by (simp add: unsigned_of_nat take_bit_nat_eq_self)
next
  assume "unat (x - va) = n"
  then have "of_nat n = x - va" by auto
  then show "x = va + of_nat n" by simp
qed

lemma copy_bytes_list:
  assumes "n < 4294967296"
  shows "copy_bytes dir va a n br = copy_list dir (span va n) a br"
  using assms
proof (induction n)
  case 0
  then show ?case by (cases br; cases dir) (auto simp: copy_bytes_def span_def fun_eq_iff)
next
  case (Suc n)
  have "span va (Suc n) = span va n @ [va + of_nat n]" by (simp add: span_def)
  with Suc have IH: "copy_list dir (span va (Suc n)) a br
      = copy_list dir [va + of_nat n] (a + int n) (copy_bytes dir va a n br)"
    by (simp add: copy_list_append)
  show ?case
  proof (cases dir)
    case direction_out
    then show ?thesis using IH by (cases br) (auto simp: copy_bytes_def fun_eq_iff)
  next
    case direction_in
    have "unat (x - va) < Suc n \<longleftrightarrow> unat (x - va) < n \<or> x = va + of_nat n" for x
      using of_nat_diff_va [of n x va] Suc.prems by auto
    moreover have "unat (of_nat n :: u32) = n" using Suc.prems by (simp add: unsigned_of_nat take_bit_nat_eq_self)
    ultimately show ?thesis using direction_in IH by (cases br) (auto simp: copy_bytes_def fun_eq_iff)
  qed
qed

lemma copy_crc_list: "copy_crc dir va a n br crcp
    = map_option (\<lambda>c. crc32_le_serial CRCPOLY_LE c (moved dir (span va n) a br)) crcp"
  by (cases dir) (simp_all add: copy_crc_def crc32_le_eq moved_span)

subsection \<open>Regions as lists of buffers\<close>

definition flat_bufs :: "rxe_mem \<Rightarrow> ib_phys_buf list" where
  "flat_bufs mem = (case mem_map mem of None \<Rightarrow> [] | Some maps \<Rightarrow> concat maps)"

definition maps_full :: "rxe_mem \<Rightarrow> bool" where
  "maps_full mem = (case mem_map mem of None \<Rightarrow> False
     | Some maps \<Rightarrow> list_all (\<lambda>p. length p = RXE_BUF_PER_MAP) maps)"

definition flat_index :: "nat \<times> nat \<Rightarrow> nat" where
  "flat_index mn = fst mn * RXE_BUF_PER_MAP + snd mn"

lemma flat_index_next [simp]: "snd mn < RXE_BUF_PER_MAP \<Longrightarrow> flat_index (next_buf mn) = Suc (flat_index mn)"
  by (cases mn) (auto simp: flat_index_def next_buf_def)

lemma snd_next_buf [simp]: "snd mn < RXE_BUF_PER_MAP \<Longrightarrow> snd (next_buf mn) < RXE_BUF_PER_MAP"
  by (cases mn) (auto simp: next_buf_def)

lemma concat_uniform_nth:
  "list_all (\<lambda>p. length p = k) xs \<Longrightarrow> m < length xs \<Longrightarrow> n < k \<Longrightarrow> concat xs ! (m * k + n) = xs ! m ! n"
proof (induction xs arbitrary: m)
  case (Cons x xs)
  then show ?case by (cases m) (simp_all add: nth_append add.assoc)
qed simp

lemma length_concat_uniform: "list_all (\<lambda>p. length p = k) xs \<Longrightarrow> length (concat xs) = length xs * k"
  by (induction xs) simp_all

lemma flat_index_less: "n < k \<Longrightarrow> m * k + n < l * k \<longleftrightarrow> m < (l :: nat)"
proof -
  assume "n < k"
  then have "(m * k + n) div k = m" by simp
  then show ?thesis using \<open>n < k\<close> less_mult_imp_div_less [of "m * k + n" l k]
    by (metis add_less_mono1 div_less_iff_less_mult gr_zeroI less_nat_zero_code mult.commute)
qed

lemma map_buf_flat:
  assumes "maps_full mem" and "snd mn < RXE_BUF_PER_MAP"
  shows "map_buf mem mn = (if flat_index mn < length (flat_bufs mem)
    then Some (flat_bufs mem ! flat_index mn) else None)"
proof -
  obtain maps where m: "mem_map mem = Some maps" "list_all (\<lambda>p. length p = RXE_BUF_PER_MAP) maps"
    using assms(1) by (auto simp: maps_full_def split: option.splits)
  obtain m n where [simp]: "mn = (m, n)" by fastforce
  have "n < RXE_BUF_PER_MAP" using assms(2) by simp
  note flat_index_less [OF this, of m "length maps"] concat_uniform_nth [OF m(2) _ this]
  moreover have "m < length maps \<Longrightarrow> length (maps ! m) = RXE_BUF_PER_MAP"
    using m(2) by (simp add: list_all_length)
  ultimately show ?thesis using m(1) \<open>n < RXE_BUF_PER_MAP\<close> length_concat_uniform [OF m(2)]
    by (simp add: map_buf_def flat_bufs_def flat_index_def)
qed

definition buf_addrs :: "ib_phys_buf \<Rightarrow> u32 list" where
  "buf_addrs b = span (ucast (pb_addr b)) (unat (pb_size b))"

definition region_addrs :: "ib_phys_buf list \<Rightarrow> u32 list" where
  "region_addrs bufs = concat (map buf_addrs bufs)"

lemma length_buf_addrs [simp]: "length (buf_addrs b) = unat (pb_size b)"
  by (simp add: buf_addrs_def)

lemma region_addrs_simps [simp]:
  "region_addrs [] = []" "region_addrs (b # bs) = buf_addrs b @ region_addrs bs"
  by (simp_all add: region_addrs_def)

lemma span_drop_take: "take n (drop m (span va k)) = span (va + of_nat m) (min n (k - m))"
proof (rule nth_equalityI)
  fix i
  assume "i < length (take n (drop m (span va k)))"
  then have "i < n" "m + i < k" by auto
  then show "take n (drop m (span va k)) ! i = span (va + of_nat m) (min n (k - m)) ! i"
    by (simp add: span_def)
qed simp

lemma drop_prefix_Cons:
  assumes "take (length (b # bs)) (drop k xs) = b # bs"
  shows "k < length xs" and "xs ! k = b" and "take (length bs) (drop (Suc k) xs) = bs"
proof -
  from assms have "drop k xs \<noteq> []" by auto
  then show k: "k < length xs" by simp
  then have "drop k xs = xs ! k # drop (Suc k) xs" by (simp add: Cons_nth_drop_Suc)
  with assms show "xs ! k = b" "take (length bs) (drop (Suc k) xs) = bs" by simp_all
qed

text \<open>What is left of a buffer, as the loop computes it.\<close>

lemma buf_rest:
  fixes sz :: u64 and offset :: u32
  assumes "unat offset \<le> unat sz" and "unat sz < 2147483648"
  shows "sint (ucast (sz - ucast offset) :: u32) = int (unat sz - unat offset)"
proof -
  have "(ucast offset :: u64) \<le> sz" using assms(1) by (simp add: word_le_nat_alt)
  then have "unat (sz - ucast offset) = unat sz - unat offset" by (simp add: unat_sub)
  then show ?thesis using assms(2) by (simp add: sint_unat unat_ucast_u32)
qed

lemma moved_Nil [simp]: "moved dir [] a br = []"
  by (simp add: moved_def split: copy_direction.splits)

lemma mem_copy_loop_done: "\<not> 0 < len \<Longrightarrow> mem_copy_loop mem dir mn offset len a crcp br = Some (br, crcp)"
  by (subst mem_copy_loop.simps) simp

lemma mem_copy_loop_list:
  assumes "maps_full mem"
  shows "snd mn < RXE_BUF_PER_MAP \<Longrightarrow> take (length bs) (drop (flat_index mn) (flat_bufs mem)) = bs \<Longrightarrow>
    list_all (\<lambda>b. unat (pb_size b) < 2147483648) bs \<Longrightarrow> 0 \<le> len \<Longrightarrow>
    unat offset + nat len \<le> length (region_addrs bs) \<Longrightarrow>
    (bs = [] \<or> unat offset \<le> unat (pb_size (hd bs))) \<Longrightarrow>
    A = take (nat len) (drop (unat offset) (region_addrs bs)) \<Longrightarrow>
    mem_copy_loop mem dir mn offset len a crcp br
      = Some (copy_list dir A a br, map_option (\<lambda>c. crc32_le_serial CRCPOLY_LE c (moved dir A a br)) crcp)"
proof (induction bs arbitrary: mn offset len a crcp br A)
  case Nil
  then show ?case by (simp add: mem_copy_loop_done option.map_ident)
next
  case (Cons b bs)
  show ?case
  proof (cases "0 < len")
    case False
    with Cons.prems show ?thesis by (simp add: mem_copy_loop_done option.map_ident)
  next
    case True
    note pre = drop_prefix_Cons [OF Cons.prems(2)]
    have buf: "map_buf mem mn = Some b" using map_buf_flat [OF assms Cons.prems(1)] pre by simp
    define r where "r = unat (pb_size b) - unat offset"
    have off: "unat offset \<le> unat (pb_size b)" and sz: "unat (pb_size b) < 2147483648"
      using Cons.prems by simp_all
    have rest: "sint (ucast (pb_size b - ucast offset) :: u32) = int r"
      using buf_rest [OF off sz] by (simp add: r_def)
    define n where "n = min (nat len) r"
    have n: "(if len < int r then len else int r) = int n" using True by (simp add: n_def)
    let ?S = "span (ucast (pb_addr b) + offset) n" and ?T = "take (nat len - r) (region_addrs bs)"
    have A: "A = ?S @ ?T"
      using Cons.prems(7) off span_drop_take [of "nat len" "unat offset" "ucast (pb_addr b)" "unat (pb_size b)"]
      by (simp add: buf_addrs_def r_def n_def)
    have len: "nat (len - int n) = nat len - r" using True unfolding n_def by arith
    have "mem_copy_loop mem dir mn offset len a crcp br
        = mem_copy_loop mem dir (next_buf mn) 0 (len - int n) (a + int n)
            (copy_crc dir (ucast (pb_addr b) + offset) a n br crcp)
            (copy_bytes dir (ucast (pb_addr b) + offset) a n br)"
      using True by (subst mem_copy_loop.simps) (simp add: buf rest n Let_def)
    also have "\<dots> = Some (copy_list dir ?T (a + int n) (copy_bytes dir (ucast (pb_addr b) + offset) a n br),
        map_option (\<lambda>c. crc32_le_serial CRCPOLY_LE c
          (moved dir ?T (a + int n) (copy_bytes dir (ucast (pb_addr b) + offset) a n br)))
          (copy_crc dir (ucast (pb_addr b) + offset) a n br crcp))"
    proof (rule Cons.IH)
      show "unat (0 :: u32) + nat (len - int n) \<le> length (region_addrs bs)"
        using Cons.prems(5) off by (simp add: len r_def)
      show "?T = take (nat (len - int n)) (drop (unat (0 :: u32)) (region_addrs bs))" by (simp add: len)
      show "0 \<le> len - int n" using True by (simp add: n_def)
    qed (use Cons.prems pre in simp_all)
    also have "copy_bytes dir (ucast (pb_addr b) + offset) a n br = copy_list dir ?S a br"
      using sz by (intro copy_bytes_list) (simp add: n_def r_def)
    finally show ?thesis
      by (simp add: A copy_list_append moved_append copy_crc_list option.map_comp comp_def
        crc32_le_serial_append)
  qed
qed

subsection \<open>Translation\<close>

text \<open>The buffer that holds a byte of the region, and the byte's place in it.\<close>

fun locate :: "ib_phys_buf list \<Rightarrow> nat \<Rightarrow> nat \<times> nat" where
  "locate [] off = (0, off)"
| "locate (b # bs) off = (if unat (pb_size b) \<le> off
     then case locate bs (off - unat (pb_size b)) of (k, r) \<Rightarrow> (Suc k, r) else (0, off))"

lemma locate_correct:
  "off < length (region_addrs bs) \<Longrightarrow> locate bs off = (k, r) \<Longrightarrow>
    k < length bs \<and> r < unat (pb_size (bs ! k)) \<and>
    drop off (region_addrs bs) = drop r (region_addrs (drop k bs))"
proof (induction bs arbitrary: off k)
  case (Cons b bs)
  show ?case
  proof (cases "unat (pb_size b) \<le> off")
    case True
    then obtain k' where k': "locate bs (off - unat (pb_size b)) = (k', r)" "k = Suc k'"
      using Cons.prems by (auto split: prod.splits)
    have "off - unat (pb_size b) < length (region_addrs bs)" using Cons.prems True by simp
    from Cons.IH [OF this k'(1)] show ?thesis using k' True by simp
  next
    case False
    then show ?thesis using Cons.prems by simp
  qed
qed simp

lemma next_buf_iterate: "(next_buf ^^ k) (0, 0) = (k div RXE_BUF_PER_MAP, k mod RXE_BUF_PER_MAP)"
proof (induction k)
  case (Suc k)
  then show ?case by (simp add: next_buf_def div_Suc mod_Suc)
qed simp

lemma lookup_walk_locate:
  assumes "maps_full mem"
  shows "snd mn < RXE_BUF_PER_MAP \<Longrightarrow> take (length bs) (drop (flat_index mn) (flat_bufs mem)) = bs \<Longrightarrow>
    unat offset < length (region_addrs bs) \<Longrightarrow> locate bs (unat offset) = (k, r) \<Longrightarrow>
    lookup_walk mem mn offset = Some (case (next_buf ^^ k) mn of (m, n) \<Rightarrow> (m, n, of_nat r))"
proof (induction bs arbitrary: mn offset k)
  case (Cons b bs)
  note pre = drop_prefix_Cons [OF Cons.prems(2)]
  have buf: "map_buf mem mn = Some b" using map_buf_flat [OF assms Cons.prems(1)] pre by simp
  have le: "pb_size b \<le> ucast offset \<longleftrightarrow> unat (pb_size b) \<le> unat offset" by (simp add: word_le_nat_alt)
  show ?case
  proof (cases "unat (pb_size b) \<le> unat offset")
    case True
    then obtain k' where k': "locate bs (unat offset - unat (pb_size b)) = (k', r)" "k = Suc k'"
      using Cons.prems(4) by (auto split: prod.splits)
    have "unat (ucast (pb_size b) :: u32) = unat (pb_size b)"
      using True unat_u32_less [of offset] by (simp add: unat_ucast_u32)
    then have o: "unat (offset - ucast (pb_size b)) = unat offset - unat (pb_size b)"
      using True by (simp add: unat_sub word_le_nat_alt)
    have "lookup_walk mem (next_buf mn) (offset - ucast (pb_size b))
        = Some (case (next_buf ^^ k') (next_buf mn) of (m, n) \<Rightarrow> (m, n, of_nat r))"
      by (rule Cons.IH) (use Cons.prems pre k' True in \<open>simp_all add: o\<close>)
    then show ?thesis using True k' by (subst lookup_walk.simps) (simp add: buf le funpow_swap1)
  next
    case False
    then show ?thesis using Cons.prems(4) by (subst lookup_walk.simps) (auto simp: buf le split: prod.splits)
  qed
qed simp

lemma locate_uniform:
  "list_all (\<lambda>b. unat (pb_size b) = s) bs \<Longrightarrow> 0 < s \<Longrightarrow> off < s * length bs \<Longrightarrow> locate bs off = (off div s, off mod s)"
proof (induction bs arbitrary: off)
  case (Cons b bs)
  then show ?case by (simp add: le_div_geq le_mod_geq)
qed simp

lemma length_region_uniform: "list_all (\<lambda>b. unat (pb_size b) = s) bs \<Longrightarrow> length (region_addrs bs) = s * length bs"
  by (induction bs) simp_all

lemma length_region: "length (region_addrs bs) = sum_list (map (\<lambda>b. unat (pb_size b)) bs)"
  by (induction bs) simp_all

lemma unat_pow_u64:
  assumes "k < 64"
  shows "unat (2 ^ k :: u64) = 2 ^ k"
proof -
  have "unat (push_bit k 1 :: u64) = 2 ^ k"
    using assms by (simp only: unsigned_push_bit_eq)
      (simp add: push_bit_eq_mult take_bit_eq_mod power_strict_increasing_iff
        [of "2::nat" k 64, simplified])
  then show ?thesis by simp
qed

text \<open>A registered region: the first buffers of its map hold at least the registered bytes, and
  when the pages have one size the shift and masks say so.\<close>

definition mem_region :: "rxe_mem \<Rightarrow> ib_phys_buf list \<Rightarrow> bool" where
  "mem_region mem bufs \<longleftrightarrow> maps_full mem \<and> take (length bufs) (flat_bufs mem) = bufs
     \<and> list_all (\<lambda>b. unat (pb_size b) < 2147483648) bufs
     \<and> mem_type mem \<in> {RXE_MEM_TYPE_MR, RXE_MEM_TYPE_FMR}
     \<and> unat (mem_offset mem) + unat (mem_length mem) \<le> sum_list (map (\<lambda>b. unat (pb_size b)) bufs)
     \<and> sum_list (map (\<lambda>b. unat (pb_size b)) bufs) < 4294967296
     \<and> unat (mem_iova mem) + unat (mem_length mem) < 18446744073709551616
     \<and> (mem_page_shift mem = 0 \<or> mem_page_shift mem < 31
          \<and> list_all (\<lambda>b. pb_size b = 2 ^ mem_page_shift mem) bufs
          \<and> mem_page_mask mem = mask (mem_page_shift mem)
          \<and> mem_map_shift mem = 8 \<and> mem_map_mask mem = 255)"

text \<open>The place of an I/O virtual address in the region.\<close>

definition region_off :: "rxe_mem \<Rightarrow> u64 \<Rightarrow> nat" where
  "region_off mem iova = unat iova - unat (mem_iova mem) + unat (mem_offset mem)"

lemma region_room:
  assumes "mem_region mem bufs" and "mem_iova mem \<le> iova"
    and "unat iova + n \<le> unat (mem_iova mem) + unat (mem_length mem)"
  shows "region_off mem iova + n \<le> length (region_addrs bufs)"
proof -
  have "unat (mem_iova mem) \<le> unat iova" using assms(2) by (simp add: word_le_nat_alt)
  moreover have "unat (mem_offset mem) + unat (mem_length mem) \<le> length (region_addrs bufs)"
    using assms(1) by (simp add: mem_region_def length_region)
  ultimately show ?thesis using assms(3) by (simp add: region_off_def)
qed

lemma region_off_word:
  assumes "mem_iova mem \<le> iova" and "region_off mem iova < 4294967296"
  shows "unat (ucast (iova - mem_iova mem + ucast (mem_offset mem)) :: u32) = region_off mem iova"
proof -
  have d: "unat (iova - mem_iova mem) = unat iova - unat (mem_iova mem)" using assms(1) by (rule unat_sub)
  have "unat (iova - mem_iova mem + ucast (mem_offset mem)) = region_off mem iova"
    using assms(2) by (subst unat_plus_if') (simp add: d region_off_def)
  then show ?thesis using assms(2) by (simp add: unat_ucast_u32)
qed

lemma lookup_iova_locate:
  assumes "mem_region mem bufs" and "mem_iova mem \<le> iova"
    and "region_off mem iova < length (region_addrs bufs)"
  shows "lookup_iova mem iova = Some (case locate bufs (region_off mem iova) of (k, r) \<Rightarrow>
    (k div RXE_BUF_PER_MAP, k mod RXE_BUF_PER_MAP, of_nat r))"
proof -
  let ?o = "ucast (iova - mem_iova mem + ucast (mem_offset mem)) :: u32"
  have o: "unat ?o = region_off mem iova"
    using assms by (intro region_off_word) (auto simp: mem_region_def length_region)
  obtain k r where kr: "locate bufs (region_off mem iova) = (k, r)" by fastforce
  show ?thesis
  proof (cases "mem_page_shift mem = 0")
    case True
    have "lookup_walk mem (0, 0) ?o = Some (case (next_buf ^^ k) (0, 0) of (m, n) \<Rightarrow> (m, n, of_nat r))"
      by (rule lookup_walk_locate) (use assms o kr in \<open>auto simp: mem_region_def flat_index_def\<close>)
    then show ?thesis using True kr by (simp add: lookup_iova_def next_buf_iterate)
  next
    case False
    let ?s = "mem_page_shift mem"
    have m: "(255 :: u32) = mask 8" by (simp add: mask_eq_exp_minus_1)
    have s: "?s < 31" "list_all (\<lambda>b. unat (pb_size b) = 2 ^ ?s) bufs" "mem_page_mask mem = mask ?s"
      "mem_map_shift mem = 8" "mem_map_mask mem = 255"
      using assms(1) False by (auto simp: mem_region_def list_all_iff unat_pow_u64)
    then have kr': "k = region_off mem iova div 2 ^ ?s" "r = region_off mem iova mod 2 ^ ?s"
      using locate_uniform [OF s(2)] length_region_uniform [OF s(2)] assms(3) kr by simp_all
    define p where "p = drop_bit ?s ?o"
    have "unat p = k" by (simp only: p_def unat_drop_bit_eq o kr') (simp add: drop_bit_eq_div)
    then have "unat (drop_bit 8 p) = k div 256" by (simp only: unat_drop_bit_eq) (simp add: drop_bit_eq_div)
    moreover have "unat (p AND 255) = k mod 256"
      by (simp only: m and_mask_take_bit unat_take_bit \<open>unat p = k\<close>) simp
    moreover have "?o AND mask ?s = of_nat r"
      using o kr' unat_take_bit [of ?s ?o] by (simp add: and_mask_take_bit) (metis of_nat_unat ucast_id)
    moreover have "lookup_iova mem iova = Some (unat (drop_bit 8 p), unat (p AND 255), ?o AND mask ?s)"
      using False by (simp only: lookup_iova_def Let_def p_def s(3-5) if_True not_False_eq_True)
    ultimately show ?thesis by (simp add: kr)
  qed
qed

subsection \<open>Ranges and copies\<close>

lemma unat_add_ucast: "unat (x :: u64) + unat (w :: u32) < 18446744073709551616 \<Longrightarrow>
    unat (x + ucast w) = unat x + unat w"
  by (subst unat_plus_if') simp

lemma mem_check_range_nowrap:
  assumes "mem_type mem \<in> {RXE_MEM_TYPE_MR, RXE_MEM_TYPE_FMR}"
    and "unat iova + unat len < 18446744073709551616"
    and "unat (mem_iova mem) + unat (mem_length mem) < 18446744073709551616"
  shows "mem_check_range mem iova len = None \<longleftrightarrow>
    unat (mem_iova mem) \<le> unat iova \<and> unat iova + unat len \<le> unat (mem_iova mem) + unat (mem_length mem)"
  using assms by (auto simp: mem_check_range_def word_less_nat_alt unat_add_ucast)

text \<open>C23: As long as neither end wraps past the top of the 64-bit address space, the range check
  of a memory region accepts exactly the ranges that lie inside the registered range.\<close>

theorem mem_check_range_exact:
  assumes "mem_type mem \<in> {RXE_MEM_TYPE_MR, RXE_MEM_TYPE_FMR}"
    and "unat iova + unat len < 18446744073709551616"
    and "unat (mem_iova mem) + unat (mem_length mem) < 18446744073709551616"
  shows "mem_check_range mem iova len = None \<longleftrightarrow>
    unat (mem_iova mem) \<le> unat iova \<and> unat iova + unat len \<le> unat (mem_iova mem) + unat (mem_length mem)"
  using assms by (rule mem_check_range_nowrap)

text \<open>C36: The range check adds in 64 bits, so a range that wraps around is accepted: every region
  accepts the two bytes at the last address and at address zero, whatever was registered.\<close>

theorem mem_check_range_wraps:
  assumes "mem_type mem \<in> {RXE_MEM_TYPE_MR, RXE_MEM_TYPE_FMR}"
    and "unat (mem_iova mem) + unat (mem_length mem) < 18446744073709551616"
    and "0 < mem_length mem"
  shows "mem_check_range mem (- 1) 2 = None"
proof -
  have "(1 :: u64) \<le> mem_iova mem + ucast (mem_length mem)"
    using assms(2,3) by (simp add: word_le_nat_alt word_less_nat_alt unat_add_ucast)
  then show ?thesis using assms(1) by (auto simp: mem_check_range_def not_less)
qed

lemma mem_check_range_inside:
  assumes "mem_region mem bufs" and "mem_iova mem \<le> iova"
    and "unat iova + unat len \<le> unat (mem_iova mem) + unat (mem_length mem)"
  shows "mem_check_range mem iova len = None"
  using assms by (subst mem_check_range_nowrap) (auto simp: mem_region_def word_le_nat_alt)

lemma mem_copy_loop_located:
  assumes "mem_region mem bufs" and "off < length (region_addrs bufs)"
    and "off + nat len \<le> length (region_addrs bufs)" and "locate bufs off = (k, r)" and "0 \<le> len"
    and "A = take (nat len) (drop off (region_addrs bufs))"
  shows "mem_copy_loop mem dir (k div RXE_BUF_PER_MAP, k mod RXE_BUF_PER_MAP) (of_nat r) len a crcp br
    = Some (copy_list dir A a br, map_option (\<lambda>c. crc32_le_serial CRCPOLY_LE c (moved dir A a br)) crcp)"
proof (rule mem_copy_loop_list)
  note loc = locate_correct [OF assms(2,4)]
  have flat: "take (length bufs) (flat_bufs mem) = bufs" and full: "maps_full mem"
    and small: "list_all (\<lambda>b. unat (pb_size b) < 2147483648) bufs"
    using assms(1) by (simp_all add: mem_region_def)
  show "maps_full mem" by (rule full)
  have k: "flat_index (k div RXE_BUF_PER_MAP, k mod RXE_BUF_PER_MAP) = k" by (simp add: flat_index_def)
  have "take (length bufs - k) (drop k (flat_bufs mem)) = drop k bufs"
    using flat by (metis drop_take)
  then show "take (length (drop k bufs)) (drop (flat_index (k div RXE_BUF_PER_MAP, k mod RXE_BUF_PER_MAP))
      (flat_bufs mem)) = drop k bufs" by (simp add: k)
  show "list_all (\<lambda>b. unat (pb_size b) < 2147483648) (drop k bufs)"
    using small by (auto simp: list_all_iff dest: in_set_dropD)
  have "unat (pb_size (bufs ! k)) < 2147483648" using small loc by (simp add: list_all_length)
  then have r: "unat (of_nat r :: u32) = r" using loc by (simp add: unsigned_of_nat take_bit_nat_eq_self)
  have hd: "hd (drop k bufs) = bufs ! k" using loc by (simp add: hd_drop_conv_nth)
  then show "drop k bufs = [] \<or> unat (of_nat r :: u32) \<le> unat (pb_size (hd (drop k bufs)))"
    using loc r by simp
  have "length (region_addrs bufs) - off = length (region_addrs (drop k bufs)) - r"
    using loc by (metis length_drop)
  moreover have "r \<le> length (region_addrs (drop k bufs))"
    using loc by (simp flip: Cons_nth_drop_Suc)
  ultimately show "unat (of_nat r :: u32) + nat len \<le> length (region_addrs (drop k bufs))"
    using assms(3) r by linarith
  show "A = take (nat len) (drop (unat (of_nat r :: u32)) (region_addrs (drop k bufs)))"
    using assms(6) loc r by simp
qed (use assms(5) in simp_all)

lemma rxe_mem_copy_region:
  assumes "mem_region mem bufs" and "mem_iova mem \<le> iova" and "0 < len" and "len < 2147483648"
    and "unat iova + nat len \<le> unat (mem_iova mem) + unat (mem_length mem)"
    and "A = take (nat len) (drop (region_off mem iova) (region_addrs bufs))"
  shows "rxe_mem_copy mem iova a len dir crcp br = Some (None, copy_list dir A a br,
    map_option (\<lambda>c. crc32_le_serial CRCPOLY_LE c (moved dir A a br)) crcp)"
proof -
  have len: "unat (word_of_int len :: u32) = nat len" using assms(3,4) by (simp add: unat_word_of_int)
  have "mem_check_range mem iova (word_of_int len) = None"
    using assms len by (intro mem_check_range_inside) simp_all
  moreover have room: "region_off mem iova + nat len \<le> length (region_addrs bufs)"
    using assms(1,2,5) by (rule region_room)
  then have off: "region_off mem iova < length (region_addrs bufs)" using assms(3) by simp
  obtain k r where kr: "locate bufs (region_off mem iova) = (k, r)" by fastforce
  have "lookup_iova mem iova = Some (k div RXE_BUF_PER_MAP, k mod RXE_BUF_PER_MAP, of_nat r)"
    using lookup_iova_locate [OF assms(1,2) off] kr by simp
  moreover have "mem_copy_loop mem dir (k div RXE_BUF_PER_MAP, k mod RXE_BUF_PER_MAP) (of_nat r) len a crcp br
      = Some (copy_list dir A a br, map_option (\<lambda>c. crc32_le_serial CRCPOLY_LE c (moved dir A a br)) crcp)"
    using assms(3) by (intro mem_copy_loop_located [OF assms(1) off room kr _ assms(6)]) simp
  moreover have "mem_type mem \<noteq> RXE_MEM_TYPE_DMA" "mem_map mem \<noteq> None"
    using assms(1) by (auto simp: mem_region_def maps_full_def split: option.splits)
  ultimately show ?thesis by (simp add: rxe_mem_copy_def)
qed

text \<open>C13: Copying between a packet and a registered region, in either direction, at any offset and
  across any number of buffers and map pages, returns, and does what copying byte by byte at the
  region's consecutive addresses does; the code it carries along is the CRC of the bytes moved.\<close>

theorem rxe_mem_copy_correct:
  assumes "mem_region mem bufs" and "mem_iova mem \<le> iova" and "0 < len" and "len < 2147483648"
    and "unat iova + nat len \<le> unat (mem_iova mem) + unat (mem_length mem)"
  shows "let A = take (nat len) (drop (region_off mem iova) (region_addrs bufs))
    in rxe_mem_copy mem iova a len dir crcp br = Some (None, copy_list dir A a br,
      map_option (\<lambda>c. crc32_le_serial CRCPOLY_LE c (moved dir A a br)) crcp)"
  using rxe_mem_copy_region [OF assms refl] by (simp add: Let_def)

definition sample_mem :: rxe_mem where
  "sample_mem = \<lparr>mem_index = 1, mem_pool = RXE_TYPE_MR, mem_ib_lkey = 0x102, mem_ib_rkey = 0x102,
     mem_pd = Some 1, mem_umem = None, mem_lkey = 0x102, mem_rkey = 0x102,
     mem_state = RXE_MEM_STATE_VALID, mem_type = RXE_MEM_TYPE_MR, mem_va = 0x8000, mem_iova = 0x8000,
     mem_length = 6000, mem_offset = 100, mem_access = 7, mem_page_shift = 12, mem_page_mask = mask 12,
     mem_map_shift = 8, mem_map_mask = 255, mem_num_buf = 2, mem_max_buf = 256, mem_num_map = 1,
     mem_map = Some [\<lparr>pb_addr = 0xc0004000, pb_size = 4096\<rparr> # \<lparr>pb_addr = 0xc0001000, pb_size = 4096\<rparr>
       # replicate 254 \<lparr>pb_addr = 0, pb_size = 0\<rparr>]\<rparr>"

definition sample_bufs :: "ib_phys_buf list" where
  "sample_bufs = [\<lparr>pb_addr = 0xc0004000, pb_size = 4096\<rparr>, \<lparr>pb_addr = 0xc0001000, pb_size = 4096\<rparr>]"

lemma sample_region: "mem_region sample_mem sample_bufs"
  by (simp add: mem_region_def sample_mem_def sample_bufs_def maps_full_def flat_bufs_def)

theorem rxe_mem_copy_correct_witness:
  "let A = take 5000 (drop 103 (region_addrs sample_bufs))
   in rxe_mem_copy sample_mem 0x8003 12 5000 direction_in (Some 7) (\<lambda>_. 1, \<lambda>_. 2)
     = Some (None, copy_list direction_in A 12 (\<lambda>_. 1, \<lambda>_. 2),
         Some (crc32_le_serial CRCPOLY_LE 7 (moved direction_in A 12 (\<lambda>_. 1, \<lambda>_. 2))))"
proof -
  have c: "mem_iova sample_mem \<le> 0x8003"
    "unat (0x8003 :: u64) + nat 5000 \<le> unat (mem_iova sample_mem) + unat (mem_length sample_mem)"
    by (simp_all add: sample_mem_def)
  have o: "region_off sample_mem 0x8003 = 103" by (simp add: region_off_def sample_mem_def)
  have "0 < (5000 :: int)" "(5000 :: int) < 2147483648" by simp_all
  from rxe_mem_copy_correct [OF sample_region c(1) this c(2), where a = 12 and dir = direction_in
      and crcp = "Some 7" and br = "(\<lambda>_. 1, \<lambda>_. 2)"]
  show ?thesis by (simp only: o nat_numeral option.map)
qed

theorem mem_check_range_exact_witness:
  "mem_check_range sample_mem 0x8001 5999 = None \<and> mem_check_range sample_mem 0x8001 6000 \<noteq> None"
  using mem_check_range_exact [where mem = sample_mem and iova = "0x8001" and len = 5999]
    mem_check_range_exact [where mem = sample_mem and iova = "0x8001" and len = 6000]
  by (simp add: sample_mem_def)

theorem mem_check_range_wraps_witness: "mem_check_range sample_mem (- 1) 2 = None"
  by (rule mem_check_range_wraps) (simp_all add: sample_mem_def)

text \<open>C17: For a region of equal power-of-two pages the shifts and masks of the fast path find the
  same map page, buffer and offset as walking the buffers one after the other.\<close>

theorem lookup_iova_fast_path:
  assumes "mem_region mem bufs" and "mem_iova mem \<le> iova"
    and "unat iova < unat (mem_iova mem) + unat (mem_length mem)"
  shows "lookup_iova mem iova
    = lookup_walk mem (0, 0) (ucast (iova - mem_iova mem + ucast (mem_offset mem)))"
proof -
  have off: "region_off mem iova < length (region_addrs bufs)"
    using region_room [OF assms(1,2), of 1] assms(3) by simp
  let ?o = "ucast (iova - mem_iova mem + ucast (mem_offset mem)) :: u32"
  have o: "unat ?o = region_off mem iova"
    using assms(1,2) off by (intro region_off_word) (auto simp: mem_region_def length_region)
  obtain k r where kr: "locate bufs (region_off mem iova) = (k, r)" by fastforce
  have "lookup_walk mem (0, 0) ?o = Some (case (next_buf ^^ k) (0, 0) of (m, n) \<Rightarrow> (m, n, of_nat r))"
    by (rule lookup_walk_locate) (use assms(1) o off kr in \<open>auto simp: mem_region_def flat_index_def\<close>)
  then show ?thesis using lookup_iova_locate [OF assms(1,2) off] kr by (simp add: next_buf_iterate)
qed

theorem lookup_iova_fast_path_witness:
  "lookup_iova sample_mem 0x9000 = lookup_walk sample_mem (0, 0) (ucast (0x9000 - 0x8000 + 100 :: u64))"
  using lookup_iova_fast_path [OF sample_region, where iova = "0x9000"] by (simp add: sample_mem_def)

subsection \<open>Keys\<close>

fun keys_from :: "nat \<Rightarrow> u32 \<Rightarrow> u32 list" where
  "keys_from 0 key = []"
| "keys_from (Suc n) key = key # keys_from n (rxe_get_key key)"

lemma keys_from_iterate: "map (\<lambda>k. (rxe_get_key ^^ k) key) [0..<n] = keys_from n key"
proof (induction n arbitrary: key)
  case (Suc n)
  have "map (\<lambda>k. (rxe_get_key ^^ k) key) [0..<Suc n]
      = key # map (\<lambda>k. (rxe_get_key ^^ k) (rxe_get_key key)) [0..<n]"
    by (simp add: upt_conv_Cons map_Suc_upt [symmetric] comp_def funpow_swap1 del: upt_Suc)
  then show ?case using Suc.IH [of "rxe_get_key key"] by simp
qed simp

lemma keys_from_1: "keys_from 16 1 = [1, 2, 4, 8, 17, 34, 69, 139, 22, 44, 88, 176, 96, 192, 128, 1]"
proof -
  have n: "(16 :: nat) = Suc (Suc (Suc (Suc (Suc (Suc (Suc (Suc (Suc (Suc (Suc (Suc (Suc (Suc (Suc (Suc 0)))))))))))))))"
    by simp
  show ?thesis unfolding n by (simp add: rxe_get_key_def of_flag_def)
qed

text \<open>C37: The key generator of \<open>rxe_get_key\<close> repeats after 15 keys, not 255 as its
  comment says; within a period the keys are distinct and none is zero.\<close>

theorem rxe_get_key_period:
  "(rxe_get_key ^^ (n + 15)) 1 = (rxe_get_key ^^ n) 1
    \<and> distinct (map (\<lambda>k. (rxe_get_key ^^ k) 1) [0..<15])
    \<and> 0 \<notin> set (map (\<lambda>k. (rxe_get_key ^^ k) 1) [0..<15])"
proof -
  have k: "map (\<lambda>k. (rxe_get_key ^^ k) 1) [0..<16]
      = [1, 2, 4, 8, 17, 34, 69, 139, 22, 44, 88, 176, 96, 192, 128, 1]"
    by (simp only: keys_from_iterate keys_from_1)
  have "(rxe_get_key ^^ 15) 1 = map (\<lambda>k. (rxe_get_key ^^ k) 1) [0..<16] ! 15"
    by (subst nth_map) (simp_all del: upt_Suc upt_rec_numeral)
  then have "(rxe_get_key ^^ 15) 1 = 1" by (simp only: k) simp
  moreover have m: "map (\<lambda>k. (rxe_get_key ^^ k) 1) [0..<15]
      = [1, 2, 4, 8, 17, 34, 69, 139, 22, 44, 88, 176, 96, 192, 128]"
    using arg_cong [OF k, of "take 15"] by (simp only: take_map take_upt) simp
  ultimately have "(rxe_get_key ^^ (n + 15)) 1 = (rxe_get_key ^^ n) 1" by (simp add: funpow_add)
  with m show ?thesis by simp
qed

end
