(* ===== verification/Rxe_Reg.thy ===== *)
theory Rxe_Reg
  imports Rxe_Mr
begin

text \<open>
  What registration establishes: the operations of \<open>rxe_mr.c\<close> that fill the map of a
  region give a region as the copies rely on it, and what their error paths leave behind.
\<close>

subsection \<open>Filling the map\<close>

lemma concat_uniform_update:
  "list_all (\<lambda>p. length p = k) xs \<Longrightarrow> m < length xs \<Longrightarrow> n < k \<Longrightarrow>
    concat (xs[m := (xs ! m)[n := b]]) = (concat xs)[m * k + n := b]"
proof (induction xs arbitrary: m)
  case (Cons x xs)
  then show ?case by (cases m) (simp_all add: list_update_append add.assoc)
qed simp

lemma put_buf_flat:
  assumes "list_all (\<lambda>p. length p = RXE_BUF_PER_MAP) maps" and "n < RXE_BUF_PER_MAP"
    and "flat_index (m, n) < length (concat maps)"
  shows "\<exists>maps'. put_buf maps m n b = Some maps' \<and> length maps' = length maps
    \<and> list_all (\<lambda>p. length p = RXE_BUF_PER_MAP) maps'
    \<and> concat maps' = (concat maps)[flat_index (m, n) := b]"
proof -
  have m: "m < length maps"
    using assms(3) flat_index_less [OF assms(2), of m "length maps"] length_concat_uniform [OF assms(1)]
    by (simp add: flat_index_def)
  then show ?thesis using assms(1,2) concat_uniform_update [OF assms(1) m assms(2), of b]
    by (auto simp: put_buf_def flat_index_def list_all_length nth_list_update)
qed

lemma fill_bufs_flat:
  "list_all (\<lambda>p. length p = RXE_BUF_PER_MAP) maps \<Longrightarrow> snd mn < RXE_BUF_PER_MAP \<Longrightarrow>
    flat_index mn + length bs \<le> length (concat maps) \<Longrightarrow>
    \<exists>maps'. fill_bufs maps mn bs = Some maps' \<and> list_all (\<lambda>p. length p = RXE_BUF_PER_MAP) maps'
      \<and> concat maps' = take (flat_index mn) (concat maps) @ bs @ drop (flat_index mn + length bs) (concat maps)"
proof (induction bs arbitrary: maps mn)
  case (Cons b bs)
  obtain m n where [simp]: "mn = (m, n)" by fastforce
  obtain maps1 where 1: "put_buf maps m n b = Some maps1" "length maps1 = length maps"
    "list_all (\<lambda>p. length p = RXE_BUF_PER_MAP) maps1" "concat maps1 = (concat maps)[flat_index mn := b]"
    using put_buf_flat [of maps n m b] Cons.prems by auto
  from 1(4) have len: "length (concat maps1) = length (concat maps)" by simp
  have "snd (next_buf mn) < RXE_BUF_PER_MAP" "flat_index (next_buf mn) = Suc (flat_index mn)"
    using Cons.prems(2) by simp_all
  with Cons.IH [of maps1 "next_buf mn"] Cons.prems(3) 1 len obtain maps2 where
    2: "fill_bufs maps1 (next_buf mn) bs = Some maps2" "list_all (\<lambda>p. length p = RXE_BUF_PER_MAP) maps2"
    "concat maps2 = take (Suc (flat_index mn)) (concat maps1) @ bs @ drop (Suc (flat_index mn) + length bs) (concat maps1)"
    by auto
  have "take (Suc (flat_index mn)) (concat maps1) = take (flat_index mn) (concat maps) @ [b]"
    using Cons.prems(3) by (simp add: 1(4) take_Suc_conv_app_nth)
  then show ?case using 1 2 by simp
qed auto

lemma alloc_pages_ok:
  "(\<And>i. \<exists>p. kmalloc_page i = Some p \<and> length p = RXE_BUF_PER_MAP) \<Longrightarrow>
    \<exists>pages. alloc_pages kmalloc_page i n = (None, pages) \<and> length pages = n
      \<and> list_all (\<lambda>p. length p = RXE_BUF_PER_MAP) pages"
proof (induction n arbitrary: i)
  case (Suc n)
  from Suc.prems obtain p where p: "kmalloc_page i = Some p" "length p = RXE_BUF_PER_MAP" by blast
  from Suc.IH [OF Suc.prems, of "Suc i"] show ?case by (auto simp: p)
qed simp

lemma unat_pow_u32: "k < 32 \<Longrightarrow> unat (2 ^ k :: u32) = 2 ^ k"
  using unat_push_bit_1 [of k] by simp

lemma ilog2_pow:
  assumes "k < 32"
  shows "ilog2 (2 ^ k) = k"
proof -
  have "unat (2 ^ k :: u32) = 2 ^ k" using unat_push_bit_1 [OF assms] by simp
  moreover have "bitlen (2 ^ k) = Suc k" by (rule bitlen_unique) simp_all
  ultimately show ?thesis by (simp add: ilog2_def fls_eq_bitlen)
qed

lemma ilog2_bufs [simp]: "ilog2 256 = 8"
  using ilog2_pow [of 8] by simp

lemma is_power_of_2_pow:
  assumes "k < 32"
  shows "is_power_of_2 (2 ^ k)"
proof -
  have "push_bit k 1 AND mask k = (0 :: u32)" by (rule bit_word_eqI) (auto simp: bit_simps)
  moreover have "unat (2 ^ k :: u32) \<noteq> 0" using unat_push_bit_1 [OF assms] by simp
  ultimately show ?thesis using assms by (auto simp: is_power_of_2_def mask_eq_exp_minus_1)
qed

text \<open>Every page allocation succeeds.\<close>

definition kmalloc_ok :: "(nat \<Rightarrow> ib_phys_buf list option) \<Rightarrow> bool" where
  "kmalloc_ok kmalloc_page \<longleftrightarrow> (\<forall>i. \<exists>p. kmalloc_page i = Some p \<and> length p = RXE_BUF_PER_MAP)"

lemma rxe_mem_alloc_ok:
  assumes "kmalloc_ok kmalloc_page"
  shows "\<exists>pages. rxe_mem_alloc True kmalloc_page mem n = (None, mem\<lparr>mem_map := Some pages, mem_map_shift := 8,
      mem_map_mask := 255, mem_num_buf := n, mem_num_map := (255 + n) div 256,
      mem_max_buf := (255 + n) div 256 * 256\<rparr>, [])
    \<and> list_all (\<lambda>p. length p = RXE_BUF_PER_MAP) pages \<and> n \<le> length (concat pages)
    \<and> length pages = (255 + n) div 256"
proof -
  obtain pages where p: "alloc_pages kmalloc_page 0 ((255 + n) div 256) = (None, pages)"
    "length pages = (255 + n) div 256" "list_all (\<lambda>p. length p = RXE_BUF_PER_MAP) pages"
    using alloc_pages_ok [of kmalloc_page 0 "(255 + n) div 256"] assms unfolding kmalloc_ok_def by blast
  have "n \<le> (255 + n) div 256 * 256" by linarith
  then show ?thesis using p length_concat_uniform [OF p(3)] by (auto simp: rxe_mem_alloc_def Let_def)
qed

lemma user_fill_pages:
  "user_fill sz maps mn (map Some vas)
    = map_option (Pair True) (fill_bufs maps mn (map (\<lambda>va. \<lparr>pb_addr = ucast va, pb_size = ucast sz\<rparr>) vas))"
  by (induction vas arbitrary: maps mn) (simp_all split: option.splits)

text \<open>Pages of one size make a region.\<close>

lemma mem_region_uniform:
  assumes "mem_map mem = Some maps" and "list_all (\<lambda>p. length p = RXE_BUF_PER_MAP) maps"
    and "concat maps = bufs @ rest" and "list_all (\<lambda>b. pb_size b = 2 ^ s) bufs"
    and "mem_page_shift mem = s" and "s < 31" and "mem_page_mask mem = 2 ^ s - 1"
    and "mem_map_shift mem = 8" and "mem_map_mask mem = 255"
    and "mem_type mem \<in> {RXE_MEM_TYPE_MR, RXE_MEM_TYPE_FMR}"
    and "unat (mem_offset mem) + unat (mem_length mem) \<le> 2 ^ s * length bufs"
    and "2 ^ s * length bufs < 4294967296"
    and "unat (mem_iova mem) + unat (mem_length mem) < 18446744073709551616"
  shows "mem_region mem bufs"
proof -
  have u: "list_all (\<lambda>b. unat (pb_size b) = 2 ^ s) bufs"
    using assms(4,6) by (auto simp: list_all_iff unat_pow_u64)
  then have "sum_list (map (\<lambda>b. unat (pb_size b)) bufs) = 2 ^ s * length bufs"
    using length_region_uniform [OF u] by (simp add: length_region)
  moreover have "(2 :: nat) ^ s < 2147483648"
    using power_strict_increasing [OF assms(6), of "2 :: nat"] by simp
  ultimately show ?thesis using assms u
    by (auto simp: mem_region_def maps_full_def flat_bufs_def list_all_iff mask_eq_exp_minus_1)
qed

text \<open>What registering a pinned user area gives.\<close>

lemma rxe_mem_init_user_ok:
  fixes vas :: "u32 list" and s :: nat
  assumes "kmalloc_ok kmalloc_page"
    and "um_page_size umem = 2 ^ s" and "0 < s" and "s < 31" and "concat (um_chunks umem) = map Some vas"
    and "0 < len" and "unat (um_offset umem) + unat len \<le> 2 ^ s * length vas"
    and "2 ^ s * length vas < 4294967296" and "unat iova + unat len < 18446744073709551616"
    and "bufs = map (\<lambda>va. \<lparr>pb_addr = ucast va, pb_size = 2 ^ s\<rparr>) vas"
  shows "\<exists>mem'. rxe_mem_init_user True kmalloc_page pd start len iova access (Some umem) mem key
      = Some (None, mem', rxe_get_key key, [])
    \<and> mem_region mem' bufs \<and> mem_state mem' = RXE_MEM_STATE_VALID \<and> mem_pd mem' = Some pd
    \<and> mem_umem mem' = Some (um_id umem) \<and> mem_access mem' = access \<and> mem_iova mem' = iova
    \<and> mem_offset mem' = um_offset umem \<and> unat (mem_length mem') = unat len"
proof -
  have n: "sum_list (map length (um_chunks umem)) = length vas"
    using arg_cong [OF assms(5), of length] by (simp add: length_concat)
  obtain mem1 where 1: "rxe_mem_init access mem key = (mem1, rxe_get_key key)"
    by (simp add: rxe_mem_init_def Let_def)
  have 1: "rxe_mem_init access (mem\<lparr>mem_umem := Some (um_id umem)\<rparr>) key = (mem1, rxe_get_key key)"
    using 1 by (auto simp: rxe_mem_init_def Let_def)
  from rxe_mem_alloc_ok [OF assms(1), of mem1 "length vas"] obtain pages where
    p: "rxe_mem_alloc True kmalloc_page mem1 (length vas) = (None, mem1\<lparr>mem_map := Some pages,
      mem_map_shift := 8, mem_map_mask := 255, mem_num_buf := length vas,
      mem_num_map := (255 + length vas) div 256, mem_max_buf := (255 + length vas) div 256 * 256\<rparr>, [])"
    "list_all (\<lambda>p. length p = RXE_BUF_PER_MAP) pages" "length vas \<le> length (concat pages)" by auto
  have "unat len < 4294967296" using assms(7,8) by linarith
  then have l: "unat (ucast len :: u32) = unat len" by (rule unat_ucast_u32)
  have ne: "pages \<noteq> []" using p(3) assms(6,7) by (auto simp: word_less_nat_alt)
  have sz: "(ucast (2 ^ s :: u32) :: u64) = 2 ^ s"
    using assms(4) by (intro word_unat_eq_iff [THEN iffD2]) (simp add: unat_pow_u64 unat_pow_u32)
  obtain maps where f: "fill_bufs pages (0, 0) bufs = Some maps"
    "list_all (\<lambda>p. length p = RXE_BUF_PER_MAP) maps" "concat maps = bufs @ drop (length bufs) (concat pages)"
    using fill_bufs_flat [OF p(2), of "(0, 0)" bufs] p(3) assms(10) by (auto simp: flat_index_def)
  have "\<exists>mem'. rxe_mem_init_user True kmalloc_page pd start len iova access (Some umem) mem key
      = Some (None, mem', rxe_get_key key, []) \<and> mem_map mem' = Some maps \<and> mem_page_shift mem' = s
    \<and> mem_page_mask mem' = 2 ^ s - 1 \<and> mem_map_shift mem' = 8 \<and> mem_map_mask mem' = 255
    \<and> mem_type mem' = RXE_MEM_TYPE_MR \<and> mem_state mem' = RXE_MEM_STATE_VALID \<and> mem_pd mem' = Some pd
    \<and> mem_umem mem' = Some (um_id umem) \<and> mem_access mem' = access \<and> mem_iova mem' = iova
    \<and> mem_offset mem' = um_offset umem \<and> mem_length mem' = ucast len"
    using assms(2,4,5,6,10) f(1) ne
    by (simp add: rxe_mem_init_user_def n 1 p(1) is_power_of_2_pow ilog2_pow user_fill_pages sz)
  then obtain mem' where m: "rxe_mem_init_user True kmalloc_page pd start len iova access (Some umem) mem key
      = Some (None, mem', rxe_get_key key, [])" "mem_map mem' = Some maps" "mem_page_shift mem' = s"
    "mem_page_mask mem' = 2 ^ s - 1" "mem_map_shift mem' = 8" "mem_map_mask mem' = 255"
    "mem_type mem' = RXE_MEM_TYPE_MR" "mem_state mem' = RXE_MEM_STATE_VALID" "mem_pd mem' = Some pd"
    "mem_umem mem' = Some (um_id umem)" "mem_access mem' = access" "mem_iova mem' = iova"
    "mem_offset mem' = um_offset umem" "mem_length mem' = ucast len" by blast
  have "mem_region mem' bufs"
    by (rule mem_region_uniform [OF m(2) f(2,3)])
      (use m assms(4,7,8,9) l in \<open>simp_all add: assms(10) list_all_iff\<close>)
  with m l show ?thesis by auto
qed

text \<open>C18: Registering a pinned user area whose pages are all mapped and whose range fits its pages,
  when the allocations succeed, returns success, and the region it leaves is a valid region over
  exactly the pinned pages in order, at the requested address, length and offset.\<close>

theorem rxe_mem_init_user_region:
  fixes vas :: "u32 list" and s :: nat
  assumes "kmalloc_ok kmalloc_page"
    and "um_page_size umem = 2 ^ s" and "0 < s" and "s < 31" and "concat (um_chunks umem) = map Some vas"
    and "0 < len" and "unat (um_offset umem) + unat len \<le> 2 ^ s * length vas"
    and "2 ^ s * length vas < 4294967296" and "unat iova + unat len < 18446744073709551616"
  shows "\<exists>mem'. rxe_mem_init_user True kmalloc_page pd start len iova access (Some umem) mem key
      = Some (None, mem', rxe_get_key key, [])
    \<and> mem_region mem' (map (\<lambda>va. \<lparr>pb_addr = ucast va, pb_size = 2 ^ s\<rparr>) vas)
    \<and> mem_state mem' = RXE_MEM_STATE_VALID \<and> mem_pd mem' = Some pd
    \<and> mem_umem mem' = Some (um_id umem) \<and> mem_access mem' = access \<and> mem_iova mem' = iova
    \<and> mem_offset mem' = um_offset umem \<and> unat (mem_length mem') = unat len"
  using rxe_mem_init_user_ok [OF assms refl] .

definition sample_umem :: ib_umem where
  "sample_umem = \<lparr>um_id = 9, um_page_size = 4096, um_offset = 100,
     um_chunks = [[Some 0xc0004000], [Some 0xc0001000]]\<rparr>"

definition sample_page :: "nat \<Rightarrow> ib_phys_buf list option" where
  "sample_page i = Some (replicate 256 \<lparr>pb_addr = 0, pb_size = 0\<rparr>)"

lemma sample_page_ok: "kmalloc_ok sample_page"
  by (simp only: kmalloc_ok_def sample_page_def option.inject ex_simps) (auto simp only: length_replicate)

theorem rxe_mem_init_user_region_witness:
  "\<exists>mem'. rxe_mem_init_user True sample_page 1 0x8064 6000 0x8064 7 (Some sample_umem) sample_mem 1
      = Some (None, mem', rxe_get_key 1, [])
    \<and> mem_region mem' sample_bufs"
  using rxe_mem_init_user_region [OF sample_page_ok, where umem = sample_umem and s = 12
      and vas = "[0xc0004000, 0xc0001000]" and len = 6000 and iova = "0x8064" and pd = 1
      and start = "0x8064" and access = 7 and mem = sample_mem and key = 1]
  by (auto simp: sample_umem_def sample_bufs_def)

lemma scast_pow:
  assumes "k < 31"
  shows "(scast (push_bit k 1 :: u32) :: u64) = 2 ^ k"
proof -
  have "(2 :: nat) ^ k < 2147483648" using power_strict_increasing [OF assms, of "2 :: nat"] by simp
  then have "sint (2 ^ k :: u32) = 2 ^ k" using assms by (simp add: sint_unat unat_pow_u32)
  then show ?thesis by (simp add: scast_eq)
qed

lemma unat_push_bit_len:
  assumes "2 ^ k * n < (4294967296 :: nat)"
  shows "unat (push_bit k (of_nat n) :: u32) = 2 ^ k * n"
proof -
  have "n \<le> 2 ^ k * n" by simp
  then have "n < 4294967296" using assms by linarith
  then have "unat (of_nat n :: u32) = n" by (simp add: unsigned_of_nat take_bit_nat_eq_self)
  then show ?thesis using assms
    by (simp only: unsigned_push_bit_eq) (simp add: push_bit_eq_mult take_bit_nat_eq_self mult.commute)
qed

text \<open>C19: Mapping pages into a fast memory region of enough buffers returns, and leaves a valid
  region over exactly those pages in order; more pages than the region has buffers are refused and
  nothing changes.\<close>

theorem rxe_mem_map_pages_region:
  assumes "maps_full mem" and "0 < length page" and "mem_max_buf mem \<le> length (flat_bufs mem)"
    and "mem_page_shift mem < 31" and "mem_page_mask mem = 2 ^ mem_page_shift mem - 1"
    and "mem_map_shift mem = 8" and "mem_map_mask mem = 255" and "mem_offset mem = 0"
    and "mem_type mem \<in> {RXE_MEM_TYPE_MR, RXE_MEM_TYPE_FMR}"
    and "2 ^ mem_page_shift mem * length page < 4294967296"
    and "unat iova + 2 ^ mem_page_shift mem * length page < 18446744073709551616"
  shows "if mem_max_buf mem < length page then rxe_mem_map_pages mem page iova = Some (Some EINVAL, mem)
    else \<exists>mem'. rxe_mem_map_pages mem page iova = Some (None, mem')
      \<and> mem_region mem' (map (\<lambda>a. \<lparr>pb_addr = a, pb_size = 2 ^ mem_page_shift mem\<rparr>) page)
      \<and> mem_state mem' = RXE_MEM_STATE_VALID \<and> mem_iova mem' = iova
      \<and> unat (mem_length mem') = 2 ^ mem_page_shift mem * length page"
proof (cases "mem_max_buf mem < length page")
  case False
  let ?s = "mem_page_shift mem"
  let ?bufs = "map (\<lambda>a. \<lparr>pb_addr = a, pb_size = 2 ^ ?s\<rparr>) page"
  obtain maps where m: "mem_map mem = Some maps" "list_all (\<lambda>p. length p = RXE_BUF_PER_MAP) maps"
    using assms(1) by (auto simp: maps_full_def split: option.splits)
  have le: "length page \<le> length (concat maps)" using assms(3) False m(1) by (simp add: flat_bufs_def)
  then have ne: "maps \<noteq> []" using assms(2) by auto
  have sz: "(scast (push_bit ?s 1 :: u32) :: u64) = 2 ^ ?s"
    using assms(4) by (rule scast_pow)
  obtain maps' where f: "fill_bufs maps (0, 0) ?bufs = Some maps'"
    "list_all (\<lambda>p. length p = RXE_BUF_PER_MAP) maps'" "concat maps' = ?bufs @ drop (length page) (concat maps)"
    using fill_bufs_flat [OF m(2), of "(0, 0)" ?bufs] le by (auto simp: flat_index_def)
  have l: "unat (push_bit ?s (of_nat (length page)) :: u32) = 2 ^ ?s * length page"
    using assms(10) by (rule unat_push_bit_len)
  define mem' where "mem' = mem\<lparr>mem_map := Some maps', mem_iova := iova, mem_va := iova,
    mem_length := push_bit ?s (of_nat (length page)), mem_state := RXE_MEM_STATE_VALID\<rparr>"
  have "rxe_mem_map_pages mem page iova = Some (None, mem')"
    using False m(1) ne f(1) sz by (cases maps) (simp_all add: rxe_mem_map_pages_def mem'_def Let_def)
  moreover have "mem_region mem' ?bufs"
    by (rule mem_region_uniform [of _ maps' _ _ ?s])
      (use f assms(4-11) l in \<open>simp_all add: mem'_def list_all_iff\<close>)
  moreover have "mem_state mem' = RXE_MEM_STATE_VALID" "mem_iova mem' = iova"
    "unat (mem_length mem') = 2 ^ ?s * length page" using l by (simp_all add: mem'_def)
  ultimately show ?thesis using False by auto
qed (simp add: rxe_mem_map_pages_def)

theorem rxe_mem_map_pages_region_witness:
  "\<exists>mem'. rxe_mem_map_pages (sample_mem\<lparr>mem_offset := 0\<rparr>) [0xc0004000, 0xc0001000] 0x5000 = Some (None, mem')
    \<and> mem_region mem' sample_bufs"
proof -
  have "maps_full (sample_mem\<lparr>mem_offset := 0\<rparr>)" "length (flat_bufs (sample_mem\<lparr>mem_offset := 0\<rparr>)) = 256"
    by (simp_all add: sample_mem_def maps_full_def flat_bufs_def)
  then show ?thesis
    using rxe_mem_map_pages_region [where mem = "sample_mem\<lparr>mem_offset := 0\<rparr>"
      and page = "[0xc0004000, 0xc0001000]" and iova = "0x5000"]
    by (auto simp: sample_mem_def sample_bufs_def mask_eq_exp_minus_1)
qed

subsection \<open>Error paths\<close>

text \<open>C38: When a map page cannot be allocated, \<open>rxe_mem_alloc\<close> frees the map but leaves the
  pointer to it in the region, so releasing the region, which every caller does next, frees the
  map a second time.\<close>

theorem rxe_mem_alloc_double_free:
  assumes "rxe_mem_alloc True kmalloc_page mem n = (Some err, mem', rel)"
  shows "err = ENOMEM \<and> Free_map \<in> set rel \<and> Free_map \<in> set (rxe_mem_cleanup mem')"
  using assms by (auto simp: rxe_mem_alloc_def rxe_mem_cleanup_def Let_def split: prod.splits option.splits)

theorem rxe_mem_alloc_double_free_witness:
  "let (err, mem', rel) = rxe_mem_alloc True (\<lambda>_. None) sample_mem 1
   in err = Some ENOMEM \<and> Free_map \<in> set rel \<and> Free_map \<in> set (rxe_mem_cleanup mem')"
proof -
  obtain mem' rel where r: "rxe_mem_alloc True (\<lambda>_. None) sample_mem 1 = (Some ENOMEM, mem', rel)"
    by (simp add: rxe_mem_alloc_def)
  then show ?thesis using rxe_mem_alloc_double_free [OF r] by simp
qed

text \<open>C39: Every error path of \<open>rxe_mem_init_user\<close> behind \<open>ib_umem_get\<close> loses the
  pinned area: the region no longer refers to it, nothing has released it, and releasing the
  region will not either.\<close>

theorem rxe_mem_init_user_leaks:
  assumes "rxe_mem_init_user ok kmalloc_page pd start len iova access (Some umem) mem key
    = Some (Some err, mem', key', rel)"
  shows "mem_umem mem' = None \<and> Release_umem (um_id umem) \<notin> set (rel @ rxe_mem_cleanup mem')"
  using assms
  by (auto simp: rxe_mem_init_user_def rxe_mem_init_def rxe_mem_alloc_def rxe_mem_cleanup_def Let_def
    split: prod.splits option.splits if_splits bool.splits)

theorem rxe_mem_init_user_leaks_witness:
  "\<exists>mem' key' rel. rxe_mem_init_user True (\<lambda>_. None) 1 0 10 0 7 (Some sample_umem) sample_mem 1
      = Some (Some ENOMEM, mem', key', rel)
    \<and> mem_umem mem' = None \<and> Release_umem 9 \<notin> set (rel @ rxe_mem_cleanup mem')"
proof -
  obtain mem' key' rel where r: "rxe_mem_init_user True (\<lambda>_. None) 1 0 10 0 7 (Some sample_umem) sample_mem 1
      = Some (Some ENOMEM, mem', key', rel)"
    by (simp add: rxe_mem_init_user_def rxe_mem_init_def rxe_mem_alloc_def Let_def sample_umem_def)
  then show ?thesis using rxe_mem_init_user_leaks [OF r] by (simp add: sample_umem_def)
qed

lemma phys_sizes_min:
  assumes "list_all (\<lambda>b. unat (pb_size b) < 2147483648) bufs"
  shows "case phys_sizes bufs of (len, mx, mn) \<Rightarrow> unat mx < 2147483648 \<and> mn = - 1"
  using assms
proof (induction bufs rule: rev_induct)
  case Nil
  then show ?case by (simp add: phys_sizes_def)
next
  case (snoc b bs)
  have "unat (ucast (pb_size b) :: u32) < 2147483648" using snoc.prems by (simp add: unat_ucast_u32)
  moreover have "- 1 < uint (ucast (pb_size b) :: u32)"
    using unsigned_greater_eq [of "ucast (pb_size b) :: u32", where 'a = int] by linarith
  ultimately show ?case using snoc by (auto simp: phys_sizes_def Let_def sint_unat split: prod.splits)
qed

text \<open>The minimum of the buffer sizes is taken as a signed integer with the initial value -1,
  so it never rises above -1, and a region of equal power-of-two physical buffers never gets its
  page shift: the fast path of the translation is dead for these regions.\<close>

theorem rxe_mem_init_phys_no_fast_path:
  assumes "list_all (\<lambda>b. unat (pb_size b) < 2147483648) phys_buf"
    and "rxe_mem_init_phys ok kmalloc_page pd access iova phys_buf mem key = Some (None, mem', key', rel)"
  shows "mem_page_shift mem' = 0"
proof -
  obtain len mx where p: "phys_sizes phys_buf = (len, mx, - 1)" "unat mx < 2147483648"
    using phys_sizes_min [OF assms(1)] by (auto split: prod.splits)
  have "mx \<noteq> - 1"
  proof
    assume "mx = - 1"
    with p(2) show False by (simp add: unsigned_minus_1_eq_mask mask_eq_exp_minus_1)
  qed
  then show ?thesis using assms(2)
    by (auto simp: rxe_mem_init_phys_def rxe_mem_init_def rxe_mem_alloc_def Let_def p(1)
      split: prod.splits option.splits if_splits)
qed

theorem rxe_mem_init_phys_no_fast_path_witness:
  "\<exists>mem' key' rel. rxe_mem_init_phys True sample_page 1 7 0 sample_bufs sample_mem 1 = Some (None, mem', key', rel)
    \<and> mem_page_shift mem' = 0"
proof -
  let ?init = "rxe_mem_init 7 sample_mem 1"
  have s: "length sample_bufs = 2" by (simp add: sample_bufs_def)
  obtain pages where p: "rxe_mem_alloc True sample_page (fst ?init) 2 = (None, (fst ?init)\<lparr>mem_map := Some pages,
      mem_map_shift := 8, mem_map_mask := 255, mem_num_buf := 2, mem_num_map := 1, mem_max_buf := 256\<rparr>, [])"
    "list_all (\<lambda>p. length p = RXE_BUF_PER_MAP) pages" "2 \<le> length (concat pages)"
    using rxe_mem_alloc_ok [OF sample_page_ok, of "fst ?init" 2] by auto
  obtain maps where "fill_bufs pages (0, 0) sample_bufs = Some maps"
    using fill_bufs_flat [OF p(2), of "(0, 0)" sample_bufs] p(3) s by (auto simp: flat_index_def)
  moreover have "pages \<noteq> []" using p(3) by auto
  ultimately have "\<exists>mem' key' rel. rxe_mem_init_phys True sample_page 1 7 0 sample_bufs sample_mem 1
      = Some (None, mem', key', rel)"
    using p(1) s by (auto simp: rxe_mem_init_phys_def Let_def split: prod.splits)
  then show ?thesis
    using rxe_mem_init_phys_no_fast_path [where phys_buf = sample_bufs] by (fastforce simp: sample_bufs_def)
qed

end
