(* ===== verification/Rxe_Dma.thy ===== *)
theory Rxe_Dma
  imports Rxe_Reg
begin

text \<open>
  Finding a region by key and copying along a scatter/gather list: \<open>lookup_mem\<close>,
  \<open>copy_data\<close> and \<open>advance_dma_data\<close> of \<open>rxe_mr.c\<close>.
\<close>

subsection \<open>Data\<close>

datatype lookup_type = lookup_local | lookup_remote

record ib_sge =
  sge_addr :: u64
  sge_length :: u32
  sge_lkey :: u32

text \<open>The union of the descriptor holds the scatter/gather list or the inline data.\<close>

record rxe_dma_info =
  dma_length :: u32
  dma_resid :: u32
  dma_cur_sge :: u32
  dma_num_sge :: u32
  dma_sge_offset :: u32
  dma_inline :: bytes
  dma_sge :: "ib_sge list"

text \<open>The part of a device that memory operations use: the pools of regions, fast regions and
  windows, the regions themselves by address, what has been released, and kernel memory.\<close>

record rxe_mdev =
  md_mr :: rxe_pool
  md_fmr :: rxe_pool
  md_mw :: rxe_pool
  md_mem :: "nat \<Rightarrow> rxe_mem"
  md_released :: "mem_release list"
  md_ram :: ram

definition md_pool :: "rxe_elem_type \<Rightarrow> rxe_mdev \<Rightarrow> rxe_pool" where
  "md_pool ty md = (if ty = RXE_TYPE_MR then md_mr md else if ty = RXE_TYPE_FMR then md_fmr md else md_mw md)"

definition md_set_pool :: "rxe_elem_type \<Rightarrow> rxe_pool \<Rightarrow> rxe_mdev \<Rightarrow> rxe_mdev" where
  "md_set_pool ty pool md = (if ty = RXE_TYPE_MR then md\<lparr>md_mr := pool\<rparr>
     else if ty = RXE_TYPE_FMR then md\<lparr>md_fmr := pool\<rparr> else md\<lparr>md_mw := pool\<rparr>)"

text \<open>\<open>rxe_drop_ref(mem)\<close>, with \<open>rxe_mem_cleanup\<close> as the cleanup of the pool.\<close>

definition drop_mem :: "nat \<Rightarrow> rxe_mdev \<Rightarrow> rxe_mdev" where
  "drop_mem h md = (let ty = mem_pool (md_mem md h) in
     case rxe_drop_ref (\<lambda>h pw. (fst pw, snd pw @ rxe_mem_cleanup (md_mem md h))) h (md_pool ty md, md_released md) of
       (pool, rel) \<Rightarrow> (md_set_pool ty pool md)\<lparr>md_released := rel\<rparr>)"

subsection \<open>lookup_mem\<close>

text \<open>The pool a key belongs to, by its upper 24 bits.\<close>

definition key_pool :: "u32 \<Rightarrow> rxe_elem_type option" where
  "key_pool key = (let index = drop_bit 8 key in
     if RXE_MIN_MR_INDEX \<le> index \<and> index \<le> RXE_MAX_MR_INDEX then Some RXE_TYPE_MR
     else if RXE_MIN_FMR_INDEX \<le> index \<and> index \<le> RXE_MAX_FMR_INDEX then Some RXE_TYPE_FMR
     else if RXE_MIN_MW_INDEX \<le> index \<and> index \<le> RXE_MAX_MW_INDEX then Some RXE_TYPE_MW
     else None)"

definition lookup_mem :: "nat \<Rightarrow> u32 \<Rightarrow> u32 \<Rightarrow> lookup_type \<Rightarrow> rxe_mdev \<Rightarrow> nat option \<times> rxe_mdev" where
  "lookup_mem pd access key ltype md =
     (case key_pool key of None \<Rightarrow> (None, md)
      | Some ty \<Rightarrow>
        (case rxe_pool_get_index (md_pool ty md) (drop_bit 8 key) of
           (None, pool) \<Rightarrow> (None, md_set_pool ty pool md)
         | (Some h, pool) \<Rightarrow>
             let md = md_set_pool ty pool md; mem = md_mem md h
             in if (ltype = lookup_local \<and> mem_lkey mem \<noteq> key) \<or> (ltype = lookup_remote \<and> mem_rkey mem \<noteq> key)
                   \<or> mem_pd mem \<noteq> Some pd
                   \<or> (access \<noteq> 0 \<and> access AND mem_access mem = 0)
                   \<or> mem_state mem \<noteq> RXE_MEM_STATE_VALID
                then (None, drop_mem h md)
                else (Some h, md)))"

subsection \<open>copy_data\<close>

text \<open>The variables of the loop; the scatter/gather element is the one at \<open>cur_sge\<close>.\<close>

record copy_st =
  cs_dma :: rxe_dma_info
  cs_offset :: u32
  cs_resid :: int
  cs_len :: int
  cs_addr :: int
  cs_mem :: "nat option"
  cs_buf :: bytes
  cs_crc :: "u32 option"
  cs_dev :: rxe_mdev

definition cur_sge :: "rxe_dma_info \<Rightarrow> ib_sge option" where
  "cur_sge dma = (if unat (dma_cur_sge dma) < length (dma_sge dma)
     then Some (dma_sge dma ! unat (dma_cur_sge dma)) else None)"

definition put_mem :: "copy_st \<Rightarrow> copy_st" where
  "put_mem st = (case cs_mem st of None \<Rightarrow> st
     | Some h \<Rightarrow> st\<lparr>cs_mem := None, cs_dev := drop_mem h (cs_dev st)\<rparr>)"

text \<open>The part of the loop behind the choice of the element: the copy itself. \<open>Inl\<close> is an error
  exit.\<close>

definition copy_chunk :: "ib_sge \<Rightarrow> copy_direction \<Rightarrow> copy_st \<Rightarrow> ((errno \<times> copy_st) + copy_st) option" where
  "copy_chunk sge dir st =
     (let rest = sge_length sge - cs_offset st;
          bytes = (if rest < word_of_int (cs_len st) then sint rest else cs_len st)
      in if 0 < bytes
         then case cs_mem st of None \<Rightarrow> None
           | Some h \<Rightarrow>
             (case rxe_mem_copy (md_mem (cs_dev st) h) (sge_addr sge + scast (cs_offset st)) (cs_addr st) bytes dir
                 (cs_crc st) (cs_buf st, md_ram (cs_dev st)) of
                None \<Rightarrow> None
              | Some (Some err, _) \<Rightarrow> Some (Inl (err, put_mem st))
              | Some (None, (buf, ram), crc) \<Rightarrow>
                  Some (Inr (st\<lparr>cs_buf := buf, cs_dev := (cs_dev st)\<lparr>md_ram := ram\<rparr>, cs_crc := crc,
                    cs_offset := cs_offset st + word_of_int bytes, cs_resid := cs_resid st - bytes,
                    cs_len := cs_len st - bytes, cs_addr := cs_addr st + bytes\<rparr>)))
         else Some (Inr st))"

definition copy_step :: "nat \<Rightarrow> u32 \<Rightarrow> copy_direction \<Rightarrow> copy_st \<Rightarrow> ((errno \<times> copy_st) + copy_st) option" where
  "copy_step pd access dir st =
     (case cur_sge (cs_dma st) of None \<Rightarrow> None
      | Some sge \<Rightarrow>
        if sge_length sge \<le> cs_offset st
        then let st = put_mem st;
                 dma = (cs_dma st)\<lparr>dma_cur_sge := dma_cur_sge (cs_dma st) + 1\<rparr>;
                 st = st\<lparr>cs_dma := dma, cs_offset := 0\<rparr>
          in if dma_num_sge dma \<le> dma_cur_sge dma then Some (Inl (ENOSPC, st))
             else case cur_sge dma of None \<Rightarrow> None
               | Some sge \<Rightarrow>
                 if sge_length sge \<noteq> 0
                 then case lookup_mem pd access (sge_lkey sge) lookup_local (cs_dev st) of
                     (None, md) \<Rightarrow> Some (Inl (EINVAL, st\<lparr>cs_dev := md\<rparr>))
                   | (Some h, md) \<Rightarrow> copy_chunk sge dir (st\<lparr>cs_mem := Some h, cs_dev := md\<rparr>)
                 else Some (Inr st)
        else copy_chunk sge dir st)"

partial_function (option) copy_loop ::
    "nat \<Rightarrow> u32 \<Rightarrow> copy_direction \<Rightarrow> copy_st \<Rightarrow> ((errno \<times> copy_st) + copy_st) option" where
  "copy_loop pd access dir st =
     (if 0 < cs_len st
      then case copy_step pd access dir st of None \<Rightarrow> None
        | Some (Inl e) \<Rightarrow> Some (Inl e)
        | Some (Inr st) \<Rightarrow> copy_loop pd access dir st
      else Some (Inr st))"

text \<open>The final state holds the descriptor, the packet buffer, the code and the device; on an
  error the descriptor keeps the element the loop had reached.\<close>

definition copy_data ::
    "nat \<Rightarrow> u32 \<Rightarrow> rxe_dma_info \<Rightarrow> bytes \<Rightarrow> int \<Rightarrow> int \<Rightarrow> copy_direction \<Rightarrow> u32 option \<Rightarrow> rxe_mdev
     \<Rightarrow> (errno option \<times> rxe_dma_info \<times> bytes \<times> u32 option \<times> rxe_mdev) option" where
  "copy_data pd access dma buf a len dir crcp md =
     (if len = 0 then Some (None, dma, buf, crcp, md)
      else if sint (dma_resid dma) < len then Some (Some EINVAL, dma, buf, crcp, md)
      else case cur_sge dma of None \<Rightarrow> None
        | Some sge \<Rightarrow>
          let found = (if sge_length sge \<noteq> 0 \<and> dma_sge_offset dma < sge_length sge
                then case lookup_mem pd access (sge_lkey sge) lookup_local md of
                    (None, md) \<Rightarrow> Inl md | (Some h, md) \<Rightarrow> Inr (Some h, md)
                else Inr (None, md))
          in case found of Inl md \<Rightarrow> Some (Some EINVAL, dma, buf, crcp, md)
            | Inr (h, md) \<Rightarrow>
              (case copy_loop pd access dir \<lparr>cs_dma = dma, cs_offset = dma_sge_offset dma,
                   cs_resid = sint (dma_resid dma), cs_len = len, cs_addr = a, cs_mem = h, cs_buf = buf,
                   cs_crc = crcp, cs_dev = md\<rparr> of
                 None \<Rightarrow> None
               | Some (Inl (err, st)) \<Rightarrow> Some (Some err, cs_dma st, cs_buf st, cs_crc st, cs_dev st)
               | Some (Inr st) \<Rightarrow>
                   let st' = put_mem st
                   in Some (None, (cs_dma st)\<lparr>dma_sge_offset := cs_offset st,
                        dma_resid := word_of_int (cs_resid st)\<rparr>, cs_buf st, cs_crc st, cs_dev st')))"

subsection \<open>advance_dma_data\<close>

partial_function (option) advance_loop ::
    "u32 \<Rightarrow> u32 \<Rightarrow> rxe_dma_info \<Rightarrow> u32 \<Rightarrow> (errno option \<times> rxe_dma_info) option" where
  "advance_loop offset resid dma len =
     (if len = 0 then Some (None, dma\<lparr>dma_sge_offset := offset, dma_resid := resid\<rparr>)
      else case cur_sge dma of None \<Rightarrow> None
        | Some sge \<Rightarrow>
          let full = sge_length sge \<le> offset;
              dma = (if full then dma\<lparr>dma_cur_sge := dma_cur_sge dma + 1\<rparr> else dma);
              offset = (if full then 0 else offset)
          in if full \<and> dma_num_sge dma \<le> dma_cur_sge dma then Some (Some ENOSPC, dma)
             else case cur_sge dma of None \<Rightarrow> None
               | Some sge \<Rightarrow>
                 let rest = sge_length sge - offset;
                     bytes = (if rest < len then rest else len)
                 in advance_loop (offset + bytes) (resid - bytes) dma (len - bytes))"

definition advance_dma_data :: "rxe_dma_info \<Rightarrow> u32 \<Rightarrow> (errno option \<times> rxe_dma_info) option" where
  "advance_dma_data dma len = advance_loop (dma_sge_offset dma) (dma_resid dma) dma len"

subsection \<open>What a lookup grants\<close>

definition mem_grants :: "nat \<Rightarrow> u32 \<Rightarrow> u32 \<Rightarrow> lookup_type \<Rightarrow> rxe_mem \<Rightarrow> bool" where
  "mem_grants pd access key ltype mem \<longleftrightarrow>
     (case ltype of lookup_local \<Rightarrow> mem_lkey mem = key | lookup_remote \<Rightarrow> mem_rkey mem = key)
     \<and> mem_pd mem = Some pd \<and> (access = 0 \<or> access AND mem_access mem \<noteq> 0)
     \<and> mem_state mem = RXE_MEM_STATE_VALID"

text \<open>The region a key names, with its element in the pool.\<close>

definition key_names :: "rxe_mdev \<Rightarrow> u32 \<Rightarrow> rxe_elem_type \<Rightarrow> nat \<Rightarrow> bool" where
  "key_names md key ty h \<longleftrightarrow> key_pool key = Some ty \<and> pool_find (md_pool ty md) (drop_bit 8 key) = Some h
     \<and> (\<exists>e. pool_elems (md_pool ty md) h = Some e \<and> 0 < pe_ref e) \<and> mem_pool (md_mem md h) = ty"

definition take_mem :: "rxe_elem_type \<Rightarrow> nat \<Rightarrow> rxe_mdev \<Rightarrow> rxe_mdev" where
  "take_mem ty h md = md_set_pool ty (rxe_add_ref h (md_pool ty md)) md"

lemma key_pool_cases: "key_pool key = Some ty \<Longrightarrow> ty \<in> {RXE_TYPE_MR, RXE_TYPE_FMR, RXE_TYPE_MW}"
  by (auto simp: key_pool_def Let_def split: if_splits)

lemma md_pool_set [simp]:
  "ty \<in> {RXE_TYPE_MR, RXE_TYPE_FMR, RXE_TYPE_MW} \<Longrightarrow> md_pool ty (md_set_pool ty pool md) = pool"
  "ty \<in> {RXE_TYPE_MR, RXE_TYPE_FMR, RXE_TYPE_MW} \<Longrightarrow> md_set_pool ty p (md_set_pool ty q md) = md_set_pool ty p md"
  "md_set_pool ty (md_pool ty md) md = md"
  by (auto simp: md_pool_def md_set_pool_def)

lemma md_set_pool_fields [simp]:
  "md_mem (md_set_pool ty pool md) = md_mem md" "md_ram (md_set_pool ty pool md) = md_ram md"
  "md_released (md_set_pool ty pool md) = md_released md"
  by (simp_all add: md_set_pool_def)

text \<open>Taking and dropping a reference of a live element changes nothing.\<close>

lemma add_drop_ref:
  assumes "pool_elems pool h = Some e" and "0 < pe_ref e"
  shows "rxe_drop_ref cleanup h (rxe_add_ref h pool, w) = (pool, w)"
  using assms fun_upd_idem [of "pool_elems pool" h "Some e"]
  by (auto simp: rxe_drop_ref_def rxe_add_ref_def upd_elem_def Let_def)

lemma drop_take_mem:
  assumes "key_names md key ty h"
  shows "drop_mem h (take_mem ty h md) = md"
proof -
  obtain e where e: "pool_elems (md_pool ty md) h = Some e" "0 < pe_ref e"
    using assms by (auto simp: key_names_def)
  have ty: "ty \<in> {RXE_TYPE_MR, RXE_TYPE_FMR, RXE_TYPE_MW}"
    using assms key_pool_cases by (auto simp: key_names_def)
  show ?thesis using assms ty
    by (simp add: drop_mem_def take_mem_def key_names_def add_drop_ref [OF e])
qed

lemma lookup_mem_named:
  assumes "key_names md key ty h"
  shows "lookup_mem pd access key ltype md
    = (if mem_grants pd access key ltype (md_mem md h) then (Some h, take_mem ty h md) else (None, md))"
proof -
  have f: "fst (rxe_pool_get_index (md_pool ty md) (drop_bit 8 key)) = Some h" and k: "key_pool key = Some ty"
    using assms by (auto simp: key_names_def pool_find_def)
  then have "rxe_pool_get_index (md_pool ty md) (drop_bit 8 key) = (Some h, rxe_add_ref h (md_pool ty md))"
    by (auto simp: rxe_pool_get_index_def split: if_splits option.splits)
  then show ?thesis using k drop_take_mem [OF assms]
    by (cases ltype) (auto simp: lookup_mem_def mem_grants_def take_mem_def Let_def)
qed

lemma lookup_mem_unnamed:
  assumes "key_pool key = None \<or> pool_find (md_pool (the (key_pool key)) md) (drop_bit 8 key) = None"
  shows "lookup_mem pd access key ltype md = (None, md)"
  using assms
  by (cases "key_pool key") (auto simp: lookup_mem_def pool_find_def rxe_pool_get_index_def split: if_splits option.splits)

text \<open>C16: A region is handed out for a key exactly when the key's index finds it in the pool of the
  index range, its local or remote key is the whole key, it belongs to the protection domain, it
  allows one of the requested kinds of access and it is valid. Then one reference is taken; in
  every other case no count changes.\<close>

theorem lookup_mem_correct:
  assumes "key_names md key ty h"
  shows "lookup_mem pd access key ltype md
      = (if mem_grants pd access key ltype (md_mem md h) then (Some h, take_mem ty h md) else (None, md))
    \<and> drop_mem h (take_mem ty h md) = md"
  using lookup_mem_named [OF assms] drop_take_mem [OF assms] by simp

definition sample_mdev :: rxe_mdev where
  "sample_mdev = \<lparr>md_mr = sample_pool\<lparr>pool_type := RXE_TYPE_MR\<rparr>, md_fmr = sample_pool, md_mw = sample_pool,
     md_mem = (\<lambda>_. sample_mem\<lparr>mem_index := 17, mem_lkey := 0x1102, mem_rkey := 0x1102\<rparr>),
     md_released = [], md_ram = (\<lambda>_. 0)\<rparr>"

lemma sample_key: "key_names sample_mdev 0x1102 RXE_TYPE_MR 7"
  by (simp add: key_names_def key_pool_def sample_mdev_def md_pool_def pool_find_def rxe_pool_get_index_def
    index_cmp_def elem_index_def sample_pool_def sample_mem_def Let_def)

theorem lookup_mem_correct_witness:
  "lookup_mem 1 IB_ACCESS_REMOTE_READ 0x1102 lookup_remote sample_mdev
     = (Some 7, take_mem RXE_TYPE_MR 7 sample_mdev)
   \<and> lookup_mem 2 IB_ACCESS_REMOTE_READ 0x1102 lookup_remote sample_mdev = (None, sample_mdev)"
  using lookup_mem_correct [OF sample_key, of 1 IB_ACCESS_REMOTE_READ lookup_remote]
    lookup_mem_correct [OF sample_key, of 2 IB_ACCESS_REMOTE_READ lookup_remote]
  by (simp add: mem_grants_def sample_mdev_def sample_mem_def)

subsection \<open>Positions in a scatter/gather list\<close>

text \<open>Moving \<open>n\<close> bytes on from offset \<open>off\<close> of the first of elements with the given
  lengths: how many elements further, and the offset there. The end of an element is not yet the
  start of the next.\<close>

fun adv :: "nat list \<Rightarrow> nat \<Rightarrow> nat \<Rightarrow> nat \<times> nat" where
  "adv [] off n = (0, off)"
| "adv (l # ls) off n = (if n \<le> l - off then (0, off + n)
     else case adv ls 0 (n - (l - off)) of (k, r) \<Rightarrow> (Suc k, r))"

definition sge_lens :: "rxe_dma_info \<Rightarrow> nat list" where
  "sge_lens dma = map (\<lambda>s. unat (sge_length s)) (drop (unat (dma_cur_sge dma)) (dma_sge dma))"

text \<open>A descriptor in use: it has its elements, stands inside one of them, and at most two
  gigabytes are left.\<close>

definition dma_wf :: "rxe_dma_info \<Rightarrow> bool" where
  "dma_wf dma \<longleftrightarrow> length (dma_sge dma) < 4294967296 \<and> dma_num_sge dma = of_nat (length (dma_sge dma))
     \<and> unat (dma_cur_sge dma) < length (dma_sge dma)
     \<and> unat (dma_sge_offset dma) \<le> unat (sge_length (dma_sge dma ! unat (dma_cur_sge dma)))
     \<and> sum_list (sge_lens dma) < 2147483648"

definition dma_left :: "rxe_dma_info \<Rightarrow> nat" where
  "dma_left dma = sum_list (sge_lens dma) - unat (dma_sge_offset dma)"

definition dma_adv :: "rxe_dma_info \<Rightarrow> nat \<Rightarrow> rxe_dma_info" where
  "dma_adv dma n = (case adv (sge_lens dma) (unat (dma_sge_offset dma)) n of (k, r) \<Rightarrow>
     dma\<lparr>dma_cur_sge := dma_cur_sge dma + of_nat k, dma_sge_offset := of_nat r,
       dma_resid := dma_resid dma - of_nat n\<rparr>)"

lemma sge_lens_Cons:
  assumes "unat (dma_cur_sge dma) < length (dma_sge dma)"
  shows "sge_lens dma = unat (sge_length (dma_sge dma ! unat (dma_cur_sge dma)))
    # map (\<lambda>s. unat (sge_length s)) (drop (Suc (unat (dma_cur_sge dma))) (dma_sge dma))"
  using assms by (simp add: sge_lens_def flip: Cons_nth_drop_Suc)

lemma unat_Suc_u32: "Suc (unat k) < 4294967296 \<Longrightarrow> unat (k + 1 :: u32) = Suc (unat k)"
  by (subst unat_plus_if') simp

text \<open>The loop from the end of an element.\<close>

lemma advance_loop_full:
  "length (dma_sge dma) < 4294967296 \<Longrightarrow> dma_num_sge dma = of_nat (length (dma_sge dma)) \<Longrightarrow>
   unat (dma_cur_sge dma) < length (dma_sge dma) \<Longrightarrow>
   ls = map (\<lambda>s. unat (sge_length s)) (drop (Suc (unat (dma_cur_sge dma))) (dma_sge dma)) \<Longrightarrow>
   sge_length (dma_sge dma ! unat (dma_cur_sge dma)) \<le> off \<Longrightarrow> 0 < len \<Longrightarrow> unat len \<le> sum_list ls \<Longrightarrow>
   advance_loop off resid dma len = Some (None, case adv ls 0 (unat len) of (k, r) \<Rightarrow>
     dma\<lparr>dma_cur_sge := dma_cur_sge dma + of_nat (Suc k), dma_sge_offset := of_nat r, dma_resid := resid - len\<rparr>)"
proof (induction ls arbitrary: dma off len resid)
  case Nil
  then show ?case by (simp add: word_less_nat_alt)
next
  case (Cons l ls)
  let ?k = "unat (dma_cur_sge dma)" and ?dma = "dma\<lparr>dma_cur_sge := dma_cur_sge dma + 1\<rparr>"
  have lt: "Suc ?k < length (dma_sge dma)" using Cons.prems(4) by (metis drop_all linorder_not_le list.map(1) list.simps(3))
  then have k1: "unat (dma_cur_sge dma + 1) = Suc ?k" using Cons.prems(1) by (simp add: unat_Suc_u32)
  from Cons.prems(4) lt have l: "l = unat (sge_length (dma_sge dma ! Suc ?k))"
    and ls: "ls = map (\<lambda>s. unat (sge_length s)) (drop (Suc (Suc ?k)) (dma_sge dma))"
    by (simp_all flip: Cons_nth_drop_Suc)
  let ?s = "sge_length (dma_sge dma ! Suc ?k)"
  have num: "\<not> dma_num_sge dma \<le> dma_cur_sge dma + 1"
    using lt Cons.prems(1,2) by (simp add: word_le_nat_alt k1 unsigned_of_nat take_bit_nat_eq_self)
  let ?b = "if ?s < len then ?s else len"
  have "len \<noteq> 0" using Cons.prems(6) by auto
  then have step: "advance_loop off resid dma len = advance_loop ?b (resid - ?b) ?dma (len - ?b)"
    using Cons.prems lt k1 num by (subst advance_loop.simps) (simp add: cur_sge_def Let_def)
  show ?case
  proof (cases "?s < len")
    case True
    have le: "unat (len - ?s) = unat len - l" using True l by (simp add: unat_sub word_le_nat_alt word_less_nat_alt)
    have "advance_loop ?s (resid - ?s) ?dma (len - ?s) = Some (None, case adv ls 0 (unat (len - ?s)) of (k, r) \<Rightarrow>
        ?dma\<lparr>dma_cur_sge := dma_cur_sge ?dma + of_nat (Suc k), dma_sge_offset := of_nat r,
          dma_resid := resid - ?s - (len - ?s)\<rparr>)"
    proof (rule Cons.IH)
      have "unat len \<le> l + sum_list ls" using Cons.prems(7) by simp
      then show "unat (len - ?s) \<le> sum_list ls" by (simp add: le)
    qed (use Cons.prems(1,2) lt ls True l le in \<open>simp_all add: k1 word_less_nat_alt\<close>)
    then show ?thesis using step True l le
      by (auto simp: word_less_nat_alt split: prod.splits)
  next
    case False
    then have "unat len \<le> l" using l by (simp add: word_less_nat_alt)
    then show ?thesis using step False by (subst (asm) advance_loop.simps) simp
  qed
qed

text \<open>From anywhere in a descriptor.\<close>

lemma advance_dma_data_adv:
  assumes "dma_wf dma" and "unat len \<le> dma_left dma"
  shows "advance_dma_data dma len = Some (None, dma_adv dma (unat len))"
proof (cases "len = 0")
  case True
  then show ?thesis using assms sge_lens_Cons [of dma]
    by (simp add: advance_dma_data_def advance_loop.simps dma_adv_def dma_wf_def)
next
  case False
  let ?k = "unat (dma_cur_sge dma)" and ?o = "dma_sge_offset dma"
  let ?s = "sge_length (dma_sge dma ! ?k)"
  let ?ls = "map (\<lambda>s. unat (sge_length s)) (drop (Suc ?k) (dma_sge dma))"
  have k: "?k < length (dma_sge dma)" using assms(1) by (simp add: dma_wf_def)
  note lens = sge_lens_Cons [OF k]
  have o: "unat ?o \<le> unat ?s" using assms(1) by (simp add: dma_wf_def)
  have left: "unat len \<le> unat ?s - unat ?o + sum_list ?ls" using assms(2) lens o by (simp add: dma_left_def)
  have rest: "unat (?s - ?o) = unat ?s - unat ?o" using o by (simp add: unat_sub word_le_nat_alt)
  have full: "advance_loop off (dma_resid dma - r) dma n = Some (None, case adv ?ls 0 (unat n) of (k, q) \<Rightarrow>
      dma\<lparr>dma_cur_sge := dma_cur_sge dma + of_nat (Suc k), dma_sge_offset := of_nat q,
        dma_resid := dma_resid dma - r - n\<rparr>)"
    if "?s \<le> off" "0 < n" "unat n \<le> sum_list ?ls" for off n r
    using assms(1) that by (intro advance_loop_full) (simp_all add: dma_wf_def)
  show ?thesis
  proof (cases "?s \<le> ?o")
    case True
    then have "unat ?s = unat ?o" using o by (simp add: word_le_nat_alt)
    moreover have "unat len \<noteq> 0" using False by (simp add: unat_eq_0)
    ultimately show ?thesis using full [of ?o len 0] True False left lens
      by (auto simp: advance_dma_data_def dma_adv_def word_gt_0 split: prod.splits)
  next
    case part: False
    let ?b = "if ?s - ?o < len then ?s - ?o else len"
    have step: "advance_loop ?o (dma_resid dma) dma len = advance_loop (?o + ?b) (dma_resid dma - ?b) dma (len - ?b)"
      using False part k by (subst advance_loop.simps) (simp add: cur_sge_def Let_def)
    show ?thesis
    proof (cases "?s - ?o < len")
      case True
      then have n: "unat (len - (?s - ?o)) = unat len - (unat ?s - unat ?o)" "0 < len - (?s - ?o)"
        using rest by (simp_all add: unat_sub word_le_nat_alt word_less_nat_alt)
      then show ?thesis
        using step full [of ?s "len - (?s - ?o)" "?s - ?o"] True left lens rest
        by (auto simp: advance_dma_data_def dma_adv_def word_less_nat_alt split: prod.splits)
    next
      case False
      then show ?thesis using step lens rest
        by (auto simp: advance_dma_data_def dma_adv_def word_less_nat_alt advance_loop.simps [of _ _ _ 0])
    qed
  qed
qed

subsection \<open>Copies along the list\<close>

text \<open>An element whose bytes are the kernel addresses \<open>xs\<close>: its key grants a region that holds
  its range.\<close>

definition sge_backed :: "rxe_mdev \<Rightarrow> nat \<Rightarrow> u32 \<Rightarrow> ib_sge \<Rightarrow> u32 list \<Rightarrow> bool" where
  "sge_backed md pd access sge xs \<longleftrightarrow> length xs = unat (sge_length sge) \<and> (sge_length sge = 0 \<or>
     (\<exists>ty h bufs. key_names md (sge_lkey sge) ty h \<and>
        mem_grants pd access (sge_lkey sge) lookup_local (md_mem md h) \<and> mem_region (md_mem md h) bufs \<and>
        mem_iova (md_mem md h) \<le> sge_addr sge \<and>
        unat (sge_addr sge) + unat (sge_length sge) \<le> unat (mem_iova (md_mem md h)) + unat (mem_length (md_mem md h)) \<and>
        xs = take (unat (sge_length sge)) (drop (region_off (md_mem md h) (sge_addr sge)) (region_addrs bufs))))"

lemma md_ram_simps [simp]:
  "key_names (md\<lparr>md_ram := r\<rparr>) key ty h = key_names md key ty h"
  "take_mem ty h (md\<lparr>md_ram := r\<rparr>) = (take_mem ty h md)\<lparr>md_ram := r\<rparr>"
  "sge_backed (md\<lparr>md_ram := r\<rparr>) pd access = sge_backed md pd access"
  by (auto simp: key_names_def take_mem_def md_pool_def md_set_pool_def sge_backed_def fun_eq_iff)

lemma take_mem_fields [simp]: "md_mem (take_mem ty h md) = md_mem md" "md_ram (take_mem ty h md) = md_ram md"
  by (simp_all add: take_mem_def)

text \<open>From one state of the loop to another, the bytes at \<open>A\<close> have been copied, the place in the
  list has moved on, and the reference the state holds is the only difference of the device from
  \<open>base\<close> with the new memory.\<close>

definition copied :: "copy_st \<Rightarrow> rxe_mdev \<Rightarrow> copy_direction \<Rightarrow> u32 list \<Rightarrow> nat \<times> nat \<Rightarrow> copy_st \<Rightarrow> bool" where
  "copied st base dir A kr st' \<longleftrightarrow>
     (let br = copy_list dir A (cs_addr st) (cs_buf st, md_ram base) in
       cs_dma st' = (cs_dma st)\<lparr>dma_cur_sge := dma_cur_sge (cs_dma st) + of_nat (fst kr)\<rparr>
       \<and> cs_offset st' = of_nat (snd kr) \<and> cs_resid st' = cs_resid st - int (length A)
       \<and> cs_len st' = cs_len st - int (length A) \<and> cs_addr st' = cs_addr st + int (length A)
       \<and> cs_buf st' = fst br
       \<and> cs_crc st' = map_option (\<lambda>c. crc32_le_serial CRCPOLY_LE c (moved dir A (cs_addr st) (cs_buf st, md_ram base))) (cs_crc st)
       \<and> put_mem st' = st'\<lparr>cs_mem := None, cs_dev := base\<lparr>md_ram := snd br\<rparr>\<rparr>)"

lemma copied_trans:
  assumes "copied st base dir A (j, q) st1"
    and "copied st1 (base\<lparr>md_ram := snd (copy_list dir A (cs_addr st) (cs_buf st, md_ram base))\<rparr>) dir B (k, r) st2"
  shows "copied st base dir (A @ B) (j + k, r) st2"
  using assms
  by (simp add: copied_def Let_def copy_list_append moved_append option.map_comp comp_def
    crc32_le_serial_append add.assoc)

lemma scast_small:
  assumes "unat (w :: u32) < 2147483648"
  shows "(scast w :: u64) = ucast w"
proof -
  have "(scast w :: u64) = word_of_int (int (unat w))" by (simp only: scast_eq sint_unat [OF assms])
  then show ?thesis by simp
qed

text \<open>One copy out of an element.\<close>

lemma element_copy:
  fixes off :: u32
  assumes "mem_region mem bufs" and "mem_iova mem \<le> addr"
    and "unat addr + l \<le> unat (mem_iova mem) + unat (mem_length mem)"
    and "xs = take l (drop (region_off mem addr) (region_addrs bufs))"
    and "0 < n" and "unat off + n \<le> l" and "l < 2147483648"
  shows "rxe_mem_copy mem (addr + scast off) a (int n) dir crcp br
      = Some (None, copy_list dir (take n (drop (unat off) xs)) a br,
          map_option (\<lambda>c. crc32_le_serial CRCPOLY_LE c (moved dir (take n (drop (unat off) xs)) a br)) crcp)"
    and "length (take n (drop (unat off) xs)) = n"
proof -
  have sc: "(scast off :: u64) = ucast off" using assms(6,7) by (intro scast_small) simp
  have top: "unat (mem_iova mem) + unat (mem_length mem) < 18446744073709551616"
    using assms(1) by (simp add: mem_region_def)
  have iova: "unat (addr + scast off) = unat addr + unat off"
    unfolding sc using assms(3,6) top by (intro unat_add_ucast) simp
  have off: "region_off mem (addr + scast off) = region_off mem addr + unat off"
    using assms(2) iova by (simp add: region_off_def word_le_nat_alt)
  show "length (take n (drop (unat off) xs)) = n"
    using region_room [OF assms(1-3)] assms(4,6) by simp
  have "take n (drop (unat off) xs) = take n (drop (region_off mem (addr + scast off)) (region_addrs bufs))"
    using assms(6) by (simp add: assms(4) off drop_take add.commute)
  then show "rxe_mem_copy mem (addr + scast off) a (int n) dir crcp br
      = Some (None, copy_list dir (take n (drop (unat off) xs)) a br,
          map_option (\<lambda>c. crc32_le_serial CRCPOLY_LE c (moved dir (take n (drop (unat off) xs)) a br)) crcp)"
    using assms(2,3,5-7) iova by (intro rxe_mem_copy_region [OF assms(1)]) (simp_all add: word_le_nat_alt)
qed

lemma copy_chunk_copied:
  assumes sge: "key_names base (sge_lkey sge) ty h" "mem_region (md_mem base h) bufs"
      "mem_iova (md_mem base h) \<le> sge_addr sge"
      "unat (sge_addr sge) + unat (sge_length sge) \<le> unat (mem_iova (md_mem base h)) + unat (mem_length (md_mem base h))"
      "xs = take (unat (sge_length sge)) (drop (region_off (md_mem base h) (sge_addr sge)) (region_addrs bufs))"
    and st: "cs_mem st = Some h" "cs_dev st = take_mem ty h base" "cs_offset st < sge_length sge"
      "0 < cs_len st" "cs_len st < 2147483648" "unat (sge_length sge) < 2147483648"
    and n: "n = min (nat (cs_len st)) (unat (sge_length sge) - unat (cs_offset st))"
  shows "\<exists>st'. copy_chunk sge dir st = Some (Inr st')
    \<and> copied st base dir (take n (drop (unat (cs_offset st)) xs)) (0, unat (cs_offset st) + n) st'"
proof -
  let ?o = "unat (cs_offset st)" and ?l = "unat (sge_length sge)"
  have o: "?o < ?l" using st(3) by (simp add: word_less_nat_alt)
  have rest: "unat (sge_length sge - cs_offset st) = ?l - ?o" using o by (simp add: unat_sub word_le_nat_alt)
  have len: "unat (word_of_int (cs_len st) :: u32) = nat (cs_len st)" using st(4,5) by (simp add: unat_word_of_int)
  have bytes: "(if sge_length sge - cs_offset st < word_of_int (cs_len st)
      then sint (sge_length sge - cs_offset st) else cs_len st) = int n"
    using st(4,6) rest len by (simp add: n word_less_nat_alt sint_unat)
  have pos: "0 < n" and le: "?o + n \<le> ?l" using n o st(4) by simp_all
  let ?A = "take n (drop ?o xs)"
  define br where "br = copy_list dir ?A (cs_addr st) (cs_buf st, md_ram base)"
  define crc where "crc = map_option (\<lambda>c. crc32_le_serial CRCPOLY_LE c (moved dir ?A (cs_addr st) (cs_buf st, md_ram base))) (cs_crc st)"
  note el = element_copy [OF sge(2-5) pos le st(6)]
  have copy: "rxe_mem_copy (md_mem base h) (sge_addr sge + scast (cs_offset st)) (cs_addr st) (int n) dir
      (cs_crc st) (cs_buf st, md_ram base) = Some (None, br, crc)"
    unfolding br_def crc_def by (rule el(1))
  define st' where "st' = st\<lparr>cs_buf := fst br, cs_dev := (take_mem ty h base)\<lparr>md_ram := snd br\<rparr>, cs_crc := crc,
    cs_offset := cs_offset st + word_of_int (int n), cs_resid := cs_resid st - int n,
    cs_len := cs_len st - int n, cs_addr := cs_addr st + int n\<rparr>"
  have "copy_chunk sge dir st = Some (Inr st')"
    unfolding copy_chunk_def Let_def bytes
    using pos by (cases br) (simp add: st(1,2) copy st'_def)
  moreover have "drop_mem h ((take_mem ty h base)\<lparr>md_ram := snd br\<rparr>) = base\<lparr>md_ram := snd br\<rparr>"
    using drop_take_mem [of "base\<lparr>md_ram := snd br\<rparr>" "sge_lkey sge" ty h] sge(1) by simp
  ultimately show ?thesis using el(2)
    by (simp add: copied_def Let_def put_mem_def st'_def st(1) br_def [symmetric] crc_def [symmetric])
qed

text \<open>The step to the next element, taken from the end of one.\<close>

lemma copy_step_next:
  assumes "unat (dma_cur_sge (cs_dma st)) < length (dma_sge (cs_dma st))"
    and "length (dma_sge (cs_dma st)) < 4294967296"
    and "dma_num_sge (cs_dma st) = of_nat (length (dma_sge (cs_dma st)))"
    and "sge_length (dma_sge (cs_dma st) ! unat (dma_cur_sge (cs_dma st))) \<le> cs_offset st"
    and "Suc (unat (dma_cur_sge (cs_dma st))) < length (dma_sge (cs_dma st))"
    and "sge = dma_sge (cs_dma st) ! Suc (unat (dma_cur_sge (cs_dma st)))"
    and "put_mem st = st\<lparr>cs_mem := None, cs_dev := base\<rparr>"
    and "st1 = st\<lparr>cs_mem := None, cs_dev := base,
      cs_dma := (cs_dma st)\<lparr>dma_cur_sge := dma_cur_sge (cs_dma st) + 1\<rparr>, cs_offset := 0\<rparr>"
  shows "copy_step pd access dir st = (if sge_length sge = 0 then Some (Inr st1)
    else case lookup_mem pd access (sge_lkey sge) lookup_local base of
        (None, md) \<Rightarrow> Some (Inl (EINVAL, st1\<lparr>cs_dev := md\<rparr>))
      | (Some h, md) \<Rightarrow> copy_chunk sge dir (st1\<lparr>cs_mem := Some h, cs_dev := md\<rparr>))"
proof -
  have k1: "unat (dma_cur_sge (cs_dma st) + 1) = Suc (unat (dma_cur_sge (cs_dma st)))"
    using assms(2,5) by (simp add: unat_Suc_u32)
  have "\<not> dma_num_sge (cs_dma st) \<le> dma_cur_sge (cs_dma st) + 1"
    using assms(2,3,5) by (simp add: word_le_nat_alt k1 unsigned_of_nat take_bit_nat_eq_self)
  then show ?thesis using assms(1,4-8)
    by (simp add: copy_step_def cur_sge_def Let_def k1 split: prod.splits option.splits)
qed

lemma copied_refl_next:
  assumes "put_mem st = st\<lparr>cs_mem := None, cs_dev := base\<rparr>"
  shows "copied st base dir [] (1, 0) (st\<lparr>cs_mem := None, cs_dev := base,
      cs_dma := (cs_dma st)\<lparr>dma_cur_sge := dma_cur_sge (cs_dma st) + 1\<rparr>, cs_offset := 0\<rparr>)"
  by (simp add: copied_def Let_def put_mem_def option.map_ident)

lemma copied_put_mem:
  assumes "copied st base dir A kr st'"
  shows "put_mem st' = st'\<lparr>cs_mem := None,
    cs_dev := base\<lparr>md_ram := snd (copy_list dir A (cs_addr st) (cs_buf st, md_ram base))\<rparr>\<rparr>"
    and "cs_len st' = cs_len st - int (length A)" and "cs_offset st' = of_nat (snd kr)"
    and "dma_sge (cs_dma st') = dma_sge (cs_dma st)" "dma_num_sge (cs_dma st') = dma_num_sge (cs_dma st)"
    and "dma_cur_sge (cs_dma st') = dma_cur_sge (cs_dma st) + of_nat (fst kr)"
  using assms by (simp_all add: copied_def Let_def)

lemma copy_step_element:
  assumes "unat (dma_cur_sge (cs_dma st)) < length (dma_sge (cs_dma st))"
    and "length (dma_sge (cs_dma st)) < 4294967296"
    and "dma_num_sge (cs_dma st) = of_nat (length (dma_sge (cs_dma st)))"
    and "sge_length (dma_sge (cs_dma st) ! unat (dma_cur_sge (cs_dma st))) \<le> cs_offset st"
    and "Suc (unat (dma_cur_sge (cs_dma st))) < length (dma_sge (cs_dma st))"
    and "sge = dma_sge (cs_dma st) ! Suc (unat (dma_cur_sge (cs_dma st)))"
    and "put_mem st = st\<lparr>cs_mem := None, cs_dev := base\<rparr>"
    and "sge_backed base pd access sge xs" and "length xs < 2147483648"
    and "0 < cs_len st" and "cs_len st < 2147483648"
  shows "\<exists>st'. copy_step pd access dir st = Some (Inr st')
    \<and> copied st base dir (take (nat (cs_len st)) xs) (1, min (nat (cs_len st)) (length xs)) st'"
proof -
  define st1 where "st1 = st\<lparr>cs_mem := None, cs_dev := base,
      cs_dma := (cs_dma st)\<lparr>dma_cur_sge := dma_cur_sge (cs_dma st) + 1\<rparr>, cs_offset := 0\<rparr>"
  have c1: "copied st base dir [] (1, 0) st1" unfolding st1_def by (rule copied_refl_next [OF assms(7)])
  note step = copy_step_next [OF assms(1-7) st1_def]
  have len: "length xs = unat (sge_length sge)" using assms(8) by (simp add: sge_backed_def)
  show ?thesis
  proof (cases "sge_length sge = 0")
    case True
    then show ?thesis using step c1 len by auto
  next
    case False
    then obtain ty h bufs where b: "key_names base (sge_lkey sge) ty h"
      "mem_grants pd access (sge_lkey sge) lookup_local (md_mem base h)" "mem_region (md_mem base h) bufs"
      "mem_iova (md_mem base h) \<le> sge_addr sge"
      "unat (sge_addr sge) + unat (sge_length sge) \<le> unat (mem_iova (md_mem base h)) + unat (mem_length (md_mem base h))"
      "xs = take (unat (sge_length sge)) (drop (region_off (md_mem base h) (sge_addr sge)) (region_addrs bufs))"
      using assms(8) by (auto simp: sge_backed_def)
    let ?st = "st1\<lparr>cs_mem := Some h, cs_dev := take_mem ty h base\<rparr>"
    obtain st' where st': "copy_chunk sge dir ?st = Some (Inr st')"
      "copied ?st base dir (take (min (nat (cs_len st)) (length xs)) xs) (0, min (nat (cs_len st)) (length xs)) st'"
      using copy_chunk_copied [OF b(1,3-6), of ?st "min (nat (cs_len st)) (length xs)" dir] False assms(9-11) len
      by (auto simp: st1_def word_gt_0)
    moreover have "copied st base dir (take (nat (cs_len st)) xs) (1, min (nat (cs_len st)) (length xs)) st'"
      using st'(2) by (simp add: copied_def Let_def st1_def min_def split: if_splits)
    ultimately show ?thesis using step False lookup_mem_named [OF b(1)] b(2) by simp
  qed
qed

text \<open>The loop from the end of an element, over the elements that follow.\<close>

lemma copy_loop_full:
  "length (dma_sge (cs_dma st)) < 4294967296 \<Longrightarrow>
   dma_num_sge (cs_dma st) = of_nat (length (dma_sge (cs_dma st))) \<Longrightarrow>
   unat (dma_cur_sge (cs_dma st)) < length (dma_sge (cs_dma st)) \<Longrightarrow>
   ss = drop (Suc (unat (dma_cur_sge (cs_dma st)))) (dma_sge (cs_dma st)) \<Longrightarrow>
   list_all2 (sge_backed base pd access) ss xss \<Longrightarrow>
   sge_length (dma_sge (cs_dma st) ! unat (dma_cur_sge (cs_dma st))) \<le> cs_offset st \<Longrightarrow>
   put_mem st = st\<lparr>cs_mem := None, cs_dev := base\<rparr> \<Longrightarrow>
   0 < cs_len st \<Longrightarrow> nat (cs_len st) \<le> length (concat xss) \<Longrightarrow> length (concat xss) < 2147483648 \<Longrightarrow>
   \<exists>st'. copy_loop pd access dir st = Some (Inr st') \<and> copied st base dir (take (nat (cs_len st)) (concat xss))
     (case adv (map length xss) 0 (nat (cs_len st)) of (k, r) \<Rightarrow> (Suc k, r)) st'"
proof (induction ss arbitrary: st base xss)
  case Nil
  then show ?case by simp
next
  case (Cons s ss)
  let ?dma = "cs_dma st" and ?k = "unat (dma_cur_sge (cs_dma st))" and ?n = "nat (cs_len st)"
  obtain xs yss where xss: "xss = xs # yss" "sge_backed base pd access s xs" "list_all2 (sge_backed base pd access) ss yss"
    using Cons.prems(5) by (auto simp: list_all2_Cons1)
  have lt: "Suc ?k < length (dma_sge ?dma)" using Cons.prems(4) by (metis drop_all linorder_not_le list.simps(3))
  then have s: "s = dma_sge ?dma ! Suc ?k" and ss: "ss = drop (Suc (Suc ?k)) (dma_sge ?dma)"
    using Cons.prems(4) by (simp_all flip: Cons_nth_drop_Suc)
  have k1: "unat (dma_cur_sge ?dma + 1) = Suc ?k" using lt Cons.prems(1) by (simp add: unat_Suc_u32)
  have small: "length xs < 2147483648" "cs_len st < 2147483648" using Cons.prems(8-10) xss(1) by simp_all
  obtain st2 where st2: "copy_step pd access dir st = Some (Inr st2)"
    "copied st base dir (take ?n xs) (1, min ?n (length xs)) st2"
    using copy_step_element [OF Cons.prems(3,1,2,6) lt s Cons.prems(7) xss(2) small(1) Cons.prems(8) small(2)] by blast
  note f = copied_put_mem [OF st2(2)]
  have loop: "copy_loop pd access dir st = copy_loop pd access dir st2"
    using Cons.prems(8) st2(1) by (subst copy_loop.simps) simp
  show ?case
  proof (cases "?n \<le> length xs")
    case True
    then have "cs_len st2 = 0" using f(2) Cons.prems(8) by simp
    then have "copy_loop pd access dir st2 = Some (Inr st2)" by (subst copy_loop.simps) simp
    then show ?thesis using loop st2(2) xss(1) True by simp
  next
    case False
    let ?base = "base\<lparr>md_ram := snd (copy_list dir (take ?n xs) (cs_addr st) (cs_buf st, md_ram base))\<rparr>"
    have n2: "nat (cs_len st2) = ?n - length xs" "0 < cs_len st2" using f(2) False by simp_all
    have o2: "sge_length (dma_sge (cs_dma st2) ! unat (dma_cur_sge (cs_dma st2))) \<le> cs_offset st2"
      using f(3-6) False xss(2) k1 s by (simp add: sge_backed_def)
    have "?n - length xs \<le> length (concat yss)" using Cons.prems(9) xss(1) by (simp add: le_diff_conv add.commute)
    then have room: "nat (cs_len st2) \<le> length (concat yss)" using n2 by simp
    have "\<exists>st'. copy_loop pd access dir st2 = Some (Inr st') \<and>
      copied st2 ?base dir (take (nat (cs_len st2)) (concat yss))
        (case adv (map length yss) 0 (nat (cs_len st2)) of (k, r) \<Rightarrow> (Suc k, r)) st'"
    proof (rule Cons.IH [OF _ _ _ _ _ o2 f(1) n2(2) room])
      show "list_all2 (sge_backed ?base pd access) ss yss" using xss(3) by simp
    qed (use Cons.prems(1,2,10) lt ss xss(1) f(4-6) k1 in simp_all)
    then obtain st' where "copy_loop pd access dir st2 = Some (Inr st')"
      "copied st2 ?base dir (take (nat (cs_len st2)) (concat yss))
        (case adv (map length yss) 0 (nat (cs_len st2)) of (k, r) \<Rightarrow> (Suc k, r)) st'" by blast
    then show ?thesis using loop copied_trans [of st base dir "take ?n xs" 1 _ st2] st2(2) False n2 xss(1)
      by (auto split: prod.splits)
  qed
qed

lemma backed_lengths:
  "list_all2 (sge_backed md pd access) ss xss \<Longrightarrow> map (\<lambda>s. unat (sge_length s)) ss = map length xss"
  by (induction rule: list_all2_induct) (simp_all add: sge_backed_def)

text \<open>The loop from inside the first element.\<close>

lemma copy_loop_part:
  assumes dma: "length (dma_sge (cs_dma st)) < 4294967296"
      "dma_num_sge (cs_dma st) = of_nat (length (dma_sge (cs_dma st)))"
      "unat (dma_cur_sge (cs_dma st)) < length (dma_sge (cs_dma st))"
      "s = dma_sge (cs_dma st) ! unat (dma_cur_sge (cs_dma st))"
      "ss = drop (Suc (unat (dma_cur_sge (cs_dma st)))) (dma_sge (cs_dma st))"
    and s: "key_names base (sge_lkey s) ty h" "mem_region (md_mem base h) bufs"
      "mem_iova (md_mem base h) \<le> sge_addr s"
      "unat (sge_addr s) + unat (sge_length s) \<le> unat (mem_iova (md_mem base h)) + unat (mem_length (md_mem base h))"
      "xs = take (unat (sge_length s)) (drop (region_off (md_mem base h) (sge_addr s)) (region_addrs bufs))"
      "length xs = unat (sge_length s)"
    and ss: "list_all2 (sge_backed base pd access) ss xss"
    and st: "cs_offset st < sge_length s" "cs_mem st = Some h" "cs_dev st = take_mem ty h base" "0 < cs_len st"
      "nat (cs_len st) \<le> length (concat (xs # xss)) - unat (cs_offset st)" "length (concat (xs # xss)) < 2147483648"
  shows "\<exists>st'. copy_loop pd access dir st = Some (Inr st')
    \<and> copied st base dir (take (nat (cs_len st)) (drop (unat (cs_offset st)) (concat (xs # xss))))
        (adv (map length (xs # xss)) (unat (cs_offset st)) (nat (cs_len st))) st'"
proof -
  let ?n = "nat (cs_len st)" and ?o = "unat (cs_offset st)"
  define b where "b = min ?n (length xs - ?o)"
  have o: "?o < length xs" using st(1) s(6) by (simp add: word_less_nat_alt)
  have small: "cs_len st < 2147483648" "unat (sge_length s) < 2147483648" using st(4-6) s(6) by simp_all
  obtain st1 where st1: "copy_chunk s dir st = Some (Inr st1)" "copied st base dir (take b (drop ?o xs)) (0, ?o + b) st1"
    using copy_chunk_copied [OF s(1-5) st(2,3,1,4) small] s(6) b_def by auto
  note f = copied_put_mem [OF st1(2)]
  have "\<not> sge_length s \<le> cs_offset st" using st(1) by simp
  then have "copy_step pd access dir st = Some (Inr st1)"
    using st1(1) dma(3,4) by (simp add: copy_step_def cur_sge_def)
  then have loop: "copy_loop pd access dir st = copy_loop pd access dir st1"
    using st(4) by (subst copy_loop.simps) simp
  have len: "length (take b (drop ?o xs)) = b" using o by (simp add: b_def)
  show ?thesis
  proof (cases "?n \<le> length xs - ?o")
    case True
    then have "cs_len st1 = 0" using f(2) len st(4) by (simp add: b_def)
    then have "copy_loop pd access dir st1 = Some (Inr st1)" by (subst copy_loop.simps) simp
    moreover have "take b (drop ?o xs) = take ?n (drop ?o (concat (xs # xss)))" "b = ?n"
      using True o by (simp_all add: b_def)
    ultimately show ?thesis using loop st1(2) True by simp
  next
    case False
    then have b: "b = length xs - ?o" by (simp add: b_def)
    let ?base = "base\<lparr>md_ram := snd (copy_list dir (take b (drop ?o xs)) (cs_addr st) (cs_buf st, md_ram base))\<rparr>"
    have n1: "nat (cs_len st1) = ?n - (length xs - ?o)" "0 < cs_len st1" using f(2) len False b st(4) by simp_all
    have "\<exists>st'. copy_loop pd access dir st1 = Some (Inr st') \<and>
      copied st1 ?base dir (take (nat (cs_len st1)) (concat xss))
        (case adv (map length xss) 0 (nat (cs_len st1)) of (k, r) \<Rightarrow> (Suc k, r)) st'"
    proof (rule copy_loop_full [OF _ _ _ _ _ _ f(1) n1(2)])
      show "list_all2 (sge_backed ?base pd access) ss xss" using ss by simp
      show "nat (cs_len st1) \<le> length (concat xss)" using n1(1) st(5) o by simp
      show "sge_length (dma_sge (cs_dma st1) ! unat (dma_cur_sge (cs_dma st1))) \<le> cs_offset st1"
        using f(3-6) dma(4) b o s(6) by simp
    qed (use dma st(6) f(4-6) in simp_all)
    then obtain st' where "copy_loop pd access dir st1 = Some (Inr st')"
      "copied st1 ?base dir (take (nat (cs_len st1)) (concat xss))
        (case adv (map length xss) 0 (nat (cs_len st1)) of (k, r) \<Rightarrow> (Suc k, r)) st'" by blast
    moreover from this(2) have "copied st base dir (take b (drop ?o xs) @ take (nat (cs_len st1)) (concat xss))
        (case adv (map length xss) 0 (nat (cs_len st1)) of (k, r) \<Rightarrow> (Suc k, r)) st'"
      using copied_trans [OF st1(2)] by (auto split: prod.splits)
    moreover have "take b (drop ?o xs) @ take (nat (cs_len st1)) (concat xss) = take ?n (drop ?o (concat (xs # xss)))"
      using False b n1(1) o by simp
    ultimately show ?thesis using loop False n1(1) by auto
  qed
qed

lemma copy_data_finish:
  assumes "cur_sge dma = Some s" and "0 < len" and "len \<le> sint (dma_resid dma)" and "length A = nat len"
    and "br = copy_list dir A a (buf, md_ram md)"
    and "(if sge_length s \<noteq> 0 \<and> dma_sge_offset dma < sge_length s
        then case lookup_mem pd access (sge_lkey s) lookup_local md of
            (None, md) \<Rightarrow> Inl md | (Some h, md) \<Rightarrow> Inr (Some h, md)
        else Inr (None, md)) = Inr (h, m)"
    and "st = \<lparr>cs_dma = dma, cs_offset = dma_sge_offset dma, cs_resid = sint (dma_resid dma), cs_len = len,
      cs_addr = a, cs_mem = h, cs_buf = buf, cs_crc = crcp, cs_dev = m\<rparr>"
    and "\<exists>st'. copy_loop pd access dir st = Some (Inr st')
      \<and> copied st md dir A (adv (sge_lens dma) (unat (dma_sge_offset dma)) (nat len)) st'"
  shows "copy_data pd access dma buf a len dir crcp md = Some (None, dma_adv dma (nat len), fst br,
    map_option (\<lambda>c. crc32_le_serial CRCPOLY_LE c (moved dir A a (buf, md_ram md))) crcp, md\<lparr>md_ram := snd br\<rparr>)"
proof -
  obtain st' where st': "copy_loop pd access dir st = Some (Inr st')"
    "copied st md dir A (adv (sge_lens dma) (unat (dma_sge_offset dma)) (nat len)) st'" using assms(8) by blast
  have "copy_data pd access dma buf a len dir crcp md = Some (None, (cs_dma st')\<lparr>dma_sge_offset := cs_offset st',
      dma_resid := word_of_int (cs_resid st')\<rparr>, cs_buf st', cs_crc st', cs_dev (put_mem st'))"
    using assms(1-3,6) st'(1) assms(7) by (simp add: copy_data_def Let_def)
  moreover have "word_of_int (sint (dma_resid dma) - len) = dma_resid dma - of_nat (nat len)"
    using assms(2) by simp
  moreover obtain k r where "adv (sge_lens dma) (unat (dma_sge_offset dma)) (nat len) = (k, r)" by fastforce
  ultimately show ?thesis using st'(2) assms(2,4,5,7) by (simp add: copied_def Let_def dma_adv_def)
qed

lemma copy_data_backed:
  assumes "dma_wf dma" and "list_all2 (sge_backed md pd access) (drop (unat (dma_cur_sge dma)) (dma_sge dma)) xss"
    and "0 < len" and "nat len \<le> dma_left dma" and "len \<le> sint (dma_resid dma)"
    and "A = take (nat len) (drop (unat (dma_sge_offset dma)) (concat xss))"
    and "br = copy_list dir A a (buf, md_ram md)"
  shows "copy_data pd access dma buf a len dir crcp md = Some (None, dma_adv dma (nat len), fst br,
    map_option (\<lambda>c. crc32_le_serial CRCPOLY_LE c (moved dir A a (buf, md_ram md))) crcp, md\<lparr>md_ram := snd br\<rparr>)"
proof -
  let ?k = "unat (dma_cur_sge dma)" and ?o = "dma_sge_offset dma"
  let ?s = "dma_sge dma ! ?k" and ?ss = "drop (Suc ?k) (dma_sge dma)"
  have k: "?k < length (dma_sge dma)" using assms(1) by (simp add: dma_wf_def)
  then have "drop ?k (dma_sge dma) = ?s # ?ss" by (simp add: Cons_nth_drop_Suc)
  with assms(2) obtain xs yss where xss: "xss = xs # yss" "sge_backed md pd access ?s xs"
    "list_all2 (sge_backed md pd access) ?ss yss" by (auto simp: list_all2_Cons1)
  have lens: "sge_lens dma = map length xss"
    using backed_lengths [OF assms(2)] by (simp add: sge_lens_def)
  have tot: "length (concat xss) < 2147483648" "nat len \<le> length (concat xss) - unat ?o"
    using assms(1,4) lens by (simp_all add: dma_wf_def dma_left_def length_concat)
  have dma: "length (dma_sge dma) < 4294967296" "dma_num_sge dma = of_nat (length (dma_sge dma))"
    "unat ?o \<le> unat (sge_length ?s)" using assms(1) by (simp_all add: dma_wf_def)
  let ?st = "\<lambda>h md. \<lparr>cs_dma = dma, cs_offset = ?o, cs_resid = sint (dma_resid dma), cs_len = len, cs_addr = a,
    cs_mem = h, cs_buf = buf, cs_crc = crcp, cs_dev = md\<rparr>"
  have lA: "length A = nat len" using tot(2) assms(6) by simp
  have cur: "cur_sge dma = Some ?s" using k by (simp add: cur_sge_def)
  note fin = copy_data_finish [OF cur assms(3,5) lA assms(7) _ refl]
  show ?thesis
  proof (cases "?o < sge_length ?s")
    case True
    then obtain ty h bufs where b: "key_names md (sge_lkey ?s) ty h"
      "mem_grants pd access (sge_lkey ?s) lookup_local (md_mem md h)" "mem_region (md_mem md h) bufs"
      "mem_iova (md_mem md h) \<le> sge_addr ?s"
      "unat (sge_addr ?s) + unat (sge_length ?s) \<le> unat (mem_iova (md_mem md h)) + unat (mem_length (md_mem md h))"
      "xs = take (unat (sge_length ?s)) (drop (region_off (md_mem md h) (sge_addr ?s)) (region_addrs bufs))"
      using xss(2) by (auto simp: sge_backed_def)
    have lx: "length xs = unat (sge_length ?s)" using xss(2) by (simp add: sge_backed_def)
    have "\<exists>st'. copy_loop pd access dir (?st (Some h) (take_mem ty h md)) = Some (Inr st')
        \<and> copied (?st (Some h) (take_mem ty h md)) md dir A (adv (sge_lens dma) (unat ?o) (nat len)) st'"
      using copy_loop_part [of "?st (Some h) (take_mem ty h md)", simplified, OF dma(1,2) k refl refl b(1,3-6) lx xss(3) True]
        assms(3,6) tot lens xss(1) by simp
    moreover have "sge_length ?s \<noteq> 0" using True by auto
    ultimately show ?thesis using True lookup_mem_named [OF b(1)] b(2) by (intro fin) simp_all
  next
    case False
    then have "unat ?o = length xs" using dma(3) xss(2) by (simp add: sge_backed_def word_less_nat_alt)
    then have adv: "adv (sge_lens dma) (unat ?o) (nat len) = (case adv (map length yss) 0 (nat len) of (k, r) \<Rightarrow> (Suc k, r))"
      and A: "A = take (nat len) (concat yss)" and "nat len \<le> length (concat yss)"
      using assms(3,6) lens xss(1) tot(2) by simp_all
    have "\<exists>st'. copy_loop pd access dir (?st None md) = Some (Inr st')
        \<and> copied (?st None md) md dir A (adv (sge_lens dma) (unat ?o) (nat len)) st'"
      unfolding adv A using copy_loop_full [of "?st None md" ?ss md pd access yss dir] dma(1,2) k xss(1,3) False
        \<open>nat len \<le> length (concat yss)\<close> tot(1) assms(3) by (simp add: put_mem_def)
    then show ?thesis using False by (intro fin) simp_all
  qed
qed

text \<open>C12: Copying between a packet and a scatter/gather list whose elements are backed by granted
  regions, when the list has enough bytes left, returns success; it does what a byte-by-byte copy
  at the concatenated addresses of the elements does, from the current place on; it moves the
  place by the length, leaves every reference count as it was, and skipping the same number of
  bytes with \<open>advance_dma_data\<close> leaves the same descriptor.\<close>

theorem copy_data_correct:
  assumes "dma_wf dma" and "list_all2 (sge_backed md pd access) (drop (unat (dma_cur_sge dma)) (dma_sge dma)) xss"
    and "0 < len" and "nat len \<le> dma_left dma" and "len \<le> sint (dma_resid dma)"
  shows "let A = take (nat len) (drop (unat (dma_sge_offset dma)) (concat xss));
      br = copy_list dir A a (buf, md_ram md)
    in copy_data pd access dma buf a len dir crcp md = Some (None, dma_adv dma (nat len), fst br,
        map_option (\<lambda>c. crc32_le_serial CRCPOLY_LE c (moved dir A a (buf, md_ram md))) crcp,
        md\<lparr>md_ram := snd br\<rparr>)
      \<and> advance_dma_data dma (word_of_int len) = Some (None, dma_adv dma (nat len))"
proof -
  have "dma_left dma < 2147483648" using assms(1) unfolding dma_left_def dma_wf_def by linarith
  then have "unat (word_of_int len :: u32) = nat len" using assms(3,4) by (simp add: unat_word_of_int)
  then show ?thesis
    using copy_data_backed [OF assms refl refl] advance_dma_data_adv [OF assms(1), of "word_of_int len"] assms(4)
    by (simp add: Let_def)
qed

definition sample_dma :: rxe_dma_info where
  "sample_dma = \<lparr>dma_length = 100, dma_resid = 90, dma_cur_sge = 0, dma_num_sge = 1, dma_sge_offset = 10,
     dma_inline = (\<lambda>_. 0), dma_sge = [\<lparr>sge_addr = 0x8003, sge_length = 100, sge_lkey = 0x1102\<rparr>]\<rparr>"

theorem copy_data_correct_witness:
  "\<exists>buf. copy_data 1 0 sample_dma (\<lambda>_. 1) 0 20 direction_out None sample_mdev
      = Some (None, dma_adv sample_dma 20, buf, None, sample_mdev)
    \<and> advance_dma_data sample_dma 20 = Some (None, dma_adv sample_dma 20)"
proof -
  let ?mem = "sample_mem\<lparr>mem_index := 17, mem_lkey := 0x1102, mem_rkey := 0x1102\<rparr>"
  let ?xs = "take 100 (drop 103 (region_addrs sample_bufs))"
  have r: "mem_region ?mem sample_bufs"
    using sample_region by (simp add: mem_region_def maps_full_def flat_bufs_def)
  have m: "md_mem sample_mdev 7 = ?mem" "md_ram sample_mdev = (\<lambda>_. 0)" by (simp_all add: sample_mdev_def)
  have "length (region_addrs sample_bufs) = 8192" by (simp add: length_region sample_bufs_def)
  then have "length ?xs = 100" by (simp only: length_take length_drop)
  moreover have "region_off ?mem 0x8003 = 103" by (simp add: region_off_def sample_mem_def)
  moreover have "mem_grants 1 0 0x1102 lookup_local ?mem" "mem_iova ?mem \<le> 0x8003"
    "unat (0x8003 :: u64) + 100 \<le> unat (mem_iova ?mem) + unat (mem_length ?mem)"
    by (simp_all add: mem_grants_def sample_mem_def)
  ultimately have "sge_backed sample_mdev 1 0 \<lparr>sge_addr = 0x8003, sge_length = 100, sge_lkey = 0x1102\<rparr> ?xs"
    unfolding sge_backed_def using sample_key r
    by (intro conjI disjI2 exI [of _ RXE_TYPE_MR] exI [of _ 7] exI [of _ sample_bufs]) (simp_all add: m)
  then have "list_all2 (sge_backed sample_mdev 1 0) (drop (unat (dma_cur_sge sample_dma)) (dma_sge sample_dma)) [?xs]"
    by (simp add: sample_dma_def)
  moreover have "dma_wf sample_dma" "nat 20 \<le> dma_left sample_dma" "20 \<le> sint (dma_resid sample_dma)"
    by (simp_all add: sample_dma_def dma_wf_def dma_left_def sge_lens_def)
  ultimately show ?thesis
    using copy_data_correct [where dma = sample_dma and md = sample_mdev and pd = 1 and access = 0 and xss = "[?xs]"
      and len = 20 and dir = direction_out and a = 0 and buf = "\<lambda>_. 1" and crcp = None]
    by (auto simp: Let_def m)
qed

end
