(* ===== verification/Rxe_Verbs.thy ===== *)
theory Rxe_Verbs
  imports Rxe_Queue Rxe_Task Rxe_Dma
begin

text \<open>
  The objects of \<open>rxe_verbs.h\<close>: queue pairs with their requester, completer and
  responder parts, completion queues, shared receive queues, ports and the device. Pointers to
  pool objects are handles; a socket buffer is a value that sits in exactly one list. What the
  driver hands to the outside (events, freed buffers, released queue pairs) is recorded in logs
  of the device. The theory ends with the arithmetic of packet sequence numbers.
\<close>

subsection \<open>Numbers of rdma/ib_verbs.h\<close>

abbreviation (input) IB_WC_SUCCESS :: u32 where "IB_WC_SUCCESS \<equiv> 0"
abbreviation (input) IB_WC_LOC_LEN_ERR :: u32 where "IB_WC_LOC_LEN_ERR \<equiv> 1"
abbreviation (input) IB_WC_LOC_QP_OP_ERR :: u32 where "IB_WC_LOC_QP_OP_ERR \<equiv> 2"
abbreviation (input) IB_WC_LOC_PROT_ERR :: u32 where "IB_WC_LOC_PROT_ERR \<equiv> 4"
abbreviation (input) IB_WC_WR_FLUSH_ERR :: u32 where "IB_WC_WR_FLUSH_ERR \<equiv> 5"
abbreviation (input) IB_WC_REM_INV_REQ_ERR :: u32 where "IB_WC_REM_INV_REQ_ERR \<equiv> 9"
abbreviation (input) IB_WC_REM_ACCESS_ERR :: u32 where "IB_WC_REM_ACCESS_ERR \<equiv> 10"
abbreviation (input) IB_WC_REM_OP_ERR :: u32 where "IB_WC_REM_OP_ERR \<equiv> 11"
abbreviation (input) IB_WC_RETRY_EXC_ERR :: u32 where "IB_WC_RETRY_EXC_ERR \<equiv> 12"
abbreviation (input) IB_WC_RNR_RETRY_EXC_ERR :: u32 where "IB_WC_RNR_RETRY_EXC_ERR \<equiv> 13"
abbreviation (input) IB_WC_REM_INV_RD_REQ_ERR :: u32 where "IB_WC_REM_INV_RD_REQ_ERR \<equiv> 15"

abbreviation (input) IB_WC_SEND :: u32 where "IB_WC_SEND \<equiv> 0"
abbreviation (input) IB_WC_RDMA_WRITE :: u32 where "IB_WC_RDMA_WRITE \<equiv> 1"
abbreviation (input) IB_WC_RDMA_READ :: u32 where "IB_WC_RDMA_READ \<equiv> 2"
abbreviation (input) IB_WC_COMP_SWAP :: u32 where "IB_WC_COMP_SWAP \<equiv> 3"
abbreviation (input) IB_WC_FETCH_ADD :: u32 where "IB_WC_FETCH_ADD \<equiv> 4"
abbreviation (input) IB_WC_LSO :: u32 where "IB_WC_LSO \<equiv> 6"
abbreviation (input) IB_WC_LOCAL_INV :: u32 where "IB_WC_LOCAL_INV \<equiv> 7"
abbreviation (input) IB_WC_FAST_REG_MR :: u32 where "IB_WC_FAST_REG_MR \<equiv> 8"
abbreviation (input) IB_WC_RECV :: u32 where "IB_WC_RECV \<equiv> 128"
abbreviation (input) IB_WC_RECV_RDMA_WITH_IMM :: u32 where "IB_WC_RECV_RDMA_WITH_IMM \<equiv> 129"

abbreviation (input) IB_WC_GRH :: u32 where "IB_WC_GRH \<equiv> 1"
abbreviation (input) IB_WC_WITH_IMM :: u32 where "IB_WC_WITH_IMM \<equiv> 2"
abbreviation (input) IB_WC_WITH_INVALIDATE :: u32 where "IB_WC_WITH_INVALIDATE \<equiv> 4"

abbreviation (input) IB_CQ_SOLICITED :: u8 where "IB_CQ_SOLICITED \<equiv> 1"
abbreviation (input) IB_CQ_NEXT_COMP :: u8 where "IB_CQ_NEXT_COMP \<equiv> 2"

abbreviation (input) IB_SEND_FENCE :: u32 where "IB_SEND_FENCE \<equiv> 1"
abbreviation (input) IB_SEND_SIGNALED :: u32 where "IB_SEND_SIGNALED \<equiv> 2"
abbreviation (input) IB_SEND_SOLICITED :: u32 where "IB_SEND_SOLICITED \<equiv> 4"
abbreviation (input) IB_SEND_INLINE :: u32 where "IB_SEND_INLINE \<equiv> 8"

abbreviation (input) IB_AH_GRH :: u8 where "IB_AH_GRH \<equiv> 1"

datatype ib_sig_type = IB_SIGNAL_ALL_WR | IB_SIGNAL_REQ_WR

datatype ib_qp_state = IB_QPS_RESET | IB_QPS_INIT | IB_QPS_RTR | IB_QPS_RTS | IB_QPS_SQD
  | IB_QPS_SQE | IB_QPS_ERR

subsection \<open>Addresses and queue pair attributes\<close>

record ib_global_route =
  gr_dgid :: ib_gid
  gr_flow_label :: u32
  gr_sgid_index :: u8
  gr_hop_limit :: u8
  gr_traffic_class :: u8

record ib_ah_attr =
  ah_grh :: ib_global_route
  ah_dlid :: u16
  ah_sl :: u8
  ah_src_path_bits :: u8
  ah_static_rate :: u8
  ah_flags :: u8
  ah_port_num :: u8

record rxe_av =
  av_attr :: ib_ah_attr
  av_ll_addr :: "u8 list"

record ib_qp_cap =
  cap_max_send_wr :: u32
  cap_max_recv_wr :: u32
  cap_max_send_sge :: u32
  cap_max_recv_sge :: u32
  cap_max_inline_data :: u32

text \<open>The enumerations \<open>path_mtu\<close> and \<open>path_mig_state\<close> are kept as numbers.\<close>

record ib_qp_attr =
  at_qp_state :: ib_qp_state
  at_cur_qp_state :: ib_qp_state
  at_path_mtu :: int
  at_path_mig_state :: int
  at_qkey :: u32
  at_rq_psn :: u32
  at_sq_psn :: u32
  at_dest_qp_num :: u32
  at_qp_access_flags :: u32
  at_cap :: ib_qp_cap
  at_ah_attr :: ib_ah_attr
  at_alt_ah_attr :: ib_ah_attr
  at_pkey_index :: u16
  at_alt_pkey_index :: u16
  at_en_sqd_async_notify :: u8
  at_sq_draining :: u8
  at_max_rd_atomic :: u8
  at_max_dest_rd_atomic :: u8
  at_min_rnr_timer :: u8
  at_port_num :: u8
  at_timeout :: u8
  at_retry_cnt :: u8
  at_rnr_retry :: u8
  at_alt_port_num :: u8
  at_alt_timeout :: u8

subsection \<open>Packets in socket buffers\<close>

text \<open>\<open>skb_pkt\<close> is the control block \<open>SKB_TO_PKT(skb)\<close> with the header bytes it
  points to, \<open>skb_qp\<close> its \<open>qp\<close> pointer, \<open>skb_len\<close> the length of the buffer and
  \<open>skb_addr\<close> the address of \<open>pkt->hdr\<close>.\<close>

record sk_buff =
  skb_pkt :: rxe_pkt_info
  skb_qp :: "nat option"
  skb_len :: u32
  skb_addr :: nat

subsection \<open>Work requests and completions\<close>

abbreviation (input) wqe_state_posted :: u32 where "wqe_state_posted \<equiv> 0"
abbreviation (input) wqe_state_processing :: u32 where "wqe_state_processing \<equiv> 1"
abbreviation (input) wqe_state_pending :: u32 where "wqe_state_pending \<equiv> 2"
abbreviation (input) wqe_state_done :: u32 where "wqe_state_done \<equiv> 3"
abbreviation (input) wqe_state_error :: u32 where "wqe_state_error \<equiv> 4"

text \<open>\<open>wr_ex\<close> is the union of the immediate data and the key to invalidate; of the union
  \<open>wr\<close> each member has its own fields.\<close>

record ib_send_wr =
  wr_id :: u64
  wr_opcode :: u32
  wr_send_flags :: u32
  wr_ex :: u32
  wr_rdma_remote_addr :: u64
  wr_rdma_rkey :: u32
  wr_atomic_remote_addr :: u64
  wr_atomic_compare_add :: u64
  wr_atomic_swap :: u64
  wr_atomic_rkey :: u32
  wr_ud_remote_qpn :: u32
  wr_ud_remote_qkey :: u32
  wr_ud_pkey_index :: u16

record rxe_send_wqe =
  wqe_ibwr :: ib_send_wr
  wqe_av :: rxe_av
  wqe_status :: u32
  wqe_state :: u32
  wqe_iova :: u64
  wqe_mask :: u32
  wqe_first_psn :: u32
  wqe_last_psn :: u32
  wqe_ack_length :: u32
  wqe_ssn :: u32
  wqe_has_rd_atomic :: u32
  wqe_dma :: rxe_dma_info

record rxe_recv_wqe =
  rwqe_wr_id :: u64
  rwqe_num_sge :: u32
  rwqe_dma :: rxe_dma_info

text \<open>The kernel and the user layout of a completion; \<open>wc_qp\<close> is the queue pair,
  \<open>uwc_qp_num\<close> its number.\<close>

record ib_wc =
  wc_wr_id :: u64
  wc_status :: u32
  wc_opcode :: u32
  wc_vendor_err :: u32
  wc_byte_len :: u32
  wc_qp :: "nat option"
  wc_ex :: u32
  wc_src_qp :: u32
  wc_flags :: u32
  wc_pkey_index :: u16
  wc_slid :: u16
  wc_sl :: u8
  wc_dlid_path_bits :: u8
  wc_port_num :: u8

record ib_uverbs_wc =
  uwc_wr_id :: u64
  uwc_status :: u32
  uwc_opcode :: u32
  uwc_vendor_err :: u32
  uwc_byte_len :: u32
  uwc_ex :: u32
  uwc_qp_num :: u32
  uwc_src_qp :: u32
  uwc_flags :: u32
  uwc_pkey_index :: u16
  uwc_slid :: u16
  uwc_sl :: u8
  uwc_dlid_path_bits :: u8
  uwc_port_num :: u8

datatype rxe_cqe = ibwc ib_wc | uibwc ib_uverbs_wc

text \<open>What \<open>memset(cqe, 0, sizeof(*cqe))\<close> leaves, read through either member of the union.\<close>

definition zero_wc :: ib_wc where
  "zero_wc = \<lparr>wc_wr_id = 0, wc_status = 0, wc_opcode = 0, wc_vendor_err = 0, wc_byte_len = 0, wc_qp = None,
     wc_ex = 0, wc_src_qp = 0, wc_flags = 0, wc_pkey_index = 0, wc_slid = 0, wc_sl = 0,
     wc_dlid_path_bits = 0, wc_port_num = 0\<rparr>"

definition zero_uwc :: ib_uverbs_wc where
  "zero_uwc = \<lparr>uwc_wr_id = 0, uwc_status = 0, uwc_opcode = 0, uwc_vendor_err = 0, uwc_byte_len = 0,
     uwc_ex = 0, uwc_qp_num = 0, uwc_src_qp = 0, uwc_flags = 0, uwc_pkey_index = 0, uwc_slid = 0,
     uwc_sl = 0, uwc_dlid_path_bits = 0, uwc_port_num = 0\<rparr>"

subsection \<open>Completion queues and shared receive queues\<close>

text \<open>\<open>cq_event_handler\<close> says whether the consumer registered one, \<open>cq_comp_task\<close> is
  the pending bit of the tasklet that calls the completion handler.\<close>

record rxe_cq =
  cq_queue :: "rxe_cqe rxe_queue"
  cq_notify :: u8
  cq_special :: u8
  cq_is_user :: bool
  cq_event_handler :: bool
  cq_comp_task :: bool
  cq_cqe :: int

record rxe_rq =
  rq_max_wr :: int
  rq_max_sge :: int
  rq_queue :: "rxe_recv_wqe rxe_queue option"

record rxe_srq =
  srq_pd :: nat
  srq_cq :: "nat option"
  srq_rq :: rxe_rq
  srq_num :: u32
  srq_event_handler :: bool
  srq_limit :: int
  srq_error :: bool

subsection \<open>Queue pairs\<close>

datatype rxe_qp_state = QP_STATE_RESET | QP_STATE_INIT | QP_STATE_READY | QP_STATE_DRAIN
  | QP_STATE_DRAINED | QP_STATE_ERROR

text \<open>The order of the enumeration, which the source compares with.\<close>

primrec qp_state_num :: "rxe_qp_state \<Rightarrow> nat" where
  "qp_state_num QP_STATE_RESET = 0"
| "qp_state_num QP_STATE_INIT = 1"
| "qp_state_num QP_STATE_READY = 2"
| "qp_state_num QP_STATE_DRAIN = 3"
| "qp_state_num QP_STATE_DRAINED = 4"
| "qp_state_num QP_STATE_ERROR = 5"

lemma qp_state_num_inject [simp]: "qp_state_num a = qp_state_num b \<longleftrightarrow> a = b"
  by (cases a; cases b) simp_all

instantiation rxe_qp_state :: linorder
begin

definition less_eq_rxe_qp_state :: "rxe_qp_state \<Rightarrow> rxe_qp_state \<Rightarrow> bool" where
  "less_eq_rxe_qp_state a b \<longleftrightarrow> qp_state_num a \<le> qp_state_num b"

definition less_rxe_qp_state :: "rxe_qp_state \<Rightarrow> rxe_qp_state \<Rightarrow> bool" where
  "less_rxe_qp_state a b \<longleftrightarrow> qp_state_num a < qp_state_num b"

instance
  by standard (auto simp: less_eq_rxe_qp_state_def less_rxe_qp_state_def)

end

record rxe_sq =
  sq_max_wr :: int
  sq_max_sge :: int
  sq_max_inline :: int
  sq_queue :: "rxe_send_wqe rxe_queue"

record rxe_req_info =
  req_state :: rxe_qp_state
  req_wqe_index :: u32
  req_psn :: u32
  req_opcode :: int
  req_rd_atomic :: int
  req_wait_fence :: bool
  req_need_rd_atomic :: bool
  req_wait_psn :: bool
  req_need_retry :: bool
  req_noack_pkts :: int
  req_task :: rxe_task

record rxe_comp_info =
  comp_psn :: u32
  comp_opcode :: int
  comp_timeout :: bool
  comp_timeout_retry :: bool
  comp_retry_cnt :: u32
  comp_rnr_retry :: u32
  comp_task :: rxe_task

datatype rdatm_res_state = rdatm_res_state_next | rdatm_res_state_new | rdatm_res_state_replay

text \<open>\<open>res_type\<close> is 0, \<open>RXE_READ_MASK\<close> or \<open>RXE_ATOMIC_MASK\<close>; the members of the
  union are separate fields.\<close>

record resp_res =
  res_type :: u32
  res_first_psn :: u32
  res_last_psn :: u32
  res_cur_psn :: u32
  res_state :: rdatm_res_state
  res_skb :: "sk_buff option"
  res_mr :: "nat option"
  res_va_org :: u64
  res_rkey :: u32
  res_length :: u32
  res_va :: u64
  res_resid :: u32

text \<open>The pointer \<open>resp.wqe\<close>: null, an element of the receive queue, or the copy of a shared
  receive queue element in \<open>resp.srq_wqe\<close>.\<close>

datatype resp_wqe = No_wqe | Rq_wqe u32 | Srq_wqe

record rxe_resp_info =
  resp_state :: rxe_qp_state
  resp_msn :: u32
  resp_psn :: u32
  resp_opcode :: int
  resp_drop_msg :: bool
  resp_goto_error :: bool
  resp_sent_psn_nak :: bool
  resp_status :: u32
  resp_aeth_syndrome :: u8
  resp_wqe :: resp_wqe
  resp_va :: u64
  resp_mr :: "nat option"
  resp_resid :: u32
  resp_rkey :: u32
  resp_atomic_orig :: u64
  resp_srq_wqe :: rxe_recv_wqe
  resp_resources :: "resp_res list option"
  resp_res_head :: u32
  resp_res_tail :: u32
  resp_res :: "nat option"
  resp_task :: rxe_task

text \<open>\<open>qp_self\<close> is the address of the queue pair. A timer is its expiry time when pending.\<close>

record rxe_qp =
  qp_self :: nat
  qp_num :: u32
  qp_type :: ib_qp_type
  qp_event_handler :: bool
  qp_attr :: ib_qp_attr
  qp_valid :: bool
  qp_mtu :: u32
  qp_is_user :: bool
  qp_pd :: nat
  qp_srq :: "nat option"
  qp_scq :: nat
  qp_rcq :: nat
  qp_sq_sig_type :: ib_sig_type
  qp_sq :: rxe_sq
  qp_rq :: rxe_rq
  qp_pri_av :: rxe_av
  qp_alt_av :: rxe_av
  qp_grp_list :: "nat list"
  qp_req_pkts :: "sk_buff list"
  qp_resp_pkts :: "sk_buff list"
  qp_send_pkts :: "sk_buff list"
  qp_req :: rxe_req_info
  qp_comp :: rxe_comp_info
  qp_resp :: rxe_resp_info
  qp_ssn :: int
  qp_req_skb_in :: int
  qp_resp_skb_in :: int
  qp_req_skb_out :: int
  qp_resp_skb_out :: int
  qp_need_req_skb :: bool
  qp_retrans_timer :: "u32 option"
  qp_timeout_jiffies :: u64
  qp_rnr_nak_timer :: "u32 option"

subsection \<open>Ports and the device\<close>

record rxe_port =
  port_lid :: u16
  port_max_mtu :: int
  port_gid_tbl_len :: int
  port_bad_pkey_cntr :: u32
  port_qkey_viol_cntr :: u32
  port_pkey_tbl :: "u16 list"
  port_guid_tbl :: "u64 list"
  port_subnet_prefix :: u64
  port_mtu_cap :: u32
  port_qp_smi_index :: u32
  port_qp_gsi_index :: u32

text \<open>The module parameters of \<open>rxe_param.h\<close> the handlers read.\<close>

record rxe_params =
  par_crc_disable :: bool
  par_nsec_per_packet :: int
  par_nsec_per_kbyte :: int
  par_max_skb_per_qp :: int
  par_max_req_comp_gap :: int
  par_max_pkt_per_ack :: int
  par_bypass_arbiter :: bool

text \<open>Asynchronous events as delivered to the consumer's handlers.\<close>

datatype ib_event = IB_EVENT_CQ_ERR nat | IB_EVENT_SQ_DRAINED nat | IB_EVENT_COMM_EST nat
  | IB_EVENT_QP_LAST_WQE_REACHED nat | IB_EVENT_SRQ_LIMIT_REACHED nat

record timespec =
  tv_sec :: int
  tv_nsec :: int

text \<open>A queue pair is linked into \<open>arb_qp_list\<close> at most once: \<open>list_empty(&qp->arbiter_list)\<close>
  says that it is not.\<close>

record rxe_arbiter =
  arb_task :: rxe_task
  arb_qp_list :: "nat list"
  arb_delay :: bool
  arb_time :: timespec

subsection \<open>Multicast groups\<close>

text \<open>The group's list of members and the queue pair's list of groups both link the elements.\<close>

record rxe_mc_grp =
  mcg_qp_list :: "nat list"
  mcg_mgid :: ib_gid
  mcg_num_qp :: int
  mcg_qkey :: u32
  mcg_mlid :: u16
  mcg_pkey :: u16

record rxe_mc_elem =
  mce_qp :: nat
  mce_grp :: nat

text \<open>The limits of \<open>struct ib_device_attr\<close> that are checked, with \<open>max_inline_data\<close>.\<close>

record ib_device_attr =
  attr_max_qp_wr :: int
  attr_max_sge :: int
  attr_max_cqe :: int
  attr_max_qp_rd_atom :: int
  attr_max_srq_wr :: int
  attr_max_srq_sge :: int
  attr_max_mcast_qp_attach :: int
  attr_max_inline_data :: int

text \<open>\<open>dev_now\<close> is the stream of clock readings still to come. \<open>dev_events\<close>, \<open>dev_kfree\<close>, \<open>dev_sent\<close> and \<open>dev_qp_released\<close> are logs: events
  delivered, buffers freed, buffers given to the network layer, and queue pairs whose last
  reference has been dropped.\<close>

record rxe_dev =
  dev_mem :: rxe_mdev
  dev_cq :: "nat \<Rightarrow> rxe_cq"
  dev_srq :: "nat \<Rightarrow> rxe_srq"
  dev_qp_pool :: rxe_pool
  dev_port :: "rxe_port list"
  dev_param :: rxe_params
  dev_arbiter :: rxe_arbiter
  dev_attr :: ib_device_attr
  dev_mc_grp_pool :: rxe_pool
  dev_mc_grp :: "nat \<Rightarrow> rxe_mc_grp"
  dev_mc_elem_pool :: rxe_pool
  dev_mc_elem :: "nat \<Rightarrow> rxe_mc_elem"
  dev_now :: "nat \<Rightarrow> timespec"
  dev_jiffies :: u32
  dev_req_skb_in :: int
  dev_resp_skb_in :: int
  dev_req_skb_out :: int
  dev_resp_skb_out :: int
  dev_xmit_errors :: int
  dev_events :: "ib_event list"
  dev_kfree :: "sk_buff list"
  dev_sent :: "sk_buff list"
  dev_qp_released :: "nat list"

text \<open>The callbacks into the interface layer the transport uses. A return value is an error number
  or 0; a buffer that cannot be allocated is \<open>None\<close>. \<open>send\<close> and \<open>loopback\<close> take the buffer
  over, and what they do with it shows in the device.\<close>

record rxe_ifc_ops =
  ifc_send :: "sk_buff \<Rightarrow> rxe_dev \<Rightarrow> int \<times> rxe_dev"
  ifc_loopback :: "sk_buff \<Rightarrow> rxe_dev \<Rightarrow> int \<times> rxe_dev"
  ifc_init_packet :: "rxe_av \<Rightarrow> int \<Rightarrow> int \<Rightarrow> rxe_dev \<Rightarrow> sk_buff option"
  ifc_init_av :: "ib_ah_attr \<Rightarrow> rxe_av \<Rightarrow> rxe_dev \<Rightarrow> int \<times> rxe_av"
  ifc_mcast_add :: "ib_gid \<Rightarrow> rxe_dev \<Rightarrow> int"

abbreviation (input) RXE_QUEUE_STOPPED :: int where "RXE_QUEUE_STOPPED \<equiv> 999"

subsection \<open>Shared operations on queue pairs and the device\<close>

text \<open>\<open>rxe_run_task(&qp->req.task, 1)\<close> and its relatives: with a non-zero second argument the
  tasklet is scheduled whatever the context.\<close>

definition run_req_task :: "rxe_qp \<Rightarrow> rxe_qp" where
  "run_req_task qp = qp\<lparr>qp_req := (qp_req qp)\<lparr>req_task := fst (rxe_run_task False False (req_task (qp_req qp)) 1)\<rparr>\<rparr>"

definition run_comp_task :: "rxe_qp \<Rightarrow> rxe_qp" where
  "run_comp_task qp = qp\<lparr>qp_comp := (qp_comp qp)\<lparr>comp_task := fst (rxe_run_task False False (comp_task (qp_comp qp)) 1)\<rparr>\<rparr>"

definition run_resp_task :: "rxe_qp \<Rightarrow> rxe_qp" where
  "run_resp_task qp = qp\<lparr>qp_resp := (qp_resp qp)\<lparr>resp_task := fst (rxe_run_task False False (resp_task (qp_resp qp)) 1)\<rparr>\<rparr>"

definition kfree_skb :: "sk_buff \<Rightarrow> rxe_dev \<Rightarrow> rxe_dev" where
  "kfree_skb skb dev = dev\<lparr>dev_kfree := dev_kfree dev @ [skb]\<rparr>"

text \<open>\<open>rxe_drop_ref(qp)\<close>; the cleanup that follows the last reference is logged.\<close>

definition drop_qp :: "nat \<Rightarrow> rxe_dev \<Rightarrow> rxe_dev" where
  "drop_qp h dev =
     (case rxe_drop_ref (\<lambda>h pw. (fst pw, snd pw @ [h])) h (dev_qp_pool dev, dev_qp_released dev) of
        (pool, rel) \<Rightarrow> dev\<lparr>dev_qp_pool := pool, dev_qp_released := rel\<rparr>)"

definition send_event :: "ib_event \<Rightarrow> rxe_dev \<Rightarrow> rxe_dev" where
  "send_event ev dev = dev\<lparr>dev_events := dev_events dev @ [ev]\<rparr>"

text \<open>\<open>None\<close> when the opcode is not one of the table.\<close>

definition wr_opcode_mask :: "u32 \<Rightarrow> rxe_qp \<Rightarrow> u32 option" where
  "wr_opcode_mask opcode qp =
     map_option (\<lambda>info. wi_mask info (qp_type qp)) (map_of rxe_wr_opcode_info_table opcode)"

definition pkey_match :: "u16 \<Rightarrow> u16 \<Rightarrow> bool" where
  "pkey_match key1 key2 \<longleftrightarrow> key1 AND 0x7fff \<noteq> 0 \<and> key1 AND 0x7fff = key2 AND 0x7fff
     \<and> (key1 AND 0x8000 \<noteq> 0 \<or> key2 AND 0x8000 \<noteq> 0)"

subsection \<open>Packet sequence numbers\<close>

text \<open>The difference is shifted into the top 24 bits and read as a signed number.\<close>

definition psn_compare :: "u32 \<Rightarrow> u32 \<Rightarrow> int" where
  "psn_compare psn_a psn_b = sint (push_bit 8 (psn_a - psn_b) :: u32)"

text \<open>How many steps sequence number \<open>a\<close> is ahead of \<open>b\<close> on the 24-bit circle.\<close>

definition psn_ahead :: "u32 \<Rightarrow> u32 \<Rightarrow> nat" where
  "psn_ahead a b = unat (take_bit 24 (a - b))"

lemma psn_ahead_less: "psn_ahead a b < 16777216"
  using unat_take_bit [of 24 "a - b"] by (simp add: psn_ahead_def)

lemma sint_u32: "sint (w :: u32) = (if unat w < 2147483648 then int (unat w) else int (unat w) - 4294967296)"
proof (cases "unat w < 2147483648")
  case False
  have u: "uint w < 4294967296" "2147483648 \<le> uint w"
    using unat_u32_less [of w] False by (simp_all flip: of_nat_less_iff [where 'a = int])
  have "sint w = (uint w + 2147483648) mod 4294967296 - 2147483648"
    using int_word_sint [where x = "uint w" and 'a = 32] by simp
  also have "\<dots> = uint w - 4294967296" using u mod_add_self2 [of "uint w - 2147483648" 4294967296]
    mod_pos_pos_trivial [of "uint w - 2147483648" 4294967296] by (simp add: algebra_simps)
  finally show ?thesis using False by simp
qed (simp add: sint_unat)

lemma psn_compare_ahead:
  "psn_compare a b = (if psn_ahead a b < 8388608 then 256 * int (psn_ahead a b)
     else 256 * int (psn_ahead a b) - 4294967296)"
proof -
  let ?d = "psn_ahead a b"
  have "push_bit 8 (a - b) = (push_bit 8 (take_bit 24 (a - b)) :: u32)"
    by (rule bit_word_eqI) (auto simp: bit_simps)
  then have "unat (push_bit 8 (a - b) :: u32) = 256 * ?d"
    using psn_ahead_less [of a b]
    by (simp add: psn_ahead_def push_bit_eq_mult unat_mult_lem [THEN iffD1] mult.commute)
  then show ?thesis
    using psn_ahead_less [of a b]
    by (simp add: psn_compare_def sint_u32)
qed

lemma psn_compare_self [simp]: "psn_compare a a = 0"
  by (simp add: psn_compare_def)

lemma psn_compare_pos: "0 < psn_compare a b \<longleftrightarrow> 0 < psn_ahead a b \<and> psn_ahead a b < 8388608"
  using psn_ahead_less [of a b] by (simp add: psn_compare_ahead)

lemma psn_compare_neg: "psn_compare a b < 0 \<longleftrightarrow> 8388608 \<le> psn_ahead a b"
  using psn_ahead_less [of a b] by (simp add: psn_compare_ahead)

lemma psn_compare_zero: "psn_compare a b = 0 \<longleftrightarrow> psn_ahead a b = 0"
  using psn_ahead_less [of a b] by (auto simp: psn_compare_ahead)

lemma and_psn_mask: "x AND BTH_PSN_MASK = take_bit 24 (x :: u32)"
  by (simp add: take_bit_eq_mask mask_eq_exp_minus_1)

lemma psn_ahead_masked [simp]:
  "psn_ahead (a AND BTH_PSN_MASK) b = psn_ahead a b" "psn_ahead a (b AND BTH_PSN_MASK) = psn_ahead a b"
  by (simp_all only: psn_ahead_def and_psn_mask word_take_bit_diff_left word_take_bit_diff_right)

lemma psn_ahead_step: "d < 16777216 \<Longrightarrow> psn_ahead (b + of_nat d) b = d"
  by (simp add: psn_ahead_def unat_take_bit unat_of_nat)

lemma psn_ahead_back:
  assumes "d < 16777216" and "0 < d"
  shows "psn_ahead b (b + of_nat d) = 16777216 - d"
proof -
  have "b - (b + of_nat d) = (of_nat (4278190080 + (16777216 - d)) :: u32)"
    using assms by (simp add: of_nat_diff)
  then have "psn_ahead b (b + of_nat d) = (4278190080 + (16777216 - d)) mod 4294967296 mod 16777216"
    by (simp only: psn_ahead_def unat_take_bit unat_of_nat) simp
  also have "\<dots> = (16777216 * 255 + (16777216 - d)) mod 16777216" using assms by simp
  also have "\<dots> = 16777216 - d" using assms by (simp only: mod_mult_self4) simp
  finally show ?thesis .
qed

text \<open>C21: \<open>psn_compare\<close> orders sequence numbers on the 24-bit circle: a number up to
  \<open>2 ^ 23 - 1\<close> steps ahead of another, wrapping at \<open>2 ^ 24\<close>, compares greater by 256 times
  the number of steps, and the other compares less by as much. At exactly half the circle each
  compares less than the other.\<close>

theorem psn_compare_window:
  assumes "d < 8388608"
  shows "psn_compare ((b + of_nat d) AND BTH_PSN_MASK) b = 256 * int d
    \<and> psn_compare b ((b + of_nat d) AND BTH_PSN_MASK) = - (256 * int d)
    \<and> psn_compare ((b + 8388608) AND BTH_PSN_MASK) b < 0
    \<and> psn_compare b ((b + 8388608) AND BTH_PSN_MASK) < 0"
proof -
  have "psn_ahead b (b + of_nat d) = (if d = 0 then 0 else 16777216 - d)"
    using assms psn_ahead_back [of d b] by (simp add: psn_ahead_def)
  moreover have "psn_ahead (b + 8388608) b = 8388608" "psn_ahead b (b + 8388608) = 8388608"
    using psn_ahead_step [of 8388608 b] psn_ahead_back [of 8388608 b] by simp_all
  moreover have "\<not> 16777216 - d < 8388608" "int (16777216 - d) = 16777216 - int d" using assms by linarith+
  ultimately show ?thesis using assms psn_ahead_step [of d b] by (simp add: psn_compare_ahead) linarith
qed

theorem psn_compare_window_witness:
  "psn_compare 4 0xfffffe = 1536 \<and> psn_compare 0xfffffe 4 = - 1536"
  using psn_compare_window [of 6 "0xfffffe"] by simp

end
