(* ===== verification/Rxe_Sample.thy ===== *)
theory Rxe_Sample
  imports Rxe_Cq
begin

text \<open>
  A queue pair of a reliable connection, its completion queue and a device, small enough to
  evaluate on: the witnesses of the component theories instantiate them.
\<close>

text \<open>A ring of eight slots of 256 bytes.\<close>

definition sample_ring :: "'e \<Rightarrow> 'e list \<Rightarrow> 'e rxe_queue" where
  "sample_ring x xs = fold queue_push xs \<lparr>buf = \<lparr>qb_log2_elem_size = 8, qb_index_mask = 7, qb_producer_index = 0,
      qb_consumer_index = 0, qb_data = (\<lambda>_. x)\<rparr>,
    buf_size = 2176, elem_size = 200, log2_elem_size = 8, index_mask = 7\<rparr>"

lemma sample_ring_facts:
  assumes "length xs \<le> 7"
  shows "queue_list (sample_ring x xs) = xs" "queue_inv (sample_ring x xs)" "queue_cap (sample_ring x xs) = 7"
proof -
  let ?q = "\<lparr>buf = \<lparr>qb_log2_elem_size = 8, qb_index_mask = 7, qb_producer_index = 0, qb_consumer_index = 0,
      qb_data = (\<lambda>_. x)\<rparr>, buf_size = 2176, elem_size = 200, log2_elem_size = 8, index_mask = 7\<rparr>"
  have b: "queue_bits ?q = 3" by (simp add: queue_bits_def) code_simp
  have q: "queue_inv ?q" by (simp add: queue_inv_def b mask_eq_exp_minus_1)
  have e: "queue_list ?q = []" "queue_cap ?q = 7" by (simp_all add: queue_list_def queue_count_def queue_cap_def)
  show "queue_list (sample_ring x xs) = xs" "queue_inv (sample_ring x xs)" "queue_cap (sample_ring x xs) = 7"
    using rq.push_all [OF q, of xs] assms by (simp_all add: e sample_ring_def del: length_queue_list)
qed

definition sample_av :: rxe_av where
  "sample_av = \<lparr>av_attr = \<lparr>ah_grh = \<lparr>gr_dgid = (0xfe80, 2), gr_flow_label = 0,
     gr_sgid_index = 0, gr_hop_limit = 1, gr_traffic_class = 0\<rparr>, ah_dlid = 0, ah_sl = 0, ah_src_path_bits = 0,
     ah_static_rate = 0, ah_flags = IB_AH_GRH, ah_port_num = 1\<rparr>, av_ll_addr = [2, 0, 0, 0, 0, 2]\<rparr>"

definition sample_qp_attr :: ib_qp_attr where
  "sample_qp_attr = \<lparr>at_qp_state = IB_QPS_RTS, at_cur_qp_state = IB_QPS_RTS, at_path_mtu = 3, at_path_mig_state = 0,
     at_qkey = 0, at_rq_psn = 0, at_sq_psn = 0, at_dest_qp_num = 18, at_qp_access_flags = 0,
     at_cap = \<lparr>cap_max_send_wr = 7, cap_max_recv_wr = 7, cap_max_send_sge = 2, cap_max_recv_sge = 2,
       cap_max_inline_data = 32\<rparr>, at_ah_attr = av_attr sample_av, at_alt_ah_attr = av_attr sample_av,
     at_pkey_index = 0, at_alt_pkey_index = 0, at_en_sqd_async_notify = 0, at_sq_draining = 0, at_max_rd_atomic = 2,
     at_max_dest_rd_atomic = 2, at_min_rnr_timer = 1, at_port_num = 1, at_timeout = 14, at_retry_cnt = 3,
     at_rnr_retry = 3, at_alt_port_num = 1, at_alt_timeout = 14\<rparr>"

definition sample_wr :: "u64 \<Rightarrow> ib_send_wr" where
  "sample_wr i = \<lparr>wr_id = i, wr_opcode = IB_WR_SEND, wr_send_flags = IB_SEND_SIGNALED, wr_ex = 0,
     wr_rdma_remote_addr = 0, wr_rdma_rkey = 0, wr_atomic_remote_addr = 0, wr_atomic_compare_add = 0,
     wr_atomic_swap = 0, wr_atomic_rkey = 0, wr_ud_remote_qpn = 0, wr_ud_remote_qkey = 0, wr_ud_pkey_index = 0\<rparr>"

text \<open>A send of one packet, sent and not yet acknowledged.\<close>

definition sample_wqe :: "u64 \<Rightarrow> u32 \<Rightarrow> rxe_send_wqe" where
  "sample_wqe i psn = \<lparr>wqe_ibwr = sample_wr i, wqe_av = sample_av, wqe_status = 0, wqe_state = wqe_state_pending,
     wqe_iova = 0, wqe_mask = WR_SEND_MASK, wqe_first_psn = psn, wqe_last_psn = psn, wqe_ack_length = 0, wqe_ssn = 0,
     wqe_has_rd_atomic = 0, wqe_dma = \<lparr>dma_length = 0, dma_resid = 0, dma_cur_sge = 0, dma_num_sge = 0,
       dma_sge_offset = 0, dma_inline = (\<lambda>_. 0), dma_sge = []\<rparr>\<rparr>"

definition sample_task :: "string \<Rightarrow> rxe_task" where
  "sample_task name = \<lparr>task_fast = 0, tasklet_pending = False, tasklet_disabled = 0, task_state = 0, task_ret = 0,
     task_name = name\<rparr>"

definition sample_qp :: "rxe_send_wqe list \<Rightarrow> sk_buff list \<Rightarrow> rxe_qp" where
  "sample_qp ws pkts = \<lparr>qp_self = 7, qp_num = 17, qp_type = IB_QPT_RC, qp_event_handler = True, qp_attr = sample_qp_attr,
     qp_valid = True, qp_mtu = 1024, qp_is_user = False, qp_pd = 1, qp_srq = None, qp_scq = 3, qp_rcq = 4,
     qp_sq_sig_type = IB_SIGNAL_REQ_WR,
     qp_sq = \<lparr>sq_max_wr = 7, sq_max_sge = 2, sq_max_inline = 32, sq_queue = sample_ring (sample_wqe 0 0) ws\<rparr>,
     qp_rq = \<lparr>rq_max_wr = 7, rq_max_sge = 2, rq_queue = None\<rparr>, qp_pri_av = sample_av, qp_alt_av = sample_av,
     qp_grp_list = [], qp_req_pkts = [], qp_resp_pkts = pkts, qp_send_pkts = [],
     qp_req = \<lparr>req_state = QP_STATE_READY, req_wqe_index = 0, req_psn = 0, req_opcode = -1, req_rd_atomic = 2,
       req_wait_fence = False, req_need_rd_atomic = False, req_wait_psn = False, req_need_retry = False,
       req_noack_pkts = 0, req_task = sample_task ''req''\<rparr>,
     qp_comp = \<lparr>comp_psn = 0, comp_opcode = -1, comp_timeout = False, comp_timeout_retry = False, comp_retry_cnt = 3,
       comp_rnr_retry = 3, comp_task = sample_task ''comp''\<rparr>,
     qp_resp = \<lparr>resp_state = QP_STATE_READY, resp_msn = 0, resp_psn = 0, resp_opcode = -1, resp_drop_msg = False,
       resp_goto_error = False, resp_sent_psn_nak = False, resp_status = 0, resp_aeth_syndrome = 0, resp_wqe = No_wqe,
       resp_va = 0, resp_mr = None, resp_resid = 0, resp_rkey = 0, resp_atomic_orig = 0,
       resp_srq_wqe = \<lparr>rwqe_wr_id = 0, rwqe_num_sge = 0, rwqe_dma = wqe_dma (sample_wqe 0 0)\<rparr>, resp_resources = None,
       resp_res_head = 0, resp_res_tail = 0, resp_res = None, resp_task = sample_task ''resp''\<rparr>,
     qp_ssn = 0, qp_req_skb_in = 0, qp_resp_skb_in = 0, qp_req_skb_out = 0, qp_resp_skb_out = 0,
     qp_need_req_skb = False, qp_retrans_timer = None, qp_timeout_jiffies = 14, qp_rnr_nak_timer = None\<rparr>"

definition sample_dev :: rxe_dev where
  "sample_dev = \<lparr>dev_mem = sample_mdev,
     dev_cq = (\<lambda>_. \<lparr>cq_queue = sample_ring (ibwc zero_wc) [], cq_notify = 0, cq_special = 0, cq_is_user = False,
       cq_event_handler = True, cq_comp_task = False, cq_cqe = 7\<rparr>),
     dev_srq = (\<lambda>_. \<lparr>srq_pd = 1, srq_cq = None, srq_rq = \<lparr>rq_max_wr = 7, rq_max_sge = 2, rq_queue = None\<rparr>, srq_num = 0,
       srq_event_handler = False, srq_limit = 0, srq_error = False\<rparr>),
     dev_qp_pool = sample_pool,
     dev_port = [\<lparr>port_lid = 0, port_max_mtu = 4, port_gid_tbl_len = 1, port_bad_pkey_cntr = 0, port_qkey_viol_cntr = 0,
       port_pkey_tbl = [0xffff], port_guid_tbl = [1], port_subnet_prefix = 0xfe80, port_mtu_cap = 1024,
       port_qp_smi_index = 0, port_qp_gsi_index = 1\<rparr>],
     dev_param = \<lparr>par_crc_disable = False, par_nsec_per_packet = 200, par_nsec_per_kbyte = 700, par_max_skb_per_qp = 150,
       par_max_req_comp_gap = 128, par_max_pkt_per_ack = 64, par_bypass_arbiter = True\<rparr>,
     dev_arbiter = \<lparr>arb_task = sample_task ''arb'', arb_qp_list = [], arb_delay = False, arb_time = \<lparr>tv_sec = 0, tv_nsec = 0\<rparr>\<rparr>,
     dev_attr = \<lparr>attr_max_qp_wr = 16384, attr_max_sge = 27, attr_max_cqe = 8191, attr_max_qp_rd_atom = 128,
       attr_max_srq_wr = 16384, attr_max_srq_sge = 27, attr_max_mcast_qp_attach = 56, attr_max_inline_data = 400\<rparr>,
     dev_mc_grp_pool = sample_pool, dev_mc_grp = (\<lambda>_. \<lparr>mcg_qp_list = [], mcg_mgid = (0, 0), mcg_num_qp = 0, mcg_qkey = 0,
       mcg_mlid = 0, mcg_pkey = 0\<rparr>), dev_mc_elem_pool = sample_pool,
     dev_mc_elem = (\<lambda>_. \<lparr>mce_qp = 0, mce_grp = 0\<rparr>), dev_now = (\<lambda>n. \<lparr>tv_sec = int n, tv_nsec = 0\<rparr>),
     dev_jiffies = 0, dev_req_skb_in = 0, dev_resp_skb_in = 0, dev_req_skb_out = 0, dev_resp_skb_out = 0,
     dev_xmit_errors = 0, dev_events = [], dev_kfree = [], dev_sent = [], dev_qp_released = []\<rparr>"

text \<open>An acknowledgement, its base header at offset 0 and no payload.\<close>

definition sample_ack :: "u32 \<Rightarrow> sk_buff" where
  "sample_ack psn = \<lparr>skb_pkt = \<lparr>pkt_hdr = (\<lambda>_. 0), pkt_mask = oi_mask (rxe_opcode IB_OPCODE_RC_ACKNOWLEDGE), pkt_psn = psn,
     pkt_pkey_index = 0, pkt_paylen = 20, pkt_port_num = 1, pkt_opcode = IB_OPCODE_RC_ACKNOWLEDGE, pkt_offset = 0\<rparr>,
     skb_qp = Some 7, skb_len = 20, skb_addr = 0\<rparr>"

text \<open>An interface that takes every packet.\<close>

definition sample_ifc :: rxe_ifc_ops where
  "sample_ifc = \<lparr>ifc_send = (\<lambda>skb dev. (0, dev\<lparr>dev_sent := dev_sent dev @ [skb]\<rparr>)),
     ifc_loopback = (\<lambda>skb dev. (0, dev\<lparr>dev_sent := dev_sent dev @ [skb]\<rparr>)),
     ifc_init_packet = (\<lambda>av paylen align dev. Some ((sample_ack 0)\<lparr>skb_pkt := (skb_pkt (sample_ack 0))\<lparr>pkt_mask := RXE_GRH_MASK\<rparr>,
       skb_len := word_of_int (40 + paylen)\<rparr>)), ifc_init_av = (\<lambda>attr av dev. (0, av)), ifc_mcast_add = (\<lambda>gid dev. 0)\<rparr>"

end
