(* ===== verification/Rxe_Comp.thy ===== *)
theory Rxe_Comp
  imports Rxe_Sample
begin

text \<open>
  The completer of a queue pair, \<open>rxe_comp.c\<close>: it takes one response packet at a time, checks
  it against the oldest work request and completes, retries or fails the request. The state
  machine of \<open>rxe_completer\<close> is the loop \<open>comp_loop\<close> over \<open>comp_step\<close>; the variables of
  the C function are the record \<open>comp_ctx\<close>. \<open>rxe_qp_error\<close> of \<open>rxe_qp.c\<close> is here
  because the completer calls it.
\<close>

subsection \<open>Timers (kernel/time.c)\<close>

abbreviation (input) USEC_PER_JIFFY :: u32 where "USEC_PER_JIFFY \<equiv> 5000"
abbreviation (input) MAX_JIFFY_OFFSET :: u32 where "MAX_JIFFY_OFFSET \<equiv> 0x3ffffffe"

definition jiffies_to_usecs :: "u32 \<Rightarrow> u32" where
  "jiffies_to_usecs j = USEC_PER_JIFFY * j"

definition usecs_to_jiffies :: "u32 \<Rightarrow> u32" where
  "usecs_to_jiffies u = (if jiffies_to_usecs MAX_JIFFY_OFFSET < u then MAX_JIFFY_OFFSET
     else (u + USEC_PER_JIFFY - 1) div USEC_PER_JIFFY)"

text \<open>The table by timer code, \<open>IB_RNR_TIMER_655_36\<close> to \<open>IB_RNR_TIMER_491_52\<close>.\<close>

definition rnrnak_usec :: "u32 list" where
  "rnrnak_usec = [655360, 10, 20, 30, 40, 60, 80, 120, 160, 240, 320, 480, 640, 960, 1280, 1920,
     2560, 3840, 5120, 7680, 10240, 15360, 20480, 30720, 40960, 61410, 81920, 122880, 163840,
     245760, 327680, 491520]"

definition rnrnak_jiffies :: "u8 \<Rightarrow> u32 option" where
  "rnrnak_jiffies timeout = (if unat timeout < length rnrnak_usec
     then Some (max (usecs_to_jiffies (rnrnak_usec ! unat timeout)) 1) else None)"

subsection \<open>States and helpers\<close>

datatype comp_state = COMPST_GET_ACK | COMPST_GET_WQE | COMPST_COMP_WQE | COMPST_COMP_ACK
  | COMPST_CHECK_PSN | COMPST_CHECK_ACK | COMPST_READ | COMPST_ATOMIC | COMPST_WRITE_SEND
  | COMPST_UPDATE_COMP | COMPST_ERROR_RETRY | COMPST_RNR_RETRY | COMPST_ERROR | COMPST_EXIT
  | COMPST_DONE

definition wr_to_wc_opcode :: "u32 \<Rightarrow> u32" where
  "wr_to_wc_opcode opcode =
     (if opcode = IB_WR_RDMA_WRITE then IB_WC_RDMA_WRITE
      else if opcode = IB_WR_RDMA_WRITE_WITH_IMM then IB_WC_RDMA_WRITE
      else if opcode = IB_WR_SEND then IB_WC_SEND
      else if opcode = IB_WR_SEND_WITH_IMM then IB_WC_SEND
      else if opcode = IB_WR_RDMA_READ then IB_WC_RDMA_READ
      else if opcode = IB_WR_ATOMIC_CMP_AND_SWP then IB_WC_COMP_SWAP
      else if opcode = IB_WR_ATOMIC_FETCH_AND_ADD then IB_WC_FETCH_ADD
      else if opcode = IB_WR_LSO then IB_WC_LSO
      else if opcode = IB_WR_SEND_WITH_INV then IB_WC_SEND
      else if opcode = IB_WR_RDMA_READ_WITH_INV then IB_WC_RDMA_READ
      else if opcode = IB_WR_LOCAL_INV then IB_WC_LOCAL_INV
      else if opcode = IB_WR_FAST_REG_MR then IB_WC_FAST_REG_MR
      else 0xff)"

text \<open>The send queue, and reading and writing a work request through a pointer into it.\<close>

abbreviation (input) qp_sendq :: "rxe_qp \<Rightarrow> rxe_send_wqe rxe_queue" where
  "qp_sendq qp \<equiv> sq_queue (qp_sq qp)"

definition set_sendq :: "rxe_send_wqe rxe_queue \<Rightarrow> rxe_qp \<Rightarrow> rxe_qp" where
  "set_sendq q qp = qp\<lparr>qp_sq := (qp_sq qp)\<lparr>sq_queue := q\<rparr>\<rparr>"

definition get_send_wqe :: "rxe_qp \<Rightarrow> u32 \<Rightarrow> rxe_send_wqe" where
  "get_send_wqe qp a = queue_read (qp_sendq qp) a"

definition put_send_wqe :: "u32 \<Rightarrow> rxe_send_wqe \<Rightarrow> rxe_qp \<Rightarrow> rxe_qp" where
  "put_send_wqe a w qp = set_sendq (queue_write (qp_sendq qp) a w) qp"

definition set_wqe_status :: "u32 \<Rightarrow> u32 \<Rightarrow> rxe_qp \<Rightarrow> rxe_qp" where
  "set_wqe_status a status qp = put_send_wqe a ((get_send_wqe qp a)\<lparr>wqe_status := status\<rparr>) qp"

definition retransmit_timer :: "rxe_qp \<Rightarrow> rxe_qp" where
  "retransmit_timer qp = (if qp_valid qp
     then run_comp_task (qp\<lparr>qp_comp := (qp_comp qp)\<lparr>comp_timeout := True\<rparr>\<rparr>) else qp)"

text \<open>A response packet arrives; the last component says whether the caller goes on to run the
  completer itself.\<close>

definition rxe_comp_queue_pkt ::
    "bool \<Rightarrow> bool \<Rightarrow> sk_buff \<Rightarrow> rxe_qp \<times> rxe_dev \<Rightarrow> (rxe_qp \<times> rxe_dev) \<times> bool" where
  "rxe_comp_queue_pkt in_irq irqs_disabled skb qd = (case qd of (qp, dev) \<Rightarrow>
     let dev = dev\<lparr>dev_resp_skb_in := dev_resp_skb_in dev + 1\<rparr>;
         qp = qp\<lparr>qp_resp_pkts := qp_resp_pkts qp @ [skb]\<rparr>;
         must_sched = (if 1 < length (qp_resp_pkts qp) then 1 else 0)
     in case rxe_run_task in_irq irqs_disabled (comp_task (qp_comp qp)) must_sched of
          (task, direct) \<Rightarrow> ((qp\<lparr>qp_comp := (qp_comp qp)\<lparr>comp_task := task\<rparr>\<rparr>, dev), direct))"

definition get_wqe :: "rxe_qp \<Rightarrow> bool \<Rightarrow> comp_state \<times> u32 option" where
  "get_wqe qp pkt = (case queue_head (qp_sendq qp) of
       None \<Rightarrow> (if pkt then COMPST_DONE else COMPST_EXIT, None)
     | Some a \<Rightarrow>
         let w = get_send_wqe qp a
         in (if wqe_state w = wqe_state_posted then (if pkt then COMPST_DONE else COMPST_EXIT)
             else if wqe_state w = wqe_state_done then COMPST_COMP_WQE
             else if wqe_state w = wqe_state_error then COMPST_ERROR
             else if pkt then COMPST_CHECK_PSN else COMPST_EXIT, Some a))"

definition reset_retry_counters :: "rxe_qp \<Rightarrow> rxe_qp" where
  "reset_retry_counters qp = qp\<lparr>qp_comp := (qp_comp qp)\<lparr>
     comp_retry_cnt := ucast (at_retry_cnt (qp_attr qp)), comp_rnr_retry := ucast (at_rnr_retry (qp_attr qp))\<rparr>\<rparr>"

definition comp_check_psn :: "rxe_qp \<Rightarrow> rxe_pkt_info \<Rightarrow> u32 \<Rightarrow> comp_state \<times> rxe_qp" where
  "comp_check_psn qp pkt a =
     (let w = get_send_wqe qp a; diff = psn_compare (pkt_psn pkt) (wqe_last_psn w)
      in if 0 < diff
         then if wqe_state w = wqe_state_pending
              then if wqe_mask w AND WR_ATOMIC_OR_READ_MASK \<noteq> 0 then (COMPST_ERROR_RETRY, qp)
                   else (COMPST_COMP_WQE, reset_retry_counters qp)
              else (COMPST_DONE, qp)
         else let diff = psn_compare (pkt_psn pkt) (comp_psn (qp_comp qp))
              in if diff < 0
                 then (if pkt_psn pkt = wqe_last_psn w then COMPST_COMP_ACK else COMPST_DONE, qp)
                 else if 0 < diff \<and> wqe_mask w AND WR_ATOMIC_OR_READ_MASK \<noteq> 0 then (COMPST_ERROR_RETRY, qp)
                 else (COMPST_CHECK_ACK, qp))"

text \<open>\<open>if (qp->req.wait_psn) { qp->req.wait_psn = 0; rxe_run_task(&qp->req.task, 1); }\<close>\<close>

definition wake_wait_psn :: "rxe_qp \<Rightarrow> rxe_qp" where
  "wake_wait_psn qp = (if req_wait_psn (qp_req qp)
     then run_req_task (qp\<lparr>qp_req := (qp_req qp)\<lparr>req_wait_psn := False\<rparr>\<rparr>) else qp)"

text \<open>The sequence check of \<open>check_ack\<close>: whether it fails.\<close>

definition ack_out_of_seq :: "rxe_qp \<Rightarrow> rxe_pkt_info \<Rightarrow> bool" where
  "ack_out_of_seq qp pkt \<longleftrightarrow>
     (if comp_opcode (qp_comp qp) = -1 then pkt_mask pkt AND RXE_START_MASK = 0
      else if comp_opcode (qp_comp qp) = uint IB_OPCODE_RC_RDMA_READ_RESPONSE_FIRST
          \<or> comp_opcode (qp_comp qp) = uint IB_OPCODE_RC_RDMA_READ_RESPONSE_MIDDLE
      then pkt_opcode pkt \<noteq> IB_OPCODE_RC_RDMA_READ_RESPONSE_MIDDLE
          \<and> pkt_opcode pkt \<noteq> IB_OPCODE_RC_RDMA_READ_RESPONSE_LAST
      else False)"

text \<open>The case \<open>AETH_NAK\<close> of an acknowledgement.\<close>

definition check_nak :: "rxe_qp \<Rightarrow> rxe_pkt_info \<Rightarrow> u32 \<Rightarrow> u8 \<Rightarrow> comp_state \<times> rxe_qp" where
  "check_nak qp pkt a syn =
     (if syn = AETH_NAK_PSN_SEQ_ERROR
      then (COMPST_ERROR_RETRY, if 0 < psn_compare (pkt_psn pkt) (comp_psn (qp_comp qp))
             then wake_wait_psn (qp\<lparr>qp_comp := (qp_comp qp)\<lparr>comp_psn := pkt_psn pkt\<rparr>\<rparr>) else qp)
      else (COMPST_ERROR, set_wqe_status a
             (if syn = AETH_NAK_INVALID_REQ then IB_WC_REM_INV_REQ_ERR
              else if syn = AETH_NAK_REM_ACC_ERR then IB_WC_REM_ACCESS_ERR
              else if syn = AETH_NAK_REM_OP_ERR then IB_WC_REM_OP_ERR
              else IB_WC_REM_OP_ERR) qp))"

definition check_ack :: "rxe_qp \<Rightarrow> rxe_pkt_info \<Rightarrow> u32 \<Rightarrow> comp_state \<times> rxe_qp" where
  "check_ack qp pkt a =
     (let opcode = wr_opcode (wqe_ibwr (get_send_wqe qp a)); syn = aeth_syn pkt
      in if ack_out_of_seq qp pkt then (COMPST_ERROR, qp)
         else if pkt_opcode pkt = IB_OPCODE_RC_RDMA_READ_RESPONSE_FIRST
              \<or> pkt_opcode pkt = IB_OPCODE_RC_RDMA_READ_RESPONSE_LAST
              \<or> pkt_opcode pkt = IB_OPCODE_RC_RDMA_READ_RESPONSE_ONLY
              \<or> pkt_opcode pkt = IB_OPCODE_RC_RDMA_READ_RESPONSE_MIDDLE
         then if pkt_opcode pkt \<noteq> IB_OPCODE_RC_RDMA_READ_RESPONSE_MIDDLE \<and> syn AND AETH_TYPE_MASK \<noteq> AETH_ACK
              then (COMPST_ERROR, qp)
              else if opcode \<noteq> IB_WR_RDMA_READ \<and> opcode \<noteq> IB_WR_RDMA_READ_WITH_INV then (COMPST_ERROR, qp)
              else (COMPST_READ, reset_retry_counters qp)
         else if pkt_opcode pkt = IB_OPCODE_RC_ATOMIC_ACKNOWLEDGE
         then if syn AND AETH_TYPE_MASK \<noteq> AETH_ACK then (COMPST_ERROR, qp)
              else if opcode \<noteq> IB_WR_ATOMIC_CMP_AND_SWP \<and> opcode \<noteq> IB_WR_ATOMIC_FETCH_AND_ADD
              then (COMPST_ERROR, qp)
              else (COMPST_ATOMIC, reset_retry_counters qp)
         else if pkt_opcode pkt = IB_OPCODE_RC_ACKNOWLEDGE
         then if syn AND AETH_TYPE_MASK = AETH_ACK then (COMPST_WRITE_SEND, reset_retry_counters qp)
              else if syn AND AETH_TYPE_MASK = AETH_RNR_NAK then (COMPST_RNR_RETRY, qp)
              else if syn AND AETH_TYPE_MASK = AETH_NAK then check_nak qp pkt a syn
              else (COMPST_ERROR, qp)
         else (COMPST_ERROR, qp))"

text \<open>The copy of response data into the scatter list of the request. \<open>None\<close> is an access
  outside the structures.\<close>

definition copy_in ::
    "u32 \<Rightarrow> bytes \<Rightarrow> int \<Rightarrow> int \<Rightarrow> rxe_qp \<times> rxe_dev \<Rightarrow> (errno option \<times> rxe_qp \<times> rxe_dev) option" where
  "copy_in a src addr len qd = (case qd of (qp, dev) \<Rightarrow>
     let w = get_send_wqe qp a
     in case copy_data (qp_pd qp) IB_ACCESS_LOCAL_WRITE (wqe_dma w) src addr len direction_in None (dev_mem dev) of
          None \<Rightarrow> None
        | Some (ret, dma, _, _, md) \<Rightarrow>
            Some (ret, put_send_wqe a (w\<lparr>wqe_dma := dma\<rparr>) qp, dev\<lparr>dev_mem := md\<rparr>))"

definition do_read :: "rxe_pkt_info \<Rightarrow> u32 \<Rightarrow> rxe_qp \<times> rxe_dev \<Rightarrow> (comp_state \<times> rxe_qp \<times> rxe_dev) option" where
  "do_read pkt a qd =
     (case copy_in a (pkt_hdr pkt) (payload_addr pkt) (sint (payload_size pkt)) qd of
        None \<Rightarrow> None
      | Some (Some err, qd) \<Rightarrow> Some (COMPST_ERROR, qd)
      | Some (None, qp, dev) \<Rightarrow>
          Some (if dma_resid (wqe_dma (get_send_wqe qp a)) = 0 \<and> pkt_mask pkt AND RXE_END_MASK \<noteq> 0
                then COMPST_COMP_ACK else COMPST_UPDATE_COMP, qp, dev))"

definition do_atomic :: "rxe_pkt_info \<Rightarrow> u32 \<Rightarrow> rxe_qp \<times> rxe_dev \<Rightarrow> (comp_state \<times> rxe_qp \<times> rxe_dev) option" where
  "do_atomic pkt a qd =
     (let atomic_orig = atmack_orig pkt
      in case copy_in a (store64 (\<lambda>_. 0) 0 atomic_orig) 0 8 qd of
        None \<Rightarrow> None
      | Some (Some err, qd) \<Rightarrow> Some (COMPST_ERROR, qd)
      | Some (None, qd) \<Rightarrow> Some (COMPST_COMP_ACK, qd))"

subsection \<open>Completing work requests\<close>

definition make_send_cqe :: "rxe_qp \<Rightarrow> rxe_send_wqe \<Rightarrow> rxe_cqe" where
  "make_send_cqe qp w =
     (if \<not> qp_is_user qp
      then ibwc (zero_wc\<lparr>wc_wr_id := wr_id (wqe_ibwr w), wc_status := wqe_status w,
             wc_opcode := wr_to_wc_opcode (wr_opcode (wqe_ibwr w)), wc_byte_len := dma_length (wqe_dma w),
             wc_qp := Some (qp_self qp)\<rparr>)
      else uibwc (zero_uwc\<lparr>uwc_wr_id := wr_id (wqe_ibwr w), uwc_status := wqe_status w,
             uwc_opcode := wr_to_wc_opcode (wr_opcode (wqe_ibwr w)), uwc_byte_len := dma_length (wqe_dma w),
             uwc_qp_num := qp_num qp\<rparr>))"

definition wqe_signaled :: "rxe_qp \<Rightarrow> rxe_send_wqe \<Rightarrow> bool" where
  "wqe_signaled qp w \<longleftrightarrow> qp_sq_sig_type qp = IB_SIGNAL_ALL_WR
     \<or> wr_send_flags (wqe_ibwr w) AND IB_SEND_SIGNALED \<noteq> 0"

definition do_complete :: "u32 \<Rightarrow> rxe_qp \<times> rxe_dev \<Rightarrow> rxe_qp \<times> rxe_dev" where
  "do_complete a qd = (case qd of (qp, dev) \<Rightarrow>
     let w = get_send_wqe qp a;
         dev = (if wqe_signaled qp w then snd (rxe_cq_post (qp_scq qp) (make_send_cqe qp w) False dev) else dev);
         qp = set_sendq (advance_consumer (qp_sendq qp)) qp;
         qp = (if req_wait_fence (qp_req qp)
               then run_req_task (qp\<lparr>qp_req := (qp_req qp)\<lparr>req_wait_fence := False\<rparr>\<rparr>) else qp)
     in (qp, dev))"

text \<open>The first half of \<open>complete_ack\<close>: the read and atomic credit and the end of a drain.\<close>

definition return_rd_atomic :: "u32 \<Rightarrow> rxe_qp \<Rightarrow> rxe_qp" where
  "return_rd_atomic a qp =
     (let w = get_send_wqe qp a
      in if wqe_has_rd_atomic w \<noteq> 0
         then let qp = put_send_wqe a (w\<lparr>wqe_has_rd_atomic := 0\<rparr>) qp;
                  qp = qp\<lparr>qp_req := (qp_req qp)\<lparr>req_rd_atomic := req_rd_atomic (qp_req qp) + 1\<rparr>\<rparr>
              in if req_need_rd_atomic (qp_req qp)
                 then run_req_task (qp\<lparr>qp_comp := (qp_comp qp)\<lparr>comp_timeout_retry := False\<rparr>,
                        qp_req := (qp_req qp)\<lparr>req_need_rd_atomic := False\<rparr>\<rparr>)
                 else qp
         else qp)"

definition finish_drain :: "rxe_qp \<times> rxe_dev \<Rightarrow> rxe_qp \<times> rxe_dev" where
  "finish_drain qd = (case qd of (qp, dev) \<Rightarrow>
     if req_state (qp_req qp) = QP_STATE_DRAIN \<and> comp_psn (qp_comp qp) = req_psn (qp_req qp)
     then (qp\<lparr>qp_req := (qp_req qp)\<lparr>req_state := QP_STATE_DRAINED\<rparr>\<rparr>,
           if qp_event_handler qp then send_event (IB_EVENT_SQ_DRAINED (qp_self qp)) dev else dev)
     else (qp, dev))"

definition complete_ack :: "rxe_pkt_info \<Rightarrow> u32 \<Rightarrow> rxe_qp \<times> rxe_dev \<Rightarrow> comp_state \<times> rxe_qp \<times> rxe_dev" where
  "complete_ack pkt a qd = (case qd of (qp, dev) \<Rightarrow>
     case do_complete a (finish_drain (return_rd_atomic a qp, dev)) of
       (qp, dev) \<Rightarrow> (if 0 \<le> psn_compare (pkt_psn pkt) (comp_psn (qp_comp qp)) then COMPST_UPDATE_COMP
                      else COMPST_DONE, qp, dev))"

text \<open>\<open>if (psn_compare(pkt->psn, qp->comp.psn) >= 0) qp->comp.psn = (pkt->psn + 1) & BTH_PSN_MASK;\<close>\<close>

definition advance_comp_psn :: "rxe_pkt_info \<Rightarrow> rxe_qp \<Rightarrow> rxe_qp" where
  "advance_comp_psn pkt qp = (if 0 \<le> psn_compare (pkt_psn pkt) (comp_psn (qp_comp qp))
     then qp\<lparr>qp_comp := (qp_comp qp)\<lparr>comp_psn := (pkt_psn pkt + 1) AND BTH_PSN_MASK\<rparr>\<rparr> else qp)"

definition complete_wqe :: "rxe_pkt_info option \<Rightarrow> u32 \<Rightarrow> rxe_qp \<times> rxe_dev \<Rightarrow> comp_state \<times> rxe_qp \<times> rxe_dev" where
  "complete_wqe pkt a qd = (case qd of (qp, dev) \<Rightarrow>
     let qp = qp\<lparr>qp_comp := (qp_comp qp)\<lparr>comp_opcode := -1\<rparr>\<rparr>;
         qp = (case pkt of None \<Rightarrow> qp | Some pkt \<Rightarrow> wake_wait_psn (advance_comp_psn pkt qp))
     in (COMPST_GET_WQE, do_complete a (qp, dev)))"

subsection \<open>Draining, flushing and the error state\<close>

definition drain_resp_pkts :: "rxe_qp \<times> rxe_dev \<Rightarrow> rxe_qp \<times> rxe_dev" where
  "drain_resp_pkts qd = (case qd of (qp, dev) \<Rightarrow>
     (qp\<lparr>qp_resp_pkts := []\<rparr>,
      fold (\<lambda>skb dev. let dev = kfree_skb skb (drop_qp (qp_self qp) dev)
                      in dev\<lparr>dev_resp_skb_in := dev_resp_skb_in dev - 1\<rparr>) (qp_resp_pkts qp) dev))"

text \<open>\<open>while (queue_head(qp->sq.queue)) advance_consumer(qp->sq.queue);\<close>\<close>

partial_function (option) drain_sendq :: "rxe_qp \<Rightarrow> rxe_qp option" where
  "drain_sendq qp = (if queue_head (qp_sendq qp) = None then Some qp
     else drain_sendq (set_sendq (advance_consumer (qp_sendq qp)) qp))"

partial_function (option) flush_sendq :: "rxe_qp \<times> rxe_dev \<Rightarrow> (rxe_qp \<times> rxe_dev) option" where
  "flush_sendq qd = (case queue_head (qp_sendq (fst qd)) of
       None \<Rightarrow> Some qd
     | Some a \<Rightarrow> flush_sendq (do_complete a (set_wqe_status a IB_WC_WR_FLUSH_ERR (fst qd), snd qd)))"

definition comp_flush :: "rxe_qp \<times> rxe_dev \<Rightarrow> (rxe_qp \<times> rxe_dev) option" where
  "comp_flush qd = flush_sendq (drain_resp_pkts qd)"

definition comp_drain :: "rxe_qp \<times> rxe_dev \<Rightarrow> (rxe_qp \<times> rxe_dev) option" where
  "comp_drain qd = (case drain_resp_pkts qd of (qp, dev) \<Rightarrow>
     map_option (\<lambda>qp. (qp, dev)) (drain_sendq qp))"

text \<open>\<open>rxe_qp_error\<close>. Where it runs the completer to its end, \<open>req.state\<close> is already
  \<open>QP_STATE_ERROR\<close>, so that run is the flush.\<close>

definition rxe_qp_error :: "rxe_qp \<times> rxe_dev \<Rightarrow> (rxe_qp \<times> rxe_dev) option" where
  "rxe_qp_error qd = (case qd of (qp, dev) \<Rightarrow>
     let qp = qp\<lparr>qp_req := (qp_req qp)\<lparr>req_state := QP_STATE_ERROR\<rparr>,
                qp_resp := (qp_resp qp)\<lparr>resp_state := QP_STATE_ERROR\<rparr>\<rparr>;
         qp = run_resp_task qp
     in map_option (\<lambda>(qp, dev). (run_req_task qp, dev))
          (if qp_type qp = IB_QPT_RC then Some (run_comp_task qp, dev)
           else if qp_valid qp then comp_flush (qp, dev) else comp_drain (qp, dev)))"

subsection \<open>The state machine\<close>

record comp_ctx =
  cc_qp :: rxe_qp
  cc_dev :: rxe_dev
  cc_wqe :: "u32 option"
  cc_skb :: "sk_buff option"

abbreviation (input) minus_EAGAIN :: int where "minus_EAGAIN \<equiv> - 11"

definition cc_set :: "rxe_qp \<times> rxe_dev \<Rightarrow> comp_ctx \<Rightarrow> comp_ctx" where
  "cc_set qd ctx = ctx\<lparr>cc_qp := fst qd, cc_dev := snd qd\<rparr>"

text \<open>\<open>COMPST_EXIT\<close>: \<open>Inr\<close> the next state, \<open>Inl\<close> the queue pair with the timer set.\<close>

definition comp_exit :: "rxe_dev \<Rightarrow> u32 option \<Rightarrow> rxe_qp \<Rightarrow> rxe_qp + comp_state" where
  "comp_exit dev wqe qp =
     (if comp_timeout_retry (qp_comp qp) \<and> wqe \<noteq> None then Inr COMPST_ERROR_RETRY
      else Inl (if qp_type qp = IB_QPT_RC \<and> req_state (qp_req qp) = QP_STATE_READY
             \<and> 0 < psn_compare (req_psn (qp_req qp)) (comp_psn (qp_comp qp)) \<and> qp_timeout_jiffies qp \<noteq> 0
           then qp\<lparr>qp_retrans_timer := Some (ucast (ucast (dev_jiffies dev) + qp_timeout_jiffies qp))\<rparr> else qp))"

definition comp_error_retry :: "u32 option \<Rightarrow> rxe_qp \<Rightarrow> rxe_qp + rxe_qp" where
  "comp_error_retry wqe qp = (case wqe of None \<Rightarrow> Inl qp
     | Some a \<Rightarrow>
       if wqe_state (get_send_wqe qp a) = wqe_state_posted then Inl qp
       else if 0 < comp_retry_cnt (qp_comp qp)
       then let qp = (if comp_retry_cnt (qp_comp qp) \<noteq> 7
                  then qp\<lparr>qp_comp := (qp_comp qp)\<lparr>comp_retry_cnt := comp_retry_cnt (qp_comp qp) - 1\<rparr>\<rparr> else qp)
            in Inl (if 0 < psn_compare (req_psn (qp_req qp)) (comp_psn (qp_comp qp))
                    then run_req_task (qp\<lparr>qp_req := (qp_req qp)\<lparr>req_need_retry := True\<rparr>\<rparr>) else qp)
       else Inr (set_wqe_status a IB_WC_RETRY_EXC_ERR qp))"

definition comp_rnr_retry_step :: "rxe_dev \<Rightarrow> rxe_pkt_info \<Rightarrow> u32 \<Rightarrow> rxe_qp \<Rightarrow> (rxe_qp + rxe_qp) option" where
  "comp_rnr_retry_step dev pkt a qp =
     (if 0 < comp_rnr_retry (qp_comp qp)
      then let qp = (if comp_rnr_retry (qp_comp qp) \<noteq> 7
                 then qp\<lparr>qp_comp := (qp_comp qp)\<lparr>comp_rnr_retry := comp_rnr_retry (qp_comp qp) - 1\<rparr>\<rparr> else qp);
               qp = qp\<lparr>qp_req := (qp_req qp)\<lparr>req_need_retry := True\<rparr>\<rparr>
           in map_option (\<lambda>j. Inl (qp\<lparr>qp_rnr_nak_timer := Some (dev_jiffies dev + j)\<rparr>))
                (rnrnak_jiffies (aeth_syn pkt AND NOT AETH_TYPE_MASK))
      else Some (Inr (set_wqe_status a IB_WC_RNR_RETRY_EXC_ERR qp)))"

definition comp_update :: "rxe_pkt_info \<Rightarrow> rxe_qp \<Rightarrow> rxe_qp" where
  "comp_update pkt qp = wake_wait_psn (advance_comp_psn pkt (qp\<lparr>qp_comp := (qp_comp qp)\<lparr>comp_opcode :=
     if pkt_mask pkt AND RXE_END_MASK \<noteq> 0 then -1 else uint (pkt_opcode pkt)\<rparr>\<rparr>))"

text \<open>\<open>COMPST_DONE\<close>: the packet is released, with its reference to the queue pair.\<close>

definition comp_release :: "sk_buff option \<Rightarrow> rxe_dev \<Rightarrow> rxe_dev option" where
  "comp_release skb dev = (case skb of None \<Rightarrow> Some dev
     | Some skb \<Rightarrow> (case skb_qp skb of None \<Rightarrow> None
       | Some h \<Rightarrow>
         let dev = kfree_skb skb (drop_qp h dev)
         in Some (dev\<lparr>dev_resp_skb_in := dev_resp_skb_in dev - 1\<rparr>)))"

text \<open>One round of the loop: \<open>Inl\<close> leaves it with the return value. \<open>None\<close> is a null
  pointer or an access outside the structures.\<close>

fun comp_step :: "comp_state \<Rightarrow> comp_ctx \<Rightarrow> ((int \<times> comp_ctx) + (comp_state \<times> comp_ctx)) option" where
  "comp_step COMPST_GET_ACK ctx = (case qp_resp_pkts (cc_qp ctx) of
       [] \<Rightarrow> Some (Inr (COMPST_GET_WQE, ctx))
     | skb # pkts \<Rightarrow> Some (Inr (COMPST_GET_WQE, ctx\<lparr>cc_skb := Some skb,
         cc_qp := (cc_qp ctx)\<lparr>qp_resp_pkts := pkts,
           qp_comp := (qp_comp (cc_qp ctx))\<lparr>comp_timeout_retry := False\<rparr>\<rparr>\<rparr>)))"
| "comp_step COMPST_GET_WQE ctx = (case get_wqe (cc_qp ctx) (cc_skb ctx \<noteq> None) of
     (st, wqe) \<Rightarrow> Some (Inr (st, ctx\<lparr>cc_wqe := wqe\<rparr>)))"
| "comp_step COMPST_CHECK_PSN ctx = (case (cc_wqe ctx, cc_skb ctx) of
       (Some a, Some skb) \<Rightarrow> (case comp_check_psn (cc_qp ctx) (skb_pkt skb) a of
          (st, qp) \<Rightarrow> Some (Inr (st, ctx\<lparr>cc_qp := qp\<rparr>)))
     | _ \<Rightarrow> None)"
| "comp_step COMPST_CHECK_ACK ctx = (case (cc_wqe ctx, cc_skb ctx) of
       (Some a, Some skb) \<Rightarrow> (case check_ack (cc_qp ctx) (skb_pkt skb) a of
          (st, qp) \<Rightarrow> Some (Inr (st, ctx\<lparr>cc_qp := qp\<rparr>)))
     | _ \<Rightarrow> None)"
| "comp_step COMPST_READ ctx = (case (cc_wqe ctx, cc_skb ctx) of
       (Some a, Some skb) \<Rightarrow> map_option (\<lambda>(st, qd). Inr (st, cc_set qd ctx))
          (do_read (skb_pkt skb) a (cc_qp ctx, cc_dev ctx))
     | _ \<Rightarrow> None)"
| "comp_step COMPST_ATOMIC ctx = (case (cc_wqe ctx, cc_skb ctx) of
       (Some a, Some skb) \<Rightarrow> map_option (\<lambda>(st, qd). Inr (st, cc_set qd ctx))
          (do_atomic (skb_pkt skb) a (cc_qp ctx, cc_dev ctx))
     | _ \<Rightarrow> None)"
| "comp_step COMPST_WRITE_SEND ctx = (case (cc_wqe ctx, cc_skb ctx) of
       (Some a, Some skb) \<Rightarrow>
         let w = get_send_wqe (cc_qp ctx) a
         in Some (Inr (if wqe_state w = wqe_state_pending \<and> wqe_last_psn w = pkt_psn (skb_pkt skb)
                       then COMPST_COMP_ACK else COMPST_UPDATE_COMP, ctx))
     | _ \<Rightarrow> None)"
| "comp_step COMPST_COMP_ACK ctx = (case (cc_wqe ctx, cc_skb ctx) of
       (Some a, Some skb) \<Rightarrow> (case complete_ack (skb_pkt skb) a (cc_qp ctx, cc_dev ctx) of
          (st, qd) \<Rightarrow> Some (Inr (st, cc_set qd ctx)))
     | _ \<Rightarrow> None)"
| "comp_step COMPST_COMP_WQE ctx = (case cc_wqe ctx of None \<Rightarrow> None
     | Some a \<Rightarrow> (case complete_wqe (map_option skb_pkt (cc_skb ctx)) a (cc_qp ctx, cc_dev ctx) of
          (st, qd) \<Rightarrow> Some (Inr (st, cc_set qd ctx))))"
| "comp_step COMPST_UPDATE_COMP ctx = (case cc_skb ctx of None \<Rightarrow> None
     | Some skb \<Rightarrow> Some (Inr (COMPST_DONE, ctx\<lparr>cc_qp := comp_update (skb_pkt skb) (cc_qp ctx)\<rparr>)))"
| "comp_step COMPST_DONE ctx = map_option (\<lambda>dev. Inl (0, ctx\<lparr>cc_dev := dev\<rparr>)) (comp_release (cc_skb ctx) (cc_dev ctx))"
| "comp_step COMPST_EXIT ctx = (case comp_exit (cc_dev ctx) (cc_wqe ctx) (cc_qp ctx) of
       Inr st \<Rightarrow> Some (Inr (st, ctx))
     | Inl qp \<Rightarrow> Some (Inl (minus_EAGAIN, ctx\<lparr>cc_qp := qp\<rparr>)))"
| "comp_step COMPST_ERROR_RETRY ctx = (case comp_error_retry (cc_wqe ctx) (cc_qp ctx) of
       Inl qp \<Rightarrow> Some (Inl (minus_EAGAIN, ctx\<lparr>cc_qp := qp\<rparr>))
     | Inr qp \<Rightarrow> Some (Inr (COMPST_ERROR, ctx\<lparr>cc_qp := qp\<rparr>)))"
| "comp_step COMPST_RNR_RETRY ctx = (case (cc_wqe ctx, cc_skb ctx) of
       (Some a, Some skb) \<Rightarrow> (case comp_rnr_retry_step (cc_dev ctx) (skb_pkt skb) a (cc_qp ctx) of
          None \<Rightarrow> None
        | Some (Inl qp) \<Rightarrow> Some (Inl (minus_EAGAIN, ctx\<lparr>cc_qp := qp\<rparr>))
        | Some (Inr qp) \<Rightarrow> Some (Inr (COMPST_ERROR, ctx\<lparr>cc_qp := qp\<rparr>)))
     | _ \<Rightarrow> None)"
| "comp_step COMPST_ERROR ctx = (case cc_wqe ctx of None \<Rightarrow> None
     | Some a \<Rightarrow> map_option (\<lambda>qd. Inl (minus_EAGAIN, cc_set qd ctx))
         (rxe_qp_error (do_complete a (cc_qp ctx, cc_dev ctx))))"

partial_function (option) comp_loop :: "comp_state \<Rightarrow> comp_ctx \<Rightarrow> (int \<times> comp_ctx) option" where
  "comp_loop st ctx = (case comp_step st ctx of None \<Rightarrow> None
     | Some (Inl r) \<Rightarrow> Some r
     | Some (Inr (st, ctx)) \<Rightarrow> comp_loop st ctx)"

text \<open>The tests before the loop, then the loop.\<close>

definition rxe_completer :: "rxe_qp \<times> rxe_dev \<Rightarrow> (int \<times> rxe_qp \<times> rxe_dev) option" where
  "rxe_completer qd = (case qd of (qp, dev) \<Rightarrow>
     if \<not> qp_valid qp then map_option (Pair minus_EAGAIN) (comp_drain qd)
     else if req_state (qp_req qp) = QP_STATE_ERROR then map_option (Pair minus_EAGAIN) (comp_flush qd)
     else if req_state (qp_req qp) = QP_STATE_RESET then map_option (Pair minus_EAGAIN) (comp_drain qd)
     else let qp = qp\<lparr>qp_comp := (qp_comp qp)\<lparr>comp_timeout_retry := comp_timeout (qp_comp qp),
                comp_timeout := False\<rparr>\<rparr>
          in if req_need_retry (qp_req qp) then Some (minus_EAGAIN, qp, dev)
             else map_option (\<lambda>(ret, ctx). (ret, cc_qp ctx, cc_dev ctx))
                    (comp_loop COMPST_GET_ACK \<lparr>cc_qp = qp, cc_dev = dev, cc_wqe = None, cc_skb = None\<rparr>))"

subsection \<open>What an operation leaves of the send queue and of the completion queues\<close>

definition sq_list :: "rxe_qp \<Rightarrow> rxe_send_wqe list" where
  "sq_list qp = queue_list (qp_sendq qp)"

text \<open>What the completer never changes: the posted requests, and what decides where and whether
  they are reported.\<close>

definition sq_view :: "rxe_qp \<Rightarrow> ib_send_wr list \<times> nat \<times> ib_sig_type" where
  "sq_view qp = (map wqe_ibwr (sq_list qp), qp_scq qp, qp_sq_sig_type qp)"

definition cqe_key :: "rxe_cqe \<Rightarrow> u64 \<times> u32" where
  "cqe_key cqe = (case cqe of ibwc wc \<Rightarrow> (wc_wr_id wc, wc_opcode wc) | uibwc wc \<Rightarrow> (uwc_wr_id wc, uwc_opcode wc))"

definition wr_key :: "ib_send_wr \<Rightarrow> u64 \<times> u32" where
  "wr_key wr = (wr_id wr, wr_to_wc_opcode (wr_opcode wr))"

definition wr_signaled :: "ib_sig_type \<Rightarrow> ib_send_wr \<Rightarrow> bool" where
  "wr_signaled sig wr \<longleftrightarrow> sig = IB_SIGNAL_ALL_WR \<or> wr_send_flags wr AND IB_SEND_SIGNALED \<noteq> 0"

definition comp_sane :: "rxe_qp \<times> rxe_dev \<Rightarrow> bool" where
  "comp_sane qd \<longleftrightarrow> queue_inv (qp_sendq (fst qd)) \<and> cqs_inv (snd qd)"

text \<open>\<open>n\<close> requests leave the head of the send queue; the signaled ones among them are reported on
  the send completion queue in order, as far as it has room, and nothing else is.\<close>

definition completes :: "nat \<Rightarrow> rxe_qp \<times> rxe_dev \<Rightarrow> rxe_qp \<times> rxe_dev \<Rightarrow> bool" where
  "completes n qd qd' \<longleftrightarrow> (case (qd, qd') of ((qp, dev), (qp', dev')) \<Rightarrow> \<exists>wrs scq sig.
     sq_view qp = (wrs, scq, sig) \<and> n \<le> length wrs \<and> sq_view qp' = (drop n wrs, scq, sig)
     \<and> (\<forall>c. map cqe_key (cq_list dev' c) = (if c = scq
          then take (cq_cap dev c) (map cqe_key (cq_list dev c) @ map wr_key (filter (wr_signaled sig) (take n wrs)))
          else map cqe_key (cq_list dev c)))
     \<and> cq_cap dev' = cq_cap dev \<and> comp_sane qd')"

lemma completes_refl:
  "comp_sane qd \<Longrightarrow> sq_view qp' = sq_view (fst qd) \<Longrightarrow> queue_inv (qp_sendq qp') \<Longrightarrow> dev_cq dev' = dev_cq (snd qd)
    \<Longrightarrow> completes 0 qd (qp', dev')"
  by (cases "sq_view (fst qd)") (auto simp: completes_def comp_sane_def cq_list_def cq_cap_def cqs_inv_def rq.contents_bound fun_eq_iff
    simp del: length_queue_list split: prod.splits)

lemma take_take_append: "take c (take c xs @ ys) = take c (xs @ ys)"
  by (cases "length xs \<le> c") simp_all

lemma completes_trans:
  assumes "completes m qd qd'" and "completes n qd' qd''"
  shows "completes (m + n) qd qd''"
proof -
  obtain qp dev qp' dev' qp'' dev'' where e: "qd = (qp, dev)" "qd' = (qp', dev')" "qd'' = (qp'', dev'')"
    by (cases qd, cases qd', cases qd'') blast
  obtain wrs scq sig where 1: "sq_view qp = (wrs, scq, sig)" "m \<le> length wrs" "sq_view qp' = (drop m wrs, scq, sig)"
    "\<forall>c. map cqe_key (cq_list dev' c) = (if c = scq
          then take (cq_cap dev c) (map cqe_key (cq_list dev c) @ map wr_key (filter (wr_signaled sig) (take m wrs)))
          else map cqe_key (cq_list dev c))" "cq_cap dev' = cq_cap dev"
    using assms(1) unfolding completes_def e by auto
  have 2: "n \<le> length wrs - m" "sq_view qp'' = (drop (n + m) wrs, scq, sig)"
    "\<forall>c. map cqe_key (cq_list dev'' c) = (if c = scq
          then take (cq_cap dev c) (map cqe_key (cq_list dev' c) @ map wr_key (filter (wr_signaled sig) (take n (drop m wrs))))
          else map cqe_key (cq_list dev' c))" "cq_cap dev'' = cq_cap dev" "comp_sane qd''"
    using assms(2) 1(3,5) unfolding completes_def e by auto
  have "m + n \<le> length wrs" using 1(2) 2(1) by simp
  then show ?thesis using 1 2
    by (simp add: completes_def e take_add take_take_append add.commute del: take_append)
qed

subsection \<open>Operations that complete nothing\<close>

lemmas comp_op_defs = reset_retry_counters_def wake_wait_psn_def run_req_task_def run_comp_task_def run_resp_task_def
  advance_comp_psn_def comp_update_def

lemma comp_ops_sq [simp]:
  "qp_sq (reset_retry_counters qp) = qp_sq qp" "qp_sq (wake_wait_psn qp) = qp_sq qp"
  "qp_sq (run_req_task qp) = qp_sq qp" "qp_sq (run_comp_task qp) = qp_sq qp" "qp_sq (run_resp_task qp) = qp_sq qp"
  "qp_sq (advance_comp_psn pkt qp) = qp_sq qp" "qp_sq (comp_update pkt qp) = qp_sq qp"
  by (simp_all add: comp_op_defs)

lemma comp_ops_view [simp]:
  "sq_view (reset_retry_counters qp) = sq_view qp" "sq_view (wake_wait_psn qp) = sq_view qp"
  "sq_view (run_req_task qp) = sq_view qp" "sq_view (run_comp_task qp) = sq_view qp" "sq_view (run_resp_task qp) = sq_view qp"
  "sq_view (advance_comp_psn pkt qp) = sq_view qp" "sq_view (comp_update pkt qp) = sq_view qp"
  "sq_view (qp\<lparr>qp_comp := ci\<rparr>) = sq_view qp" "sq_view (qp\<lparr>qp_req := ri\<rparr>) = sq_view qp"
  "sq_view (qp\<lparr>qp_resp := si\<rparr>) = sq_view qp" "sq_view (qp\<lparr>qp_resp_pkts := ps\<rparr>) = sq_view qp"
  "sq_view (qp\<lparr>qp_retrans_timer := t\<rparr>) = sq_view qp" "sq_view (qp\<lparr>qp_rnr_nak_timer := t\<rparr>) = sq_view qp"
  by (simp_all add: sq_view_def sq_list_def comp_op_defs)

text \<open>The pointer to the oldest request.\<close>

definition head_wqe :: "rxe_qp \<Rightarrow> u32 \<Rightarrow> bool" where
  "head_wqe qp a \<longleftrightarrow> queue_head (qp_sendq qp) = Some a"

lemma head_wqeD: "head_wqe qp a \<Longrightarrow> \<not> queue_empty (qp_sendq qp) \<and> a = consumer_addr (qp_sendq qp)"
  by (simp add: head_wqe_def queue_head_def split: if_splits)

lemma head_wqe_sq: "qp_sq qp' = qp_sq qp \<Longrightarrow> head_wqe qp' a = head_wqe qp a"
  by (simp add: head_wqe_def)

lemma sq_list_head:
  "queue_inv (qp_sendq qp) \<Longrightarrow> head_wqe qp a \<Longrightarrow> sq_list qp = get_send_wqe qp a # tl (sq_list qp)"
  using queue_list_head [of "qp_sendq qp"] by (auto simp: sq_list_def get_send_wqe_def dest!: head_wqeD)

lemma put_send_wqe_simps [simp]:
  "get_send_wqe (put_send_wqe a w qp) a = w" "queue_inv (qp_sendq (put_send_wqe a w qp)) = queue_inv (qp_sendq qp)"
  "head_wqe (put_send_wqe a w qp) b = head_wqe qp b" "qp_scq (put_send_wqe a w qp) = qp_scq qp"
  "qp_comp (put_send_wqe a w qp) = qp_comp qp" "qp_req (put_send_wqe a w qp) = qp_req qp"
  "qp_sq_sig_type (put_send_wqe a w qp) = qp_sq_sig_type qp" "qp_self (put_send_wqe a w qp) = qp_self qp"
  "qp_resp_pkts (put_send_wqe a w qp) = qp_resp_pkts qp" "put_send_wqe a w' (put_send_wqe a w qp) = put_send_wqe a w' qp"
  by (simp_all add: put_send_wqe_def get_send_wqe_def set_sendq_def head_wqe_def)

lemma sq_list_put:
  "queue_inv (qp_sendq qp) \<Longrightarrow> head_wqe qp a \<Longrightarrow> sq_list (put_send_wqe a w qp) = w # tl (sq_list qp)"
  using queue_list_write_head [of "qp_sendq qp"]
  by (auto simp: sq_list_def put_send_wqe_def set_sendq_def dest!: head_wqeD)

lemma sq_view_put:
  assumes "queue_inv (qp_sendq qp)" and "head_wqe qp a" and "wqe_ibwr w = wqe_ibwr (get_send_wqe qp a)"
  shows "sq_view (put_send_wqe a w qp) = sq_view qp"
  using sq_list_put [OF assms(1,2), of w] sq_list_head [OF assms(1,2)] assms(3)
  by (metis (no_types, lifting) list.simps(9) put_send_wqe_simps(4,7) sq_view_def)

lemma set_wqe_status_simps [simp]:
  "queue_inv (qp_sendq (set_wqe_status a s qp)) = queue_inv (qp_sendq qp)"
  "head_wqe (set_wqe_status a s qp) b = head_wqe qp b" "qp_scq (set_wqe_status a s qp) = qp_scq qp"
  "get_send_wqe (set_wqe_status a s qp) a = (get_send_wqe qp a)\<lparr>wqe_status := s\<rparr>"
  by (simp_all add: set_wqe_status_def)

lemma sq_view_status: "queue_inv (qp_sendq qp) \<Longrightarrow> head_wqe qp a \<Longrightarrow> sq_view (set_wqe_status a s qp) = sq_view qp"
  by (simp add: set_wqe_status_def sq_view_put)

subsection \<open>Completing one request\<close>

lemma cqe_key_make [simp]: "cqe_key (make_send_cqe qp w) = wr_key (wqe_ibwr w)"
  by (simp add: cqe_key_def make_send_cqe_def wr_key_def)

lemma do_complete_completes:
  assumes "comp_sane (qp, dev)" and "head_wqe qp a"
  shows "completes 1 (qp, dev) (do_complete a (qp, dev))"
proof -
  have inv: "queue_inv (qp_sendq qp)" "cqs_inv dev" using assms(1) by (simp_all add: comp_sane_def)
  let ?w = "get_send_wqe qp a"
  let ?qp = "fst (do_complete a (qp, dev))" and ?dev = "snd (do_complete a (qp, dev))"
  have sq: "qp_sendq ?qp = advance_consumer (qp_sendq qp)" "qp_scq ?qp = qp_scq qp" "qp_sq_sig_type ?qp = qp_sq_sig_type qp"
    by (simp_all add: do_complete_def Let_def set_sendq_def run_req_task_def)
  have dev: "?dev = (if wqe_signaled qp ?w then snd (rxe_cq_post (qp_scq qp) (make_send_cqe qp ?w) False dev) else dev)"
    by (simp add: do_complete_def Let_def)
  have pop: "sq_list ?qp = tl (sq_list qp)"
    unfolding sq_list_def sq using inv(1) head_wqeD [OF assms(2)] by (intro rq.contents_pop) simp_all
  have hd: "sq_list qp = ?w # tl (sq_list qp)" by (rule sq_list_head) fact+
  have sig: "wqe_signaled qp ?w \<longleftrightarrow> wr_signaled (qp_sq_sig_type qp) (wqe_ibwr ?w)"
    by (simp add: wqe_signaled_def wr_signaled_def)
  have t: "take 1 (map wqe_ibwr (sq_list qp)) = [wqe_ibwr ?w]" "1 \<le> length (sq_list qp)"
    by (subst hd, simp)+
  have v: "sq_view ?qp = (drop 1 (map wqe_ibwr (sq_list qp)), qp_scq qp, qp_sq_sig_type qp)"
    by (simp add: sq_view_def sq pop map_tl drop_Suc)
  have post: "cqs_inv ?dev" "cq_cap ?dev = cq_cap dev"
    "cq_list ?dev c = (if c = qp_scq qp
       then take (cq_cap dev c) (cq_list dev c @ (if wqe_signaled qp ?w then [make_send_cqe qp ?w] else []))
       else cq_list dev c)" for c
    using rxe_cq_post_list [OF inv(2), of "qp_scq qp" "make_send_cqe qp ?w" False] inv(2) cq_list_bound [OF inv(2)]
    unfolding dev by (simp_all add: fun_eq_iff)
  have "map cqe_key (cq_list ?dev c) = (if c = qp_scq qp
      then take (cq_cap dev c) (map cqe_key (cq_list dev c)
        @ map wr_key (filter (wr_signaled (qp_sq_sig_type qp)) (take 1 (map wqe_ibwr (sq_list qp)))))
      else map cqe_key (cq_list dev c))" for c
    unfolding post(3) t sig by (simp flip: take_map del: take_append)
  moreover have "comp_sane (?qp, ?dev)" unfolding comp_sane_def fst_conv snd_conv sq using inv(1) post(1) by simp
  moreover have "sq_view qp = (map wqe_ibwr (sq_list qp), qp_scq qp, qp_sq_sig_type qp)" by (rule sq_view_def)
  ultimately have "completes 1 (qp, dev) (?qp, ?dev)" unfolding completes_def prod.case using v t(2) post(2)
    by (intro exI conjI allI) (assumption | simp only: length_map)+
  then show ?thesis by simp
qed

subsection \<open>Flushing\<close>

lemma completesD:
  assumes "completes n (qp, dev) (qp', dev')"
  shows "map wqe_ibwr (sq_list qp') = drop n (map wqe_ibwr (sq_list qp))" "n \<le> length (sq_list qp)"
    "comp_sane (qp', dev')" "length (sq_list qp') = length (sq_list qp) - n"
proof -
  show v: "map wqe_ibwr (sq_list qp') = drop n (map wqe_ibwr (sq_list qp))" "n \<le> length (sq_list qp)" "comp_sane (qp', dev')"
    using assms by (auto simp: completes_def sq_view_def)
  show "length (sq_list qp') = length (sq_list qp) - n"
    using arg_cong [OF v(1), of length] by simp
qed

lemma cq_cong:
  assumes "dev_cq dev' = dev_cq dev"
  shows "cq_list dev' = cq_list dev" "cq_cap dev' = cq_cap dev" "cqs_inv dev' = cqs_inv dev"
  using assms
  by (simp_all add: cq_list_def cq_cap_def cqs_inv_def fun_eq_iff)

lemma completes_congL:
  assumes "completes n (qp, dev) qd" and "sq_view qp' = sq_view qp" and "dev_cq dev' = dev_cq dev"
  shows "completes n (qp', dev') qd"
  using assms(1) unfolding completes_def prod.case assms(2) cq_cong [OF assms(3)] .

lemma completes_congR:
  assumes "completes n qd (qp, dev)" and "sq_view qp' = sq_view qp" and "qp_sq qp' = qp_sq qp" and "dev_cq dev' = dev_cq dev"
  shows "completes n qd (qp', dev')"
  using assms(1) unfolding completes_def prod.case comp_sane_def fst_conv snd_conv assms(2,3) cq_cong [OF assms(4)] .

lemma no_head: "queue_inv (qp_sendq qp) \<Longrightarrow> queue_head (qp_sendq qp) = None \<longleftrightarrow> sq_list qp = []"
  by (simp add: queue_head_list sq_list_def)

lemma flush_sendq_completes:
  "comp_sane (qp, dev) \<Longrightarrow> \<exists>qp' dev'. flush_sendq (qp, dev) = Some (qp', dev')
     \<and> completes (length (sq_list qp)) (qp, dev) (qp', dev')"
proof (induction "length (sq_list qp)" arbitrary: qp dev)
  case 0
  then have "flush_sendq (qp, dev) = Some (qp, dev)"
    by (subst flush_sendq.simps) (simp add: no_head [THEN iffD2] comp_sane_def)
  then show ?case using 0 by (simp add: completes_refl comp_sane_def)
next
  case (Suc n)
  have inv: "queue_inv (qp_sendq qp)" using Suc.prems by (simp add: comp_sane_def)
  with Suc.hyps obtain a where a: "queue_head (qp_sendq qp) = Some a" using no_head by fastforce
  then have h: "head_wqe qp a" by (simp add: head_wqe_def)
  let ?qp = "set_wqe_status a IB_WC_WR_FLUSH_ERR qp"
  obtain qp' dev' where d: "do_complete a (?qp, dev) = (qp', dev')" by force
  have "completes 1 (?qp, dev) (qp', dev')"
    using do_complete_completes [of ?qp dev a] Suc.prems h by (simp add: d comp_sane_def)
  then have c: "completes 1 (qp, dev) (qp', dev')"
    by (rule completes_congL) (simp_all add: sq_view_status [OF inv h])
  have n: "n = length (sq_list qp')" using completesD(4) [OF c] Suc.hyps(2) by simp
  from Suc.hyps(1) [OF n completesD(3) [OF c]] obtain qp2 dev2 where r: "flush_sendq (qp', dev') = Some (qp2, dev2)"
    "completes n (qp', dev') (qp2, dev2)" unfolding n [symmetric] by blast
  have "flush_sendq (qp, dev) = flush_sendq (qp', dev')" by (subst flush_sendq.simps) (simp add: a d)
  moreover have "completes (length (sq_list qp)) (qp, dev) (qp2, dev2)"
    using completes_trans [OF c r(2)] unfolding Suc.hyps(2) [symmetric] by simp
  ultimately show ?case using r(1) by simp
qed

lemma drain_resp_pkts_frame:
  "qp_sq (fst (drain_resp_pkts qd)) = qp_sq (fst qd)" "sq_view (fst (drain_resp_pkts qd)) = sq_view (fst qd)"
  "dev_cq (snd (drain_resp_pkts qd)) = dev_cq (snd qd)"
proof -
  have "dev_cq (fold (\<lambda>skb dev. let dev = kfree_skb skb (drop_qp h dev)
     in dev\<lparr>dev_resp_skb_in := dev_resp_skb_in dev - 1\<rparr>) pkts dev) = dev_cq dev" for h pkts dev
    by (induction pkts arbitrary: dev) (simp_all add: kfree_skb_def drop_qp_def Let_def split: prod.splits)
  then show "qp_sq (fst (drain_resp_pkts qd)) = qp_sq (fst qd)" "sq_view (fst (drain_resp_pkts qd)) = sq_view (fst qd)"
    "dev_cq (snd (drain_resp_pkts qd)) = dev_cq (snd qd)"
    by (simp_all add: drain_resp_pkts_def split: prod.splits)
qed

lemma comp_sane_cong: "comp_sane qd \<Longrightarrow> qp_sq qp' = qp_sq (fst qd) \<Longrightarrow> dev_cq dev' = dev_cq (snd qd) \<Longrightarrow> comp_sane (qp', dev')"
  by (simp add: comp_sane_def cqs_inv_def)

lemma comp_flush_completes:
  assumes "comp_sane (qp, dev)"
  shows "\<exists>qp' dev'. comp_flush (qp, dev) = Some (qp', dev') \<and> completes (length (sq_list qp)) (qp, dev) (qp', dev')"
proof -
  obtain qp1 dev1 where d: "drain_resp_pkts (qp, dev) = (qp1, dev1)" by force
  note f = drain_resp_pkts_frame [of "(qp, dev)", unfolded d fst_conv snd_conv]
  have s: "comp_sane (qp1, dev1)" using comp_sane_cong [OF assms] f by simp
  have l: "sq_list qp1 = sq_list qp" using f(1) by (simp add: sq_list_def)
  from flush_sendq_completes [OF s] obtain qp2 dev2 where r: "flush_sendq (qp1, dev1) = Some (qp2, dev2)"
    "completes (length (sq_list qp)) (qp1, dev1) (qp2, dev2)" unfolding l by blast
  have "completes (length (sq_list qp)) (qp, dev) (qp2, dev2)"
    by (rule completes_congL [OF r(2)]) (simp_all only: f)
  then show ?thesis using r(1) by (simp add: comp_flush_def d)
qed

lemma rxe_qp_error_completes:
  assumes "comp_sane (qp, dev)" and "qp_valid qp"
  shows "\<exists>n qp' dev'. rxe_qp_error (qp, dev) = Some (qp', dev') \<and> completes n (qp, dev) (qp', dev')"
proof -
  let ?qp = "run_resp_task (qp\<lparr>qp_req := (qp_req qp)\<lparr>req_state := QP_STATE_ERROR\<rparr>,
    qp_resp := (qp_resp qp)\<lparr>resp_state := QP_STATE_ERROR\<rparr>\<rparr>)"
  have s: "comp_sane (?qp, dev)" using assms(1) by (rule comp_sane_cong) simp_all
  have t: "qp_type ?qp = qp_type qp" "qp_valid ?qp" using assms(2) by (simp_all add: run_resp_task_def)
  show ?thesis
  proof (cases "qp_type qp = IB_QPT_RC")
    case True
    then have "rxe_qp_error (qp, dev) = Some (run_req_task (run_comp_task ?qp), dev)"
      by (simp add: rxe_qp_error_def Let_def t)
    moreover have "completes 0 (qp, dev) (run_req_task (run_comp_task ?qp), dev)"
      using assms(1) by (intro completes_refl) (simp_all add: comp_sane_def)
    ultimately show ?thesis by blast
  next
    case False
    obtain n qp' dev' where f: "comp_flush (?qp, dev) = Some (qp', dev')" "completes n (?qp, dev) (qp', dev')"
      using comp_flush_completes [OF s] by blast
    then have "rxe_qp_error (qp, dev) = Some (run_req_task qp', dev')"
      using False t by (simp add: rxe_qp_error_def Let_def)
    moreover have "completes n (qp, dev) (run_req_task qp', dev')"
      by (rule completes_congL [OF completes_congR [OF f(2)]]) simp_all
    ultimately show ?thesis by blast
  qed
qed

subsection \<open>One round of the state machine\<close>

text \<open>The send queue as the completer needs it kept between two states.\<close>

definition keeps :: "rxe_qp \<Rightarrow> rxe_qp \<Rightarrow> bool" where
  "keeps qp qp' \<longleftrightarrow> sq_view qp' = sq_view qp \<and> (queue_inv (qp_sendq qp) \<longrightarrow> queue_inv (qp_sendq qp'))
     \<and> (\<forall>a. head_wqe qp' a = head_wqe qp a) \<and> qp_valid qp' = qp_valid qp"

lemma keeps_refl [simp]: "keeps qp qp"
  by (simp add: keeps_def)

lemma keeps_sq: "qp_sq qp' = qp_sq qp \<Longrightarrow> qp_scq qp' = qp_scq qp \<Longrightarrow> qp_sq_sig_type qp' = qp_sq_sig_type qp
    \<Longrightarrow> qp_valid qp' = qp_valid qp \<Longrightarrow> keeps qp qp'"
  by (simp add: keeps_def sq_view_def sq_list_def head_wqe_def)

lemma keeps_ops [simp]:
  "keeps qp (reset_retry_counters qp)" "keeps qp (wake_wait_psn qp)" "keeps qp (comp_update pkt qp)"
  "keeps qp (run_req_task qp)"
  "keeps qp (wake_wait_psn (qp\<lparr>qp_comp := ci\<rparr>))"
  "keeps qp (run_req_task (qp\<lparr>qp_req := ri\<rparr>))" "keeps qp (run_req_task (qp\<lparr>qp_comp := ci, qp_req := ri\<rparr>))"
  "keeps qp (qp\<lparr>qp_retrans_timer := t\<rparr>)"
  by (rule keeps_sq; simp add: comp_op_defs)+

lemma keeps_put:
  "queue_inv (qp_sendq qp) \<Longrightarrow> head_wqe qp a \<Longrightarrow> wqe_ibwr w = wqe_ibwr (get_send_wqe qp a) \<Longrightarrow> keeps qp (put_send_wqe a w qp)"
  by (simp add: keeps_def sq_view_put) (simp add: put_send_wqe_def set_sendq_def)

lemma keeps_status: "queue_inv (qp_sendq qp) \<Longrightarrow> head_wqe qp a \<Longrightarrow> keeps qp (set_wqe_status a s qp)"
  by (simp add: set_wqe_status_def keeps_put)

lemma keeps_trans: "keeps qp qp' \<Longrightarrow> keeps qp' qp'' \<Longrightarrow> keeps qp qp''"
  by (simp add: keeps_def)

lemma completes_keeps:
  "keeps qp qp' \<Longrightarrow> comp_sane (qp, dev) \<Longrightarrow> dev_cq dev' = dev_cq dev \<Longrightarrow> completes 0 (qp, dev) (qp', dev')"
  by (rule completes_refl) (simp_all add: keeps_def comp_sane_def)

lemma comp_check_psn_keeps:
  "comp_check_psn qp pkt a = (st, qp') \<Longrightarrow> keeps qp qp'
     \<and> st \<in> {COMPST_ERROR_RETRY, COMPST_COMP_WQE, COMPST_DONE, COMPST_COMP_ACK, COMPST_CHECK_ACK}"
  by (auto simp: comp_check_psn_def Let_def split: if_splits)

lemma check_nak_keeps:
  "queue_inv (qp_sendq qp) \<Longrightarrow> head_wqe qp a \<Longrightarrow> check_nak qp pkt a syn = (st, qp')
     \<Longrightarrow> keeps qp qp' \<and> st \<in> {COMPST_ERROR_RETRY, COMPST_ERROR}"
  by (auto simp: check_nak_def keeps_status split: if_splits)

lemma check_ack_keeps:
  assumes "queue_inv (qp_sendq qp)" and "head_wqe qp a" and "check_ack qp pkt a = (st, qp')"
  shows "keeps qp qp' \<and> st \<in> {COMPST_ERROR, COMPST_READ, COMPST_ATOMIC, COMPST_WRITE_SEND, COMPST_RNR_RETRY, COMPST_ERROR_RETRY}"
  using assms(3) check_nak_keeps [OF assms(1,2), of pkt "aeth_syn pkt" st qp']
  unfolding check_ack_def Let_def by (simp split: if_splits) auto

lemma copy_in_keeps:
  assumes "queue_inv (qp_sendq qp)" and "head_wqe qp a" and "copy_in a src addr len (qp, dev) = Some (r, qp', dev')"
  shows "keeps qp qp' \<and> dev_cq dev' = dev_cq dev"
  using assms(3) by (auto simp: copy_in_def Let_def keeps_put [OF assms(1,2)] split: option.splits prod.splits)

lemma do_read_keeps:
  assumes "queue_inv (qp_sendq qp)" and "head_wqe qp a" and "do_read pkt a (qp, dev) = Some (st, qp', dev')"
  shows "keeps qp qp' \<and> dev_cq dev' = dev_cq dev \<and> st \<in> {COMPST_ERROR, COMPST_COMP_ACK, COMPST_UPDATE_COMP}"
  using assms(3) copy_in_keeps [OF assms(1,2)] by (auto simp: do_read_def split: option.splits prod.splits if_splits)

lemma do_atomic_keeps:
  assumes "queue_inv (qp_sendq qp)" and "head_wqe qp a" and "do_atomic pkt a (qp, dev) = Some (st, qp', dev')"
  shows "keeps qp qp' \<and> dev_cq dev' = dev_cq dev \<and> st \<in> {COMPST_ERROR, COMPST_COMP_ACK}"
  using assms(3) copy_in_keeps [OF assms(1,2)] by (auto simp: do_atomic_def Let_def split: option.splits prod.splits)

lemma comp_exit_keeps: "comp_exit dev wqe qp = Inl qp' \<Longrightarrow> keeps qp qp'"
  by (auto simp: comp_exit_def split: if_splits)

lemma comp_error_retry_keeps:
  assumes "queue_inv (qp_sendq qp)" and "\<forall>a. wqe = Some a \<longrightarrow> head_wqe qp a"
  shows "case comp_error_retry wqe qp of Inl qp' \<Rightarrow> keeps qp qp' | Inr qp' \<Rightarrow> wqe \<noteq> None \<and> keeps qp qp'"
  using assms by (auto simp: comp_error_retry_def Let_def keeps_status split: option.splits)
    (rule keeps_sq; simp add: run_req_task_def)+

lemma comp_rnr_retry_keeps:
  assumes "queue_inv (qp_sendq qp)" and "head_wqe qp a"
  shows "comp_rnr_retry_step dev pkt a qp = Some (Inl qp') \<Longrightarrow> keeps qp qp'"
    and "comp_rnr_retry_step dev pkt a qp = Some (Inr qp') \<Longrightarrow> keeps qp qp'"
proof -
  show "comp_rnr_retry_step dev pkt a qp = Some (Inl qp') \<Longrightarrow> keeps qp qp'"
    by (auto simp: comp_rnr_retry_step_def Let_def split: if_splits intro!: keeps_sq)
  show "comp_rnr_retry_step dev pkt a qp = Some (Inr qp') \<Longrightarrow> keeps qp qp'"
    using keeps_status [OF assms] by (auto simp: comp_rnr_retry_step_def Let_def split: if_splits)
qed

lemma return_rd_atomic_keeps:
  assumes "queue_inv (qp_sendq qp)" and "head_wqe qp a"
  shows "keeps qp (return_rd_atomic a qp)"
proof -
  let ?qp = "put_send_wqe a ((get_send_wqe qp a)\<lparr>wqe_has_rd_atomic := 0\<rparr>) qp"
  have "keeps qp ?qp" using assms by (simp add: keeps_put)
  moreover have "keeps ?qp (?qp\<lparr>qp_req := ri\<rparr>)" "keeps ?qp (run_req_task (?qp\<lparr>qp_req := ri, qp_comp := ci\<rparr>))" for ri ci
    by (rule keeps_sq; simp add: run_req_task_def)+
  ultimately show ?thesis unfolding return_rd_atomic_def Let_def
    by (simp add: keeps_trans)
qed

definition cc_qd :: "comp_ctx \<Rightarrow> rxe_qp \<times> rxe_dev" where
  "cc_qd ctx = (cc_qp ctx, cc_dev ctx)"

text \<open>What holds on entry to each state: which of the two pointers is set, and that the pointer to
  the work request is the head of the send queue.\<close>

definition comp_wf :: "comp_state \<Rightarrow> comp_ctx \<Rightarrow> bool" where
  "comp_wf st ctx \<longleftrightarrow> comp_sane (cc_qd ctx) \<and> qp_valid (cc_qp ctx)
     \<and> (st \<notin> {COMPST_GET_ACK, COMPST_GET_WQE, COMPST_UPDATE_COMP, COMPST_DONE}
          \<longrightarrow> (\<forall>a. cc_wqe ctx = Some a \<longrightarrow> head_wqe (cc_qp ctx) a))
     \<and> (st \<notin> {COMPST_GET_ACK, COMPST_GET_WQE, COMPST_UPDATE_COMP, COMPST_DONE, COMPST_EXIT, COMPST_ERROR_RETRY}
          \<longrightarrow> cc_wqe ctx \<noteq> None)
     \<and> (st \<in> {COMPST_CHECK_PSN, COMPST_CHECK_ACK, COMPST_READ, COMPST_ATOMIC, COMPST_WRITE_SEND,
          COMPST_COMP_ACK, COMPST_UPDATE_COMP, COMPST_RNR_RETRY} \<longrightarrow> cc_skb ctx \<noteq> None)"

text \<open>Every round lowers this number: completing a request shortens the queue, every other
  transition goes to a state of lower rank.\<close>

fun comp_rank :: "comp_state \<Rightarrow> nat" where
  "comp_rank COMPST_GET_ACK = 14"
| "comp_rank COMPST_GET_WQE = 13"
| "comp_rank COMPST_COMP_WQE = 11"
| "comp_rank COMPST_CHECK_PSN = 12"
| "comp_rank COMPST_CHECK_ACK = 11"
| "comp_rank COMPST_READ = 10"
| "comp_rank COMPST_ATOMIC = 10"
| "comp_rank COMPST_WRITE_SEND = 10"
| "comp_rank COMPST_COMP_ACK = 9"
| "comp_rank COMPST_UPDATE_COMP = 8"
| "comp_rank COMPST_EXIT = 7"
| "comp_rank COMPST_ERROR_RETRY = 6"
| "comp_rank COMPST_RNR_RETRY = 6"
| "comp_rank COMPST_ERROR = 5"
| "comp_rank COMPST_DONE = 0"

definition comp_measure :: "comp_state \<Rightarrow> comp_ctx \<Rightarrow> nat" where
  "comp_measure st ctx = 16 * length (sq_list (cc_qp ctx)) + comp_rank st"

lemma keeps_length: "keeps qp qp' \<Longrightarrow> length (sq_list qp') = length (sq_list qp)"
  unfolding keeps_def sq_view_def by (metis length_map prod.inject)

text \<open>A transition that completes nothing, and one that completes the oldest request.\<close>

lemma comp_keeps:
  assumes "comp_sane (cc_qd ctx)" and "keeps (cc_qp ctx) (cc_qp ctx')" and "dev_cq (cc_dev ctx') = dev_cq (cc_dev ctx)"
  shows "comp_sane (cc_qd ctx') \<and> qp_valid (cc_qp ctx') = qp_valid (cc_qp ctx)
    \<and> (\<forall>a. head_wqe (cc_qp ctx') a = head_wqe (cc_qp ctx) a) \<and> (\<exists>n. completes n (cc_qd ctx) (cc_qd ctx'))
    \<and> length (sq_list (cc_qp ctx')) = length (sq_list (cc_qp ctx))"
  using completes_keeps [OF assms(2) _ assms(3)] assms keeps_length [OF assms(2)] completesD(3)
  unfolding cc_qd_def keeps_def by blast

lemma do_complete_next:
  assumes "comp_sane (qp, dev)" and "head_wqe qp a"
  obtains qp' dev' where "do_complete a (qp, dev) = (qp', dev')" "completes 1 (qp, dev) (qp', dev')"
    "comp_sane (qp', dev')" "length (sq_list qp) = Suc (length (sq_list qp'))" "qp_valid qp' = qp_valid qp"
    "qp_comp qp' = qp_comp qp"
proof -
  obtain qp' dev' where d: "do_complete a (qp, dev) = (qp', dev')" by force
  then have c: "completes 1 (qp, dev) (qp', dev')" using do_complete_completes [OF assms] by simp
  moreover have "qp_valid qp' = qp_valid qp" "qp_comp qp' = qp_comp qp"
    using d by (auto simp: do_complete_def Let_def set_sendq_def run_req_task_def split: if_splits)
  moreover have "length (sq_list qp) = Suc (length (sq_list qp'))"
    using completesD(2,4) [OF c] by simp
  ultimately show ?thesis using that d completesD(3) [OF c] by blast
qed

lemma finish_drain_simps:
  "keeps qp (fst (finish_drain (qp, dev)))" "dev_cq (snd (finish_drain (qp, dev))) = dev_cq dev"
  "qp_comp (fst (finish_drain (qp, dev))) = qp_comp qp"
  by (auto simp: finish_drain_def send_event_def intro: keeps_sq)

lemma complete_ack_next:
  assumes "comp_sane (qp, dev)" and "head_wqe qp a"
  obtains st' qp' dev' where "complete_ack pkt a (qp, dev) = (st', qp', dev')" "completes 1 (qp, dev) (qp', dev')"
    "comp_sane (qp', dev')" "length (sq_list qp) = Suc (length (sq_list qp'))" "qp_valid qp' = qp_valid qp"
    "st' \<in> {COMPST_UPDATE_COMP, COMPST_DONE}"
proof -
  let ?qp = "return_rd_atomic a qp"
  obtain qp1 dev1 where f: "finish_drain (?qp, dev) = (qp1, dev1)" by force
  have inv: "queue_inv (qp_sendq qp)" using assms(1) by (simp add: comp_sane_def)
  have k: "keeps qp qp1" and d: "dev_cq dev1 = dev_cq dev"
    using finish_drain_simps [of ?qp dev] return_rd_atomic_keeps [OF inv assms(2)] f by (auto elim: keeps_trans)
  have s: "comp_sane (qp1, dev1)" and h: "head_wqe qp1 a" and l: "length (sq_list qp1) = length (sq_list qp)"
    using completesD(3) [OF completes_keeps [OF k assms(1) d]] k assms(2) keeps_length [OF k] by (auto simp: keeps_def)
  obtain qp' dev' where c: "do_complete a (qp1, dev1) = (qp', dev')" "completes 1 (qp1, dev1) (qp', dev')"
    "comp_sane (qp', dev')" "length (sq_list qp1) = Suc (length (sq_list qp'))" "qp_valid qp' = qp_valid qp1"
    by (rule do_complete_next [OF s h])
  show ?thesis
  proof (rule that)
    show "complete_ack pkt a (qp, dev) = (if 0 \<le> psn_compare (pkt_psn pkt) (comp_psn (qp_comp qp')) then COMPST_UPDATE_COMP
        else COMPST_DONE, qp', dev')" by (simp add: complete_ack_def f c(1))
    show "completes 1 (qp, dev) (qp', dev')"
      using completes_trans [OF completes_keeps [OF k assms(1) d] c(2)] by simp
  qed (use c k l in \<open>simp_all add: keeps_def\<close>)
qed

lemma complete_wqe_next:
  assumes "comp_sane (qp, dev)" and "head_wqe qp a"
  obtains qp' dev' where "complete_wqe pkt a (qp, dev) = (COMPST_GET_WQE, qp', dev')" "completes 1 (qp, dev) (qp', dev')"
    "comp_sane (qp', dev')" "length (sq_list qp) = Suc (length (sq_list qp'))" "qp_valid qp' = qp_valid qp"
proof -
  let ?q1 = "qp\<lparr>qp_comp := (qp_comp qp)\<lparr>comp_opcode := -1\<rparr>\<rparr>"
  let ?qp = "case pkt of None \<Rightarrow> ?q1 | Some pkt \<Rightarrow> wake_wait_psn (advance_comp_psn pkt ?q1)"
  have k: "keeps qp ?qp" by (rule keeps_sq; simp add: comp_op_defs split: option.splits)
  have s: "comp_sane (?qp, dev)" and h: "head_wqe ?qp a" and l: "length (sq_list ?qp) = length (sq_list qp)"
    using completesD(3) [OF completes_keeps [OF k assms(1) refl]] k assms(2) keeps_length [OF k] by (auto simp: keeps_def)
  obtain qp' dev' where c: "do_complete a (?qp, dev) = (qp', dev')" "completes 1 (?qp, dev) (qp', dev')"
    "comp_sane (qp', dev')" "length (sq_list ?qp) = Suc (length (sq_list qp'))" "qp_valid qp' = qp_valid ?qp"
    by (rule do_complete_next [OF s h])
  show ?thesis
  proof (rule that)
    show "complete_wqe pkt a (qp, dev) = (COMPST_GET_WQE, qp', dev')" by (simp add: complete_wqe_def Let_def c(1))
    show "completes 1 (qp, dev) (qp', dev')"
      using completes_trans [OF completes_keeps [OF k assms(1) refl] c(2)] by simp
    show "length (sq_list qp) = Suc (length (sq_list qp'))" using c(4) l by simp
    show "qp_valid qp' = qp_valid qp" using c(5) k by (simp add: keeps_def)
  qed (rule c(3))
qed

lemma comp_step_next:
  assumes "comp_wf st ctx" and "comp_step st ctx = Some (Inr (st', ctx'))"
  shows "comp_wf st' ctx' \<and> (\<exists>n. completes n (cc_qd ctx) (cc_qd ctx')) \<and> comp_measure st' ctx' < comp_measure st ctx"
proof -
  have s: "comp_sane (cc_qd ctx)" and v: "qp_valid (cc_qp ctx)" using assms(1) by (simp_all add: comp_wf_def)
  have inv: "queue_inv (qp_sendq (cc_qp ctx))" using s by (simp add: comp_sane_def cc_qd_def)
  note k = comp_keeps [OF s]
  show ?thesis
  proof (cases st)
    case COMPST_GET_ACK
    then show ?thesis using assms(2) v k [of ctx']
      by (auto simp: comp_wf_def comp_measure_def keeps_sq split: list.splits)
  next
    case COMPST_GET_WQE
    then show ?thesis using assms(2) v k [of ctx']
      by (auto simp: comp_wf_def comp_measure_def get_wqe_def head_wqe_def Let_def split: option.splits if_splits)
  next
    case COMPST_CHECK_PSN
    then show ?thesis using assms v k [of ctx']
      by (auto simp: comp_wf_def comp_measure_def dest!: comp_check_psn_keeps split: prod.splits)
  next
    case COMPST_CHECK_ACK
    then show ?thesis using assms v k [of ctx']
      by (auto simp: comp_wf_def comp_measure_def dest!: check_ack_keeps [OF inv, rotated] split: prod.splits)
  next
    case COMPST_READ
    then show ?thesis using assms v k [of ctx']
      by (auto simp: comp_wf_def comp_measure_def cc_set_def dest!: do_read_keeps [OF inv, rotated] split: prod.splits)
  next
    case COMPST_ATOMIC
    then show ?thesis using assms v k [of ctx']
      by (auto simp: comp_wf_def comp_measure_def cc_set_def dest!: do_atomic_keeps [OF inv, rotated] split: prod.splits)
  next
    case COMPST_WRITE_SEND
    then show ?thesis using assms v k [of ctx']
      by (auto simp: comp_wf_def comp_measure_def Let_def split: prod.splits)
  next
    case COMPST_UPDATE_COMP
    then show ?thesis using assms v k [of ctx']
      by (auto simp: comp_wf_def comp_measure_def Let_def split: prod.splits)
  next
    case COMPST_EXIT
    then show ?thesis using assms v k [of ctx']
      by (auto simp: comp_wf_def comp_measure_def comp_exit_def split: if_splits sum.splits)
  next
    case COMPST_ERROR_RETRY
    then show ?thesis using assms v k [of ctx'] comp_error_retry_keeps [OF inv, of "cc_wqe ctx"]
      by (auto simp: comp_wf_def comp_measure_def split: sum.splits)
  next
    case COMPST_RNR_RETRY
    then show ?thesis using assms v k [of ctx'] comp_rnr_retry_keeps [OF inv]
      by (auto simp: comp_wf_def comp_measure_def split: sum.splits option.splits)
  next
    case COMPST_COMP_ACK
    then obtain a skb where a: "cc_wqe ctx = Some a" "head_wqe (cc_qp ctx) a" "cc_skb ctx = Some skb"
      using assms(1) by (auto simp: comp_wf_def)
    obtain st1 qp' dev' where c: "complete_ack (skb_pkt skb) a (cc_qp ctx, cc_dev ctx) = (st1, qp', dev')"
      "completes 1 (cc_qp ctx, cc_dev ctx) (qp', dev')" "comp_sane (qp', dev')"
      "length (sq_list (cc_qp ctx)) = Suc (length (sq_list qp'))" "qp_valid qp' = qp_valid (cc_qp ctx)"
      "st1 \<in> {COMPST_UPDATE_COMP, COMPST_DONE}"
      by (rule complete_ack_next [OF s [unfolded cc_qd_def] a(2)])
    then have e: "st' = st1" "ctx' = cc_set (qp', dev') ctx" using assms(2) a by (simp_all add: COMPST_COMP_ACK)
    show ?thesis using c(2-6) v a(3) unfolding e
      by (elim insertE emptyE) (simp_all add: COMPST_COMP_ACK comp_wf_def comp_measure_def cc_qd_def cc_set_def exI)
  next
    case COMPST_COMP_WQE
    then obtain a where a: "cc_wqe ctx = Some a" "head_wqe (cc_qp ctx) a"
      using assms(1) by (auto simp: comp_wf_def)
    obtain qp' dev' where c: "complete_wqe (map_option skb_pkt (cc_skb ctx)) a (cc_qp ctx, cc_dev ctx) = (COMPST_GET_WQE, qp', dev')"
      "completes 1 (cc_qp ctx, cc_dev ctx) (qp', dev')" "comp_sane (qp', dev')"
      "length (sq_list (cc_qp ctx)) = Suc (length (sq_list qp'))" "qp_valid qp' = qp_valid (cc_qp ctx)"
      by (rule complete_wqe_next [OF s [unfolded cc_qd_def] a(2)])
    then have e: "st' = COMPST_GET_WQE" "ctx' = cc_set (qp', dev') ctx" using assms(2) a by (simp_all add: COMPST_COMP_WQE)
    show ?thesis using c(2-5) v unfolding e
      by (simp add: COMPST_COMP_WQE comp_wf_def comp_measure_def cc_qd_def cc_set_def exI)
  qed (use assms(2) in \<open>auto split: option.splits\<close>)
qed

lemma comp_release_cq: "comp_release skb dev = Some dev' \<Longrightarrow> dev_cq dev' = dev_cq dev"
  by (auto simp: comp_release_def kfree_skb_def drop_qp_def Let_def split: option.splits prod.splits)

lemma comp_step_exit:
  assumes "comp_wf st ctx" and "comp_step st ctx = Some (Inl (ret, ctx'))"
  shows "\<exists>n. completes n (cc_qd ctx) (cc_qd ctx')"
proof -
  have s: "comp_sane (cc_qd ctx)" using assms(1) by (simp add: comp_wf_def)
  have inv: "queue_inv (qp_sendq (cc_qp ctx))" using s by (simp add: comp_sane_def cc_qd_def)
  note k = comp_keeps [OF s]
  show ?thesis
  proof (cases st)
    case COMPST_ERROR
    then obtain a where a: "cc_wqe ctx = Some a" "head_wqe (cc_qp ctx) a" using assms(1) by (auto simp: comp_wf_def)
    obtain qp' dev' where c: "do_complete a (cc_qp ctx, cc_dev ctx) = (qp', dev')"
      "completes 1 (cc_qp ctx, cc_dev ctx) (qp', dev')" "comp_sane (qp', dev')"
      "length (sq_list (cc_qp ctx)) = Suc (length (sq_list qp'))" "qp_valid qp' = qp_valid (cc_qp ctx)"
      by (rule do_complete_next [OF s [unfolded cc_qd_def] a(2)])
    have "qp_valid qp'" using c(5) assms(1) by (simp add: comp_wf_def)
    from rxe_qp_error_completes [OF c(3) this] obtain n qp2 dev2 where
      e: "rxe_qp_error (qp', dev') = Some (qp2, dev2)" "completes n (qp', dev') (qp2, dev2)" by blast
    have "ctx' = cc_set (qp2, dev2) ctx" using assms(2) a c(1) e(1) by (simp add: COMPST_ERROR)
    then show ?thesis using completes_trans [OF c(2) e(2)] by (auto simp: cc_qd_def cc_set_def)
  next
    case COMPST_EXIT
    then show ?thesis using assms k [of ctx']
      by (auto dest!: comp_exit_keeps split: sum.splits)
  next
    case COMPST_DONE
    then show ?thesis using assms k [of ctx'] by (auto dest: comp_release_cq)
  next
    case COMPST_ERROR_RETRY
    then show ?thesis using assms k [of ctx'] comp_error_retry_keeps [OF inv, of "cc_wqe ctx"]
      by (auto simp: comp_wf_def split: sum.splits)
  next
    case COMPST_RNR_RETRY
    then show ?thesis using assms k [of ctx'] comp_rnr_retry_keeps [OF inv]
      by (auto simp: comp_wf_def split: sum.splits option.splits)
  qed (use assms(2) in \<open>auto simp: Let_def split: option.splits prod.splits list.splits\<close>)
qed

subsection \<open>The loop returns\<close>

text \<open>The packet's data can be copied into the scatter list of every request without leaving the
  structures, and the packet holds a reference to its queue pair.\<close>

definition dma_copies :: "rxe_qp \<Rightarrow> rxe_dev \<Rightarrow> sk_buff \<Rightarrow> rxe_dma_info \<Rightarrow> bool" where
  "dma_copies qp dev skb dma \<longleftrightarrow> (let pkt = skb_pkt skb in
     copy_data (qp_pd qp) IB_ACCESS_LOCAL_WRITE dma (pkt_hdr pkt) (payload_addr pkt) (sint (payload_size pkt))
       direction_in None (dev_mem dev) \<noteq> None
     \<and> copy_data (qp_pd qp) IB_ACCESS_LOCAL_WRITE dma (store64 (\<lambda>_. 0) 0 (atmack_orig pkt)) 0 8
       direction_in None (dev_mem dev) \<noteq> None)"

definition resp_pkt_ok :: "rxe_qp \<Rightarrow> rxe_dev \<Rightarrow> sk_buff \<Rightarrow> bool" where
  "resp_pkt_ok qp dev skb \<longleftrightarrow> skb_qp skb \<noteq> None \<and> (\<forall>w \<in> set (sq_list qp). dma_copies qp dev skb (wqe_dma w))"

definition comp_fine :: "comp_state \<Rightarrow> comp_ctx \<Rightarrow> bool" where
  "comp_fine st ctx \<longleftrightarrow> (\<forall>skb. (cc_skb ctx = Some skb \<longrightarrow> skb_qp skb \<noteq> None
       \<and> (st \<noteq> COMPST_GET_ACK \<longrightarrow> 10 \<le> comp_rank st \<longrightarrow> resp_pkt_ok (cc_qp ctx) (cc_dev ctx) skb))
     \<and> (st = COMPST_GET_ACK \<longrightarrow> cc_skb ctx = None \<and>
          (skb \<in> set (qp_resp_pkts (cc_qp ctx)) \<longrightarrow> resp_pkt_ok (cc_qp ctx) (cc_dev ctx) skb)))"

lemma resp_pkt_ok_mono:
  "resp_pkt_ok qp dev skb \<Longrightarrow> set (sq_list qp') \<subseteq> set (sq_list qp) \<Longrightarrow> qp_pd qp' = qp_pd qp
    \<Longrightarrow> dev_mem dev' = dev_mem dev \<Longrightarrow> resp_pkt_ok qp' dev' skb"
  by (auto simp: resp_pkt_ok_def dma_copies_def)

lemma resp_pkt_ok_sq:
  "resp_pkt_ok qp dev skb \<Longrightarrow> qp_sq qp' = qp_sq qp \<Longrightarrow> qp_pd qp' = qp_pd qp \<Longrightarrow> resp_pkt_ok qp' dev skb"
  by (simp add: resp_pkt_ok_def dma_copies_def sq_list_def)

lemma complete_wqe_subset:
  assumes "queue_inv (qp_sendq qp)" and "head_wqe qp a" and "complete_wqe pkt a (qp, dev) = (st, qp', dev')"
  shows "set (sq_list qp') \<subseteq> set (sq_list qp)" "qp_pd qp' = qp_pd qp" "dev_mem dev' = dev_mem dev"
proof -
  have q: "qp_sendq qp' = advance_consumer (qp_sendq qp)" and "qp_pd qp' = qp_pd qp" "dev_mem dev' = dev_mem dev"
    using assms(3) by (auto simp: complete_wqe_def do_complete_def Let_def set_sendq_def comp_op_defs split: option.splits if_splits)
  then show "qp_pd qp' = qp_pd qp" "dev_mem dev' = dev_mem dev" by simp_all
  have "queue_list (qp_sendq qp') = tl (queue_list (qp_sendq qp))"
    unfolding q using assms(1) head_wqeD [OF assms(2)] by (intro rq.contents_pop) simp_all
  then show "set (sq_list qp') \<subseteq> set (sq_list qp)" unfolding sq_list_def by (metis list.set_sel(2) subsetI tl_Nil)
qed

lemma check_ack_sq:
  "check_ack qp pkt a = (st, qp') \<Longrightarrow> 10 \<le> comp_rank st \<Longrightarrow> qp_sq qp' = qp_sq qp \<and> qp_pd qp' = qp_pd qp"
  by (auto simp: check_ack_def check_nak_def Let_def reset_retry_counters_def split: if_splits)

lemma comp_check_psn_sq: "comp_check_psn qp pkt a = (st, qp') \<Longrightarrow> qp_sq qp' = qp_sq qp \<and> qp_pd qp' = qp_pd qp"
  by (auto simp: comp_check_psn_def Let_def reset_retry_counters_def split: if_splits)

lemma comp_step_target: "comp_step st ctx = Some (Inr (st', ctx')) \<Longrightarrow> st' \<noteq> COMPST_GET_ACK"
  by (cases st) (auto simp: get_wqe_def comp_check_psn_def check_ack_def check_nak_def do_read_def do_atomic_def
    complete_ack_def complete_wqe_def comp_exit_def Let_def split: option.splits prod.splits if_splits list.splits sum.splits)

lemma comp_step_fine:
  assumes "comp_wf st ctx" and "comp_fine st ctx" and "comp_step st ctx = Some (Inr (st', ctx'))"
  shows "comp_fine st' ctx'"
proof -
  have inv: "queue_inv (qp_sendq (cc_qp ctx))" using assms(1) by (simp add: comp_wf_def comp_sane_def cc_qd_def)
  show ?thesis
  proof (cases st)
    case COMPST_GET_ACK
    then show ?thesis using assms(2,3)
      by (auto simp: comp_fine_def resp_pkt_ok_def dma_copies_def sq_list_def split: list.splits)
  next
    case COMPST_GET_WQE
    then show ?thesis using assms(2,3) comp_step_target [OF assms(3)] by (auto simp: comp_fine_def split: prod.splits)
  next
    case COMPST_CHECK_PSN
    then show ?thesis using assms(2,3) comp_step_target [OF assms(3)]
      by (auto simp: comp_fine_def split: option.splits prod.splits dest!: comp_check_psn_sq intro: resp_pkt_ok_sq)
  next
    case COMPST_CHECK_ACK
    then show ?thesis using assms(2,3) comp_step_target [OF assms(3)]
      by (auto simp: comp_fine_def split: option.splits prod.splits)
        (metis check_ack_sq resp_pkt_ok_sq)
  next
    case COMPST_COMP_WQE
    then show ?thesis using assms comp_step_target [OF assms(3)]
      by (auto simp: comp_fine_def comp_wf_def cc_set_def split: option.splits prod.splits)
        (metis complete_wqe_subset [OF inv] resp_pkt_ok_mono)
  qed (use assms(2,3) comp_step_target [OF assms(3)] in \<open>auto simp: comp_fine_def cc_set_def do_read_def do_atomic_def complete_ack_def Let_def comp_exit_def
      split: option.splits prod.splits sum.splits if_splits\<close>)
qed

lemma rnrnak_jiffies_Some: "rnrnak_jiffies (syn AND NOT AETH_TYPE_MASK) \<noteq> None"
proof -
  have "NOT AETH_TYPE_MASK = (mask 5 :: u8)" by (simp add: mask_eq_exp_minus_1)
  then have "syn AND NOT AETH_TYPE_MASK = take_bit 5 syn" by (simp only: take_bit_eq_mask)
  then have "unat (syn AND NOT AETH_TYPE_MASK) < 32" using unat_take_bit [of 5 syn] by simp
  then show ?thesis by (simp add: rnrnak_jiffies_def rnrnak_usec_def)
qed

lemma comp_step_defined:
  assumes "comp_wf st ctx" and "comp_fine st ctx"
  shows "comp_step st ctx \<noteq> None"
proof -
  have s: "comp_sane (cc_qd ctx)" and inv: "queue_inv (qp_sendq (cc_qp ctx))"
    using assms(1) by (simp_all add: comp_wf_def comp_sane_def cc_qd_def)
  have d: "dma_copies (cc_qp ctx) (cc_dev ctx) skb (wqe_dma (get_send_wqe (cc_qp ctx) a))"
    if "cc_skb ctx = Some skb" "head_wqe (cc_qp ctx) a" "st = COMPST_READ \<or> st = COMPST_ATOMIC" for a skb
  proof -
    have "get_send_wqe (cc_qp ctx) a \<in> set (sq_list (cc_qp ctx))"
      using sq_list_head [OF inv that(2)] by (metis list.set_intros(1))
    then show ?thesis using assms(2) that(1,3) by (auto simp: comp_fine_def resp_pkt_ok_def)
  qed
  show ?thesis
  proof (cases st)
    case COMPST_READ
    then obtain a skb where a: "cc_wqe ctx = Some a" "cc_skb ctx = Some skb" "head_wqe (cc_qp ctx) a"
      using assms(1) by (auto simp: comp_wf_def)
    then show ?thesis using d [OF a(2,3)] COMPST_READ
      by (auto simp: do_read_def copy_in_def dma_copies_def Let_def split: option.splits)
  next
    case COMPST_ATOMIC
    then obtain a skb where a: "cc_wqe ctx = Some a" "cc_skb ctx = Some skb" "head_wqe (cc_qp ctx) a"
      using assms(1) by (auto simp: comp_wf_def)
    then show ?thesis using d [OF a(2,3)] COMPST_ATOMIC
      by (auto simp: do_atomic_def copy_in_def dma_copies_def Let_def split: option.splits)
  next
    case COMPST_RNR_RETRY
    then show ?thesis using assms(1) rnrnak_jiffies_Some [of "aeth_syn (skb_pkt (the (cc_skb ctx)))"]
      by (auto simp: comp_wf_def comp_rnr_retry_step_def Let_def split: option.splits sum.splits)
  next
    case COMPST_DONE
    then show ?thesis using assms(2) by (auto simp: comp_fine_def comp_release_def Let_def split: option.splits)
  next
    case COMPST_ERROR
    then obtain a where a: "cc_wqe ctx = Some a" "head_wqe (cc_qp ctx) a" using assms(1) by (auto simp: comp_wf_def)
    obtain qp' dev' where c: "do_complete a (cc_qp ctx, cc_dev ctx) = (qp', dev')" "comp_sane (qp', dev')"
      "qp_valid qp' = qp_valid (cc_qp ctx)"
      by (rule do_complete_next [OF s [unfolded cc_qd_def] a(2)])
    have "qp_valid qp'" using c(3) assms(1) by (simp add: comp_wf_def)
    from rxe_qp_error_completes [OF c(2) this] show ?thesis using a c(1) by (auto simp: COMPST_ERROR)
  qed (use assms(1) in \<open>auto simp: comp_wf_def Let_def split: option.splits prod.splits list.splits sum.splits\<close>)
qed

lemma comp_loop_returns:
  assumes "comp_wf st ctx" and "comp_fine st ctx"
  shows "\<exists>ret ctx' n. comp_loop st ctx = Some (ret, ctx') \<and> completes n (cc_qd ctx) (cc_qd ctx')"
  using assms
proof (induction "comp_measure st ctx" arbitrary: st ctx rule: less_induct)
  case less
  from comp_step_defined [OF less.prems] obtain r where r: "comp_step st ctx = Some r" by blast
  show ?case
  proof (cases r)
    case (Inl re)
    then show ?thesis using r comp_step_exit [OF less.prems(1)]
      by (subst comp_loop.simps) (cases re, auto)
  next
    case (Inr sc)
    obtain st' ctx' where sc: "sc = (st', ctx')" by force
    then have s: "comp_step st ctx = Some (Inr (st', ctx'))" using r Inr by simp
    obtain n where n: "comp_wf st' ctx'" "completes n (cc_qd ctx) (cc_qd ctx')" "comp_measure st' ctx' < comp_measure st ctx"
      using comp_step_next [OF less.prems(1) s] by blast
    from less.hyps [OF n(3) n(1) comp_step_fine [OF less.prems s]] obtain ret ctx2 m where
      c: "comp_loop st' ctx' = Some (ret, ctx2)" "completes m (cc_qd ctx') (cc_qd ctx2)" by blast
    have "comp_loop st ctx = comp_loop st' ctx'" by (subst comp_loop.simps) (simp add: s)
    then show ?thesis using completes_trans [OF n(2) c(2)] c(1) by auto
  qed
qed

lemma drain_sendq_returns:
  "queue_inv (qp_sendq qp) \<Longrightarrow> \<exists>qp'. drain_sendq qp = Some qp' \<and> sq_list qp' = []"
proof (induction "length (sq_list qp)" arbitrary: qp)
  case 0
  then have "drain_sendq qp = Some qp" by (subst drain_sendq.simps) (simp add: no_head [THEN iffD2])
  then show ?case using 0 by simp
next
  case (Suc n)
  then have ne: "queue_head (qp_sendq qp) \<noteq> None" using no_head by fastforce
  let ?qp = "set_sendq (advance_consumer (qp_sendq qp)) qp"
  have q: "qp_sendq ?qp = advance_consumer (qp_sendq qp)" by (simp add: set_sendq_def)
  have "sq_list ?qp = tl (sq_list qp)"
    unfolding sq_list_def q using Suc.prems ne by (intro rq.contents_pop) (auto simp: queue_head_def split: if_splits)
  then have "n = length (sq_list ?qp)" using Suc.hyps(2) by simp
  from Suc.hyps(1) [OF this] Suc.prems have "\<exists>qp'. drain_sendq ?qp = Some qp' \<and> sq_list qp' = []" by (simp add: q)
  moreover have "drain_sendq qp = drain_sendq ?qp" using ne by (subst drain_sendq.simps) auto
  ultimately show ?case by simp
qed

lemma comp_drain_returns:
  assumes "comp_sane (qp, dev)"
  shows "\<exists>qp' dev'. comp_drain (qp, dev) = Some (qp', dev') \<and> sq_list qp' = []"
proof -
  obtain qp1 dev1 where d: "drain_resp_pkts (qp, dev) = (qp1, dev1)" by force
  then have "queue_inv (qp_sendq qp1)"
    using assms drain_resp_pkts_frame(1) [of "(qp, dev)"] by (simp add: comp_sane_def)
  then show ?thesis using drain_sendq_returns [of qp1] by (auto simp: comp_drain_def d)
qed

subsection \<open>The completer\<close>

text \<open>A queue pair whose requests are reported: valid and not reset.\<close>

definition comp_active :: "rxe_qp \<Rightarrow> bool" where
  "comp_active qp \<longleftrightarrow> qp_valid qp \<and> req_state (qp_req qp) \<noteq> QP_STATE_RESET"

lemma rxe_completer_completes:
  assumes s: "comp_sane (qp, dev)" and p: "\<forall>skb \<in> set (qp_resp_pkts qp). resp_pkt_ok qp dev skb"
  shows "\<exists>ret qp' dev' n. rxe_completer (qp, dev) = Some (ret, qp', dev')
    \<and> (comp_active qp \<longrightarrow> completes n (qp, dev) (qp', dev'))"
proof (cases "comp_active qp \<and> req_state (qp_req qp) \<noteq> QP_STATE_ERROR")
  case True
  let ?qp = "qp\<lparr>qp_comp := (qp_comp qp)\<lparr>comp_timeout_retry := comp_timeout (qp_comp qp), comp_timeout := False\<rparr>\<rparr>"
  let ?ctx = "\<lparr>cc_qp = ?qp, cc_dev = dev, cc_wqe = None, cc_skb = None\<rparr>"
  have k: "completes 0 (qp, dev) (?qp, dev)" by (rule completes_keeps [OF keeps_sq s]) simp_all
  have wf: "comp_wf COMPST_GET_ACK ?ctx"
    using completesD(3) [OF k] True by (simp add: comp_wf_def cc_qd_def comp_active_def)
  have fine: "comp_fine COMPST_GET_ACK ?ctx"
    using p by (auto simp: comp_fine_def intro: resp_pkt_ok_sq)
  obtain ret ctx n where c: "comp_loop COMPST_GET_ACK ?ctx = Some (ret, ctx)" "completes n (?qp, dev) (cc_qd ctx)"
    using comp_loop_returns [OF wf fine] by (auto simp: cc_qd_def)
  show ?thesis
  proof (cases "req_need_retry (qp_req qp)")
    case need: True
    then have "rxe_completer (qp, dev) = Some (minus_EAGAIN, ?qp, dev)"
      using True by (simp add: rxe_completer_def comp_active_def Let_def)
    then show ?thesis using k by blast
  next
    case False
    then have "rxe_completer (qp, dev) = Some (ret, cc_qp ctx, cc_dev ctx)"
      using True c(1) by (simp add: rxe_completer_def comp_active_def Let_def)
    then show ?thesis using completes_trans [OF k c(2)] by (auto simp: cc_qd_def)
  qed
next
  case False
  then show ?thesis using comp_flush_completes [OF s] comp_drain_returns [OF s]
    by (auto simp: rxe_completer_def comp_active_def Let_def)
qed

subsection \<open>Acknowledgements\<close>

text \<open>What no step of the completer changes.\<close>

definition qp_cfg :: "rxe_qp \<Rightarrow> bool \<times> nat \<times> u32 \<times> nat \<times> ib_sig_type" where
  "qp_cfg qp = (qp_is_user qp, qp_self qp, qp_num qp, qp_scq qp, qp_sq_sig_type qp)"

lemma make_send_cqe_cfg: "qp_cfg qp' = qp_cfg qp \<Longrightarrow> make_send_cqe qp' w = make_send_cqe qp w \<and> wqe_signaled qp' w = wqe_signaled qp w"
  by (simp add: qp_cfg_def make_send_cqe_def wqe_signaled_def)

definition signaled_cqes :: "rxe_qp \<Rightarrow> rxe_send_wqe list \<Rightarrow> rxe_cqe list" where
  "signaled_cqes qp ws = map (make_send_cqe qp) (filter (wqe_signaled qp) ws)"

lemma signaled_cqes_simps [simp]:
  "signaled_cqes qp [] = []"
  "signaled_cqes qp (w # ws) = (if wqe_signaled qp w then [make_send_cqe qp w] else []) @ signaled_cqes qp ws"
  by (simp_all add: signaled_cqes_def)

lemma signaled_cqes_cfg:
  assumes "qp_cfg qp' = qp_cfg qp"
  shows "signaled_cqes qp' ws = signaled_cqes qp ws"
proof -
  have "make_send_cqe qp' = make_send_cqe qp" "wqe_signaled qp' = wqe_signaled qp"
    using make_send_cqe_cfg [OF assms] by (simp_all add: fun_eq_iff)
  then show ?thesis by (simp add: signaled_cqes_def)
qed

text \<open>The completer state between two requests, as far as an acknowledgement depends on it: the
  requests left, the completions so far, the expected sequence number, and what stays fixed.\<close>

definition comp_base :: "rxe_qp \<times> rxe_dev \<Rightarrow> rxe_send_wqe list \<Rightarrow> rxe_cqe list \<Rightarrow> rxe_qp \<times> rxe_dev \<Rightarrow> bool" where
  "comp_base qd0 ws cqes qd \<longleftrightarrow> comp_sane qd \<and> sq_list (fst qd) = ws \<and> cq_list (snd qd) (qp_scq (fst qd0)) = cqes
     \<and> qp_cfg (fst qd) = qp_cfg (fst qd0) \<and> cq_cap (snd qd) = cq_cap (snd qd0) \<and> dev_kfree (snd qd) = dev_kfree (snd qd0)"

definition comp_at :: "rxe_qp \<times> rxe_dev \<Rightarrow> rxe_send_wqe list \<Rightarrow> rxe_cqe list \<Rightarrow> u32 \<Rightarrow> rxe_qp \<times> rxe_dev \<Rightarrow> bool" where
  "comp_at qd0 ws cqes psn qd \<longleftrightarrow> comp_base qd0 ws cqes qd
     \<and> comp_psn (qp_comp (fst qd)) = psn \<and> comp_opcode (qp_comp (fst qd)) = -1"

lemma do_complete_base:
  assumes "comp_base qd0 (w # ws) cqes (qp, dev)" and "head_wqe qp a"
    and "length (cqes @ signaled_cqes (fst qd0) [w]) \<le> cq_cap (snd qd0) (qp_scq (fst qd0))"
  shows "comp_base qd0 ws (cqes @ signaled_cqes (fst qd0) [w]) (do_complete a (qp, dev))
    \<and> qp_comp (fst (do_complete a (qp, dev))) = qp_comp qp"
proof -
  have s: "comp_sane (qp, dev)" and cfg: "qp_cfg qp = qp_cfg (fst qd0)" and cap: "cq_cap dev = cq_cap (snd qd0)"
    using assms(1) by (simp_all add: comp_base_def)
  have inv: "queue_inv (qp_sendq qp)" "cqs_inv dev" using s by (simp_all add: comp_sane_def)
  have w: "get_send_wqe qp a = w" using sq_list_head [OF inv(1) assms(2)] assms(1) by (simp add: comp_base_def)
  let ?qp = "fst (do_complete a (qp, dev))" and ?dev = "snd (do_complete a (qp, dev))"
  have q: "qp_sendq ?qp = advance_consumer (qp_sendq qp)" "qp_cfg ?qp = qp_cfg qp" "qp_comp ?qp = qp_comp qp"
    by (simp_all add: do_complete_def Let_def set_sendq_def run_req_task_def qp_cfg_def)
  have d: "?dev = (if wqe_signaled qp w then snd (rxe_cq_post (qp_scq qp) (make_send_cqe qp w) False dev) else dev)"
    by (simp add: do_complete_def Let_def w)
  have "sq_list ?qp = tl (sq_list qp)"
    unfolding sq_list_def q using inv(1) head_wqeD [OF assms(2)] by (intro rq.contents_pop) simp_all
  moreover have scq: "qp_scq qp = qp_scq (fst qd0)" using cfg by (simp add: qp_cfg_def)
  moreover have "cq_list ?dev (qp_scq qp) = cq_list dev (qp_scq qp) @ signaled_cqes qp [w] \<and> cq_cap ?dev = cq_cap dev
    \<and> cqs_inv ?dev \<and> dev_kfree ?dev = dev_kfree dev"
  proof (cases "wqe_signaled qp w")
    case True
    then have "length (cq_list dev (qp_scq qp) @ [make_send_cqe qp w]) \<le> cq_cap dev (qp_scq qp)"
      using assms(3,1) make_send_cqe_cfg [OF cfg, of w] scq cap by (simp add: comp_base_def)
    then show ?thesis using True rxe_cq_post_list [OF inv(2), of "qp_scq qp" "make_send_cqe qp w" False]
      unfolding d by (simp add: fun_eq_iff)
  qed (use inv(2) in \<open>simp add: d\<close>)
  ultimately have "comp_base qd0 ws (cqes @ signaled_cqes (fst qd0) [w]) (?qp, ?dev)"
    using assms(1) q inv signaled_cqes_cfg [OF cfg, of "[w]"]
    by (simp add: comp_base_def comp_sane_def del: signaled_cqes_simps)
  then show ?thesis using q(3) by simp
qed

lemma do_complete_at:
  "comp_at qd0 (w # ws) cqes psn (qp, dev) \<Longrightarrow> head_wqe qp a
    \<Longrightarrow> length (cqes @ signaled_cqes (fst qd0) [w]) \<le> cq_cap (snd qd0) (qp_scq (fst qd0))
    \<Longrightarrow> comp_at qd0 ws (cqes @ signaled_cqes (fst qd0) [w]) psn (do_complete a (qp, dev))"
  using do_complete_base [of qd0 w ws cqes qp dev a] unfolding comp_at_def by simp

lemma comp_at_cong:
  assumes "comp_at qd0 ws cqes psn (qp, dev)" and "qp_sq qp' = qp_sq qp" and "qp_cfg qp' = qp_cfg qp"
    and "comp_psn (qp_comp qp') = psn'" and "comp_opcode (qp_comp qp') = -1"
    and "dev_cq dev' = dev_cq dev" and "dev_kfree dev' = dev_kfree dev"
  shows "comp_at qd0 ws cqes psn' (qp', dev')"
  using assms cq_cong [OF assms(6)] by (simp add: comp_at_def comp_base_def comp_sane_def sq_list_def)

text \<open>The sequence number after a packet has been accepted.\<close>

definition next_comp_psn :: "u32 \<Rightarrow> u32 \<Rightarrow> u32" where
  "next_comp_psn p psn = (if 0 \<le> psn_compare p psn then (p + 1) AND BTH_PSN_MASK else psn)"

lemma comp_update_at:
  "comp_at qd0 ws cqes psn (qp, dev) \<Longrightarrow> pkt_mask pkt AND RXE_END_MASK \<noteq> 0
    \<Longrightarrow> comp_at qd0 ws cqes (next_comp_psn (pkt_psn pkt) psn) (comp_update pkt qp, dev)"
proof -
  assume at: "comp_at qd0 ws cqes psn (qp, dev)" and m: "pkt_mask pkt AND RXE_END_MASK \<noteq> 0"
  then have "comp_psn (qp_comp qp) = psn" by (simp add: comp_at_def comp_base_def)
  then show ?thesis using m
    by (intro comp_at_cong [OF at]) (simp_all add: comp_op_defs next_comp_psn_def qp_cfg_def)
qed

lemma comp_loop_next: "comp_step st ctx = Some (Inr (st', ctx')) \<Longrightarrow> comp_loop st ctx = comp_loop st' ctx'"
  by (subst comp_loop.simps) simp

lemma comp_loop_exit: "comp_step st ctx = Some (Inl r) \<Longrightarrow> comp_loop st ctx = Some r"
  by (subst comp_loop.simps) simp

text \<open>A request the acknowledged sequence number lies beyond.\<close>

definition acked_before :: "u32 \<Rightarrow> rxe_send_wqe \<Rightarrow> bool" where
  "acked_before p w \<longleftrightarrow> wqe_state w = wqe_state_pending \<and> wqe_mask w AND WR_ATOMIC_OR_READ_MASK = 0
     \<and> 0 < psn_compare p (wqe_last_psn w)"

lemma comp_at_head:
  assumes "comp_at qd0 (w # ws) cqes psn (qp, dev)"
  obtains a where "queue_head (qp_sendq qp) = Some a" "head_wqe qp a" "get_send_wqe qp a = w"
proof -
  have inv: "queue_inv (qp_sendq qp)" and l: "sq_list qp = w # ws" using assms by (simp_all add: comp_at_def comp_base_def comp_sane_def)
  then obtain a where a: "queue_head (qp_sendq qp) = Some a" using no_head [OF inv] by fastforce
  then have h: "head_wqe qp a" by (simp add: head_wqe_def)
  then show ?thesis using that a sq_list_head [OF inv h] l by simp
qed

lemma ack_beyond:
  assumes at: "comp_at qd0 (w # ws) cqes psn (cc_qd ctx)" and skb: "cc_skb ctx = Some skb" and w: "acked_before (pkt_psn (skb_pkt skb)) w"
    and room: "length (cqes @ signaled_cqes (fst qd0) [w]) \<le> cq_cap (snd qd0) (qp_scq (fst qd0))"
  shows "\<exists>ctx'. comp_loop COMPST_GET_WQE ctx = comp_loop COMPST_GET_WQE ctx' \<and> cc_skb ctx' = Some skb
    \<and> comp_at qd0 ws (cqes @ signaled_cqes (fst qd0) [w]) (next_comp_psn (pkt_psn (skb_pkt skb)) psn) (cc_qd ctx')"
proof -
  let ?qp = "cc_qp ctx" and ?dev = "cc_dev ctx" and ?pkt = "skb_pkt skb"
  obtain a where a: "queue_head (qp_sendq ?qp) = Some a" "head_wqe ?qp a" "get_send_wqe ?qp a = w"
    by (rule comp_at_head [OF at [unfolded cc_qd_def]])
  let ?q1 = "reset_retry_counters ?qp"
  let ?q2 = "wake_wait_psn (advance_comp_psn ?pkt (?q1\<lparr>qp_comp := (qp_comp ?q1)\<lparr>comp_opcode := -1\<rparr>\<rparr>))"
  have "get_wqe ?qp True = (COMPST_CHECK_PSN, Some a)" using a w by (simp add: get_wqe_def Let_def acked_before_def)
  moreover have "comp_check_psn ?qp ?pkt a = (COMPST_COMP_WQE, ?q1)" using a w by (simp add: comp_check_psn_def Let_def acked_before_def)
  moreover have "complete_wqe (Some ?pkt) a (?q1, ?dev) = (COMPST_GET_WQE, do_complete a (?q2, ?dev))"
    by (simp add: complete_wqe_def Let_def)
  ultimately have l: "comp_loop COMPST_GET_WQE ctx
      = comp_loop COMPST_GET_WQE (cc_set (do_complete a (?q2, ?dev)) (ctx\<lparr>cc_wqe := Some a, cc_qp := ?q1\<rparr>))"
    using skb by (simp add: comp_loop_next)
  have "comp_psn (qp_comp ?qp) = psn" using at by (simp add: comp_at_def comp_base_def cc_qd_def)
  then have "comp_at qd0 (w # ws) cqes (next_comp_psn (pkt_psn ?pkt) psn) (?q2, ?dev)"
    by (intro comp_at_cong [OF at [unfolded cc_qd_def]]) (simp_all add: comp_op_defs next_comp_psn_def qp_cfg_def)
  moreover have "head_wqe ?q2 a" using a(2) by (simp add: head_wqe_def)
  ultimately have "comp_at qd0 ws (cqes @ signaled_cqes (fst qd0) [w]) (next_comp_psn (pkt_psn ?pkt) psn) (do_complete a (?q2, ?dev))"
    using room by (rule do_complete_at)
  then show ?thesis using l skb by (auto simp: cc_set_def cc_qd_def)
qed

text \<open>A positive acknowledgement packet of a reliable connection, and a request that ends with the
  sequence number it acknowledges.\<close>

definition ack_packet :: "sk_buff \<Rightarrow> bool" where
  "ack_packet skb \<longleftrightarrow> (let pkt = skb_pkt skb in pkt_opcode pkt = IB_OPCODE_RC_ACKNOWLEDGE
     \<and> pkt_mask pkt AND RXE_START_MASK \<noteq> 0 \<and> pkt_mask pkt AND RXE_END_MASK \<noteq> 0
     \<and> aeth_syn pkt AND AETH_TYPE_MASK = AETH_ACK \<and> skb_qp skb \<noteq> None)"

definition acked_last :: "u32 \<Rightarrow> rxe_send_wqe \<Rightarrow> bool" where
  "acked_last p w \<longleftrightarrow> wqe_state w = wqe_state_pending \<and> wqe_mask w AND WR_ATOMIC_OR_READ_MASK = 0
     \<and> wqe_has_rd_atomic w = 0 \<and> wqe_last_psn w = p"

text \<open>After the packet has been released.\<close>

definition comp_done :: "rxe_qp \<times> rxe_dev \<Rightarrow> rxe_send_wqe list \<Rightarrow> rxe_cqe list \<Rightarrow> u32 \<Rightarrow> sk_buff \<Rightarrow> rxe_qp \<times> rxe_dev \<Rightarrow> bool" where
  "comp_done qd0 ws cqes psn skb qd \<longleftrightarrow> sq_list (fst qd) = ws \<and> cq_list (snd qd) (qp_scq (fst qd0)) = cqes
     \<and> comp_psn (qp_comp (fst qd)) = psn \<and> comp_opcode (qp_comp (fst qd)) = -1
     \<and> dev_kfree (snd qd) = dev_kfree (snd qd0) @ [skb]"

lemma comp_loop_done:
  assumes at: "comp_at qd0 ws cqes psn (cc_qd ctx)" and skb: "cc_skb ctx = Some skb" "skb_qp skb \<noteq> None"
  shows "\<exists>ctx'. comp_loop COMPST_DONE ctx = Some (0, ctx') \<and> comp_done qd0 ws cqes psn skb (cc_qd ctx')"
proof -
  obtain dev where d: "comp_release (Some skb) (cc_dev ctx) = Some dev" "dev_kfree dev = dev_kfree (cc_dev ctx) @ [skb]"
    using skb(2) by (auto simp: comp_release_def kfree_skb_def drop_qp_def Let_def split: prod.splits)
  then have "comp_done qd0 ws cqes psn skb (cc_qp ctx, dev)"
    using at cq_cong [OF comp_release_cq [OF d(1)]] by (simp add: comp_done_def comp_at_def comp_base_def cc_qd_def)
  then show ?thesis using d(1) skb(1) by (simp add: comp_loop_exit cc_qd_def)
qed

lemma ack_at_last:
  assumes at: "comp_at qd0 (w # ws) cqes psn (cc_qd ctx)" and skb: "cc_skb ctx = Some skb" and ack: "ack_packet skb"
    and w: "acked_last (pkt_psn (skb_pkt skb)) w"
    and room: "length (cqes @ signaled_cqes (fst qd0) [w]) \<le> cq_cap (snd qd0) (qp_scq (fst qd0))"
  shows "\<exists>ctx'. comp_loop COMPST_GET_WQE ctx = Some (0, ctx')
    \<and> comp_done qd0 ws (cqes @ signaled_cqes (fst qd0) [w]) (next_comp_psn (pkt_psn (skb_pkt skb)) psn) skb (cc_qd ctx')"
proof -
  let ?qp = "cc_qp ctx" and ?dev = "cc_dev ctx" and ?pkt = "skb_pkt skb"
  have psn: "comp_psn (qp_comp ?qp) = psn" "comp_opcode (qp_comp ?qp) = -1" using at by (simp_all add: comp_at_def comp_base_def cc_qd_def)
  obtain a where a: "queue_head (qp_sendq ?qp) = Some a" "head_wqe ?qp a" "get_send_wqe ?qp a = w"
    by (rule comp_at_head [OF at [unfolded cc_qd_def]])
  have g: "get_wqe ?qp True = (COMPST_CHECK_PSN, Some a)" using a w by (simp add: get_wqe_def Let_def acked_last_def)
  obtain qp1 where l: "comp_loop COMPST_GET_WQE ctx = comp_loop COMPST_COMP_ACK (ctx\<lparr>cc_wqe := Some a, cc_qp := qp1\<rparr>)"
    and q: "qp1 = ?qp \<or> qp1 = reset_retry_counters ?qp"
  proof (cases "psn_compare (pkt_psn ?pkt) psn < 0")
    case True
    then have "comp_check_psn ?qp ?pkt a = (COMPST_COMP_ACK, ?qp)"
      using a w psn by (simp add: comp_check_psn_def Let_def acked_last_def)
    then show ?thesis using that [of ?qp] g skb by (simp add: comp_loop_next)
  next
    case False
    then have "comp_check_psn ?qp ?pkt a = (COMPST_CHECK_ACK, ?qp)"
      using a w psn by (simp add: comp_check_psn_def Let_def acked_last_def)
    moreover have "check_ack ?qp ?pkt a = (COMPST_WRITE_SEND, reset_retry_counters ?qp)"
      using ack psn by (simp add: check_ack_def ack_out_of_seq_def ack_packet_def Let_def)
    moreover have "get_send_wqe (reset_retry_counters ?qp) a = w" using a(3) by (simp add: get_send_wqe_def)
    ultimately show ?thesis using that [of "reset_retry_counters ?qp"] g skb w
      by (simp add: comp_loop_next Let_def acked_last_def)
  qed
  have q1: "qp_sq qp1 = qp_sq ?qp" "qp_cfg qp1 = qp_cfg ?qp" "comp_psn (qp_comp qp1) = psn" "comp_opcode (qp_comp qp1) = -1"
    using q psn by (auto simp: reset_retry_counters_def qp_cfg_def)
  obtain qp2 dev2 where f: "finish_drain (qp1, ?dev) = (qp2, dev2)" by force
  then have f2: "qp_sq qp2 = qp_sq qp1" "qp_cfg qp2 = qp_cfg qp1" "qp_comp qp2 = qp_comp qp1" "dev_cq dev2 = dev_cq ?dev" "dev_kfree dev2 = dev_kfree ?dev"
    by (auto simp: finish_drain_def send_event_def qp_cfg_def split: if_splits)
  have "comp_at qd0 (w # ws) cqes psn (qp2, dev2)"
    by (rule comp_at_cong [OF at [unfolded cc_qd_def]]) (simp_all add: f2 q1)
  moreover have "head_wqe qp2 a" using a(2) by (simp add: head_wqe_def f2 q1)
  ultimately have c: "comp_at qd0 ws (cqes @ signaled_cqes (fst qd0) [w]) psn (do_complete a (qp2, dev2))"
    using room by (rule do_complete_at)
  obtain qp3 dev3 where d: "do_complete a (qp2, dev2) = (qp3, dev3)" by force
  have r: "return_rd_atomic a qp1 = qp1" using w a(3) q1(1) by (simp add: return_rd_atomic_def get_send_wqe_def acked_last_def)
  have psn3: "comp_psn (qp_comp qp3) = psn" using c by (simp add: d comp_at_def comp_base_def)
  let ?st = "if 0 \<le> psn_compare (pkt_psn ?pkt) psn then COMPST_UPDATE_COMP else COMPST_DONE"
  have "complete_ack ?pkt a (qp1, ?dev) = (?st, qp3, dev3)" by (simp add: complete_ack_def r f d psn3)
  then have l2: "comp_loop COMPST_GET_WQE ctx = comp_loop ?st (ctx\<lparr>cc_wqe := Some a, cc_qp := qp3, cc_dev := dev3\<rparr>)"
    using l skb by (simp add: comp_loop_next cc_set_def)
  have sk: "skb_qp skb \<noteq> None" and m: "pkt_mask ?pkt AND RXE_END_MASK \<noteq> 0" using ack by (simp_all add: ack_packet_def Let_def)
  show ?thesis
  proof (cases "0 \<le> psn_compare (pkt_psn ?pkt) psn")
    case True
    let ?c = "ctx\<lparr>cc_wqe := Some a, cc_dev := dev3, cc_qp := comp_update ?pkt qp3\<rparr>"
    have "comp_loop COMPST_GET_WQE ctx = comp_loop COMPST_DONE ?c" using l2 True skb by (simp add: comp_loop_next)
    moreover have "comp_at qd0 ws (cqes @ signaled_cqes (fst qd0) [w]) (next_comp_psn (pkt_psn ?pkt) psn) (cc_qd ?c)"
      using comp_update_at [OF c [unfolded d] m] by (simp add: cc_qd_def)
    ultimately show ?thesis using comp_loop_done [of qd0 ws _ _ ?c skb] skb sk by (simp del: signaled_cqes_simps)
  next
    case False
    let ?c = "ctx\<lparr>cc_wqe := Some a, cc_qp := qp3, cc_dev := dev3\<rparr>"
    have "comp_loop COMPST_GET_WQE ctx = comp_loop COMPST_DONE ?c" using l2 False by simp
    moreover have "comp_at qd0 ws (cqes @ signaled_cqes (fst qd0) [w]) (next_comp_psn (pkt_psn ?pkt) psn) (cc_qd ?c)"
      using c False by (simp add: cc_qd_def next_comp_psn_def d)
    ultimately show ?thesis using comp_loop_done [of qd0 ws _ _ ?c skb] skb sk by (simp del: signaled_cqes_simps)
  qed
qed

lemma signaled_cqes_append: "signaled_cqes qp (ws @ vs) = signaled_cqes qp ws @ signaled_cqes qp vs"
  by (simp add: signaled_cqes_def)

lemma next_comp_psn_idem: "next_comp_psn p (next_comp_psn p psn) = next_comp_psn p psn"
  using psn_ahead_back [of 1 p] psn_compare_neg [of p "(p + 1) AND BTH_PSN_MASK"] by (auto simp: next_comp_psn_def)

lemma ack_loop:
  assumes "comp_at qd0 (ws @ w # rest) cqes psn (cc_qd ctx)" and "cc_skb ctx = Some skb" and "ack_packet skb"
    and "\<forall>v \<in> set ws. acked_before (pkt_psn (skb_pkt skb)) v" and "acked_last (pkt_psn (skb_pkt skb)) w"
    and "length (cqes @ signaled_cqes (fst qd0) (ws @ [w])) \<le> cq_cap (snd qd0) (qp_scq (fst qd0))"
  shows "\<exists>ctx'. comp_loop COMPST_GET_WQE ctx = Some (0, ctx')
    \<and> comp_done qd0 rest (cqes @ signaled_cqes (fst qd0) (ws @ [w])) (next_comp_psn (pkt_psn (skb_pkt skb)) psn) skb (cc_qd ctx')"
  using assms
proof (induction ws arbitrary: cqes psn ctx)
  case Nil
  then show ?case using ack_at_last [of qd0 w rest cqes psn ctx skb] by simp
next
  case (Cons v ws)
  have e: "signaled_cqes (fst qd0) ((v # ws) @ [w]) = signaled_cqes (fst qd0) [v] @ signaled_cqes (fst qd0) (ws @ [w])"
    by simp
  have "length (cqes @ signaled_cqes (fst qd0) [v]) \<le> cq_cap (snd qd0) (qp_scq (fst qd0))"
    using Cons.prems(6) unfolding e by (simp del: signaled_cqes_simps)
  moreover have "comp_at qd0 (v # ws @ w # rest) cqes psn (cc_qd ctx)" using Cons.prems(1) by simp
  moreover have "acked_before (pkt_psn (skb_pkt skb)) v" using Cons.prems(4) by simp
  ultimately obtain ctx1 where c: "comp_loop COMPST_GET_WQE ctx = comp_loop COMPST_GET_WQE ctx1" "cc_skb ctx1 = Some skb"
    "comp_at qd0 (ws @ w # rest) (cqes @ signaled_cqes (fst qd0) [v]) (next_comp_psn (pkt_psn (skb_pkt skb)) psn) (cc_qd ctx1)"
    using ack_beyond [of qd0 v _ cqes psn ctx skb] Cons.prems(2) by blast
  have "length ((cqes @ signaled_cqes (fst qd0) [v]) @ signaled_cqes (fst qd0) (ws @ [w])) \<le> cq_cap (snd qd0) (qp_scq (fst qd0))"
    using Cons.prems(6) unfolding e by (simp del: signaled_cqes_simps)
  moreover have "\<forall>v \<in> set ws. acked_before (pkt_psn (skb_pkt skb)) v" using Cons.prems(4) by simp
  ultimately show ?case using Cons.IH [OF c(3,2) Cons.prems(3) _ Cons.prems(5)] c(1) unfolding e
    by (simp add: next_comp_psn_idem del: signaled_cqes_simps)
qed


subsection \<open>Flushing with the error status\<close>

definition flushed :: "rxe_send_wqe \<Rightarrow> rxe_send_wqe" where
  "flushed w = w\<lparr>wqe_status := IB_WC_WR_FLUSH_ERR\<rparr>"

lemma flush_sendq_base:
  assumes "comp_base qd0 ws cqes (qp, dev)"
    and "length (cqes @ signaled_cqes (fst qd0) (map flushed ws)) \<le> cq_cap (snd qd0) (qp_scq (fst qd0))"
  shows "\<exists>qp' dev'. flush_sendq (qp, dev) = Some (qp', dev') \<and> qp_resp_pkts qp' = qp_resp_pkts qp
    \<and> comp_base qd0 [] (cqes @ signaled_cqes (fst qd0) (map flushed ws)) (qp', dev')"
  using assms
proof (induction ws arbitrary: cqes qp dev)
  case Nil
  then have "queue_head (qp_sendq qp) = None" by (simp add: no_head comp_base_def comp_sane_def)
  then have "flush_sendq (qp, dev) = Some (qp, dev)" by (subst flush_sendq.simps) simp
  then show ?case using Nil by simp
next
  case (Cons w ws)
  have inv: "queue_inv (qp_sendq qp)" and l: "sq_list qp = w # ws"
    using Cons.prems(1) by (simp_all add: comp_base_def comp_sane_def)
  then obtain a where a: "queue_head (qp_sendq qp) = Some a" using no_head [OF inv] by fastforce
  then have h: "head_wqe qp a" by (simp add: head_wqe_def)
  have w: "get_send_wqe qp a = w" using sq_list_head [OF inv h] l by simp
  let ?qp = "set_wqe_status a IB_WC_WR_FLUSH_ERR qp"
  have sl: "sq_list ?qp = flushed w # ws" using sq_list_put [OF inv h] l by (simp add: set_wqe_status_def flushed_def w)
  have b: "comp_base qd0 (flushed w # ws) cqes (?qp, dev)"
    using Cons.prems(1) sl
    by (simp add: comp_base_def comp_sane_def qp_cfg_def set_wqe_status_def put_send_wqe_def set_sendq_def)
  have "length (cqes @ signaled_cqes (fst qd0) [flushed w]) \<le> cq_cap (snd qd0) (qp_scq (fst qd0))"
    using Cons.prems(2) by simp
  from do_complete_base [OF b _ this, of a] h obtain qp1 dev1 where d: "do_complete a (?qp, dev) = (qp1, dev1)"
    "comp_base qd0 ws (cqes @ signaled_cqes (fst qd0) [flushed w]) (qp1, dev1)"
    by (cases "do_complete a (?qp, dev)") simp
  have "qp_resp_pkts (fst (do_complete a (?qp, dev))) = qp_resp_pkts qp"
    by (simp add: do_complete_def Let_def set_sendq_def run_req_task_def set_wqe_status_def put_send_wqe_def)
  moreover have "flush_sendq (qp, dev) = flush_sendq (qp1, dev1)" by (subst flush_sendq.simps) (simp add: a d)
  ultimately show ?case using Cons.IH [OF d(2)] Cons.prems(2) d(1) by simp
qed

lemma drain_fold_kfree:
  "dev_kfree (fold (\<lambda>skb dev. let dev = kfree_skb skb (drop_qp h dev)
     in dev\<lparr>dev_resp_skb_in := dev_resp_skb_in dev - 1\<rparr>) pkts dev) = dev_kfree dev @ pkts"
  by (induction pkts arbitrary: dev) (simp_all add: kfree_skb_def drop_qp_def Let_def split: prod.splits)

lemma comp_flush_all:
  assumes "comp_sane (qp, dev)"
    and "length (cq_list dev (qp_scq qp) @ signaled_cqes qp (map flushed (sq_list qp))) \<le> cq_cap dev (qp_scq qp)"
  shows "\<exists>qp' dev'. comp_flush (qp, dev) = Some (qp', dev') \<and> sq_list qp' = [] \<and> qp_resp_pkts qp' = []
    \<and> cq_list dev' (qp_scq qp) = cq_list dev (qp_scq qp) @ signaled_cqes qp (map flushed (sq_list qp))
    \<and> dev_kfree dev' = dev_kfree dev @ qp_resp_pkts qp"
proof -
  obtain qp1 dev1 where d: "drain_resp_pkts (qp, dev) = (qp1, dev1)" by force
  have f: "qp_sq qp1 = qp_sq qp" "dev_cq dev1 = dev_cq dev" using drain_resp_pkts_frame [of "(qp, dev)"] by (simp_all add: d)
  have g: "qp_cfg qp1 = qp_cfg qp" "qp_resp_pkts qp1 = []" "dev_kfree dev1 = dev_kfree dev @ qp_resp_pkts qp"
    using d drain_fold_kfree [of "qp_self qp" "qp_resp_pkts qp" dev] by (auto simp: drain_resp_pkts_def qp_cfg_def)
  have "comp_base (qp1, dev1) (sq_list qp) (cq_list dev (qp_scq qp)) (qp1, dev1)"
    using assms(1) g(1) cq_cong [OF f(2)] by (simp add: comp_base_def comp_sane_def f sq_list_def qp_cfg_def)
  moreover have "length (cq_list dev (qp_scq qp) @ signaled_cqes qp1 (map flushed (sq_list qp))) \<le> cq_cap dev1 (qp_scq qp1)"
    using assms(2) g(1) cq_cong [OF f(2)] by (simp add: signaled_cqes_cfg [OF g(1)] qp_cfg_def)
  ultimately show ?thesis
    using flush_sendq_base [of "(qp1, dev1)" "sq_list qp" "cq_list dev (qp_scq qp)" qp1 dev1] g
    by (auto simp: comp_flush_def d comp_base_def signaled_cqes_cfg [OF g(1)] qp_cfg_def)
qed

subsection \<open>Properties\<close>

text \<open>
  C2: the completer returns from every run on a live queue pair whose response packets are
  intact, and reports in order. Whatever the packets say (acknowledgements, negative ones,
  responses, retries, errors), some number of requests leaves the head of the send queue; the
  signaled ones among them, and nothing else, are appended to the send completion queue in
  posting order as far as it has room, no other completion queue changes, and the requests that
  stay are the ones posted.
\<close>

theorem rxe_completer_in_order:
  assumes "comp_sane (qp, dev)" and "\<forall>skb \<in> set (qp_resp_pkts qp). resp_pkt_ok qp dev skb" and "comp_active qp"
  shows "\<exists>ret qp' dev' n. rxe_completer (qp, dev) = Some (ret, qp', dev') \<and> n \<le> length (sq_list qp)
    \<and> map wqe_ibwr (sq_list qp') = map wqe_ibwr (drop n (sq_list qp))
    \<and> (\<forall>c. map cqe_key (cq_list dev' c) = (if c = qp_scq qp
         then take (cq_cap dev c) (map cqe_key (cq_list dev c)
           @ map wr_key (filter (wr_signaled (qp_sq_sig_type qp)) (map wqe_ibwr (take n (sq_list qp)))))
         else map cqe_key (cq_list dev c)))"
proof -
  obtain ret qp' dev' n where r: "rxe_completer (qp, dev) = Some (ret, qp', dev')" "completes n (qp, dev) (qp', dev')"
    using rxe_completer_completes [OF assms(1,2)] assms(3) by blast
  have "\<forall>c. map cqe_key (cq_list dev' c) = (if c = qp_scq qp
         then take (cq_cap dev c) (map cqe_key (cq_list dev c)
           @ map wr_key (filter (wr_signaled (qp_sq_sig_type qp)) (map wqe_ibwr (take n (sq_list qp)))))
         else map cqe_key (cq_list dev c))"
    using r(2) by (simp add: completes_def sq_view_def take_map)
  then show ?thesis using r(1) completesD(1,2) [OF r(2)] by (auto simp: drop_map)
qed

lemma sample_cqs: "cqs_inv sample_dev" "cq_list sample_dev c = []" "cq_cap sample_dev c = 7"
  by (simp_all add: cqs_inv_def cq_list_def cq_cap_def sample_dev_def sample_ring_facts)

lemma sample_qp_sane:
  "length ws \<le> 7 \<Longrightarrow> comp_sane (sample_qp ws pkts, sample_dev)" "length ws \<le> 7 \<Longrightarrow> sq_list (sample_qp ws pkts) = ws"
  by (simp_all add: comp_sane_def sample_cqs sq_list_def sample_qp_def sample_ring_facts)

lemma sample_ack_pkt: "ack_packet (sample_ack psn)"
  unfolding sample_ack_def by (simp add: ack_packet_def) code_simp

lemma sample_ack_ok: "resp_pkt_ok (sample_qp [sample_wqe 1 0] [sample_ack 0]) sample_dev (sample_ack 0)"
proof -
  have "payload_size (skb_pkt (sample_ack 0)) = 0" by (simp add: sample_ack_def payload_size_def) code_simp
  moreover have "skb_qp (sample_ack 0) \<noteq> None" by (simp add: sample_ack_def)
  ultimately show ?thesis by (simp add: resp_pkt_ok_def dma_copies_def sample_qp_sane sample_wqe_def copy_data_def Let_def)
qed

theorem rxe_completer_in_order_witness:
  "\<exists>ret qp' dev'. rxe_completer (sample_qp [sample_wqe 1 0] [sample_ack 0], sample_dev) = Some (ret, qp', dev')
     \<and> length (sq_list qp') \<le> 1 \<and> cq_list dev' 4 = []"
proof -
  have "comp_active (sample_qp [sample_wqe 1 0] [sample_ack 0])" "qp_scq (sample_qp [sample_wqe 1 0] [sample_ack 0]) = 3"
    "qp_resp_pkts (sample_qp [sample_wqe 1 0] [sample_ack 0]) = [sample_ack 0]"
    by (simp_all add: comp_active_def sample_qp_def)
  then obtain ret qp' dev' n where r: "rxe_completer (sample_qp [sample_wqe 1 0] [sample_ack 0], sample_dev) = Some (ret, qp', dev')"
    "map wqe_ibwr (sq_list qp') = map wqe_ibwr (drop n [sample_wqe 1 0])" "map cqe_key (cq_list dev' 4) = map cqe_key (cq_list sample_dev 4)"
    using rxe_completer_in_order [of "sample_qp [sample_wqe 1 0] [sample_ack 0]" sample_dev] sample_ack_ok
    by (force simp: sample_qp_sane)
  have "length (sq_list qp') = 1 - n" using arg_cong [OF r(2), of length] by simp
  then show ?thesis using r by (auto simp: sample_cqs)
qed

text \<open>
  C3: acknowledgements are cumulative. When the completer takes an acknowledgement whose sequence
  number lies beyond the last packet of some sends or writes and is the last packet of the next
  one, it completes exactly these: they leave the queue, each signaled one is reported, the
  expected sequence number becomes the successor of the acknowledged one (unless it was already
  further), and the packet is freed.
\<close>

theorem rxe_completer_ack_cumulative:
  assumes "comp_sane (qp, dev)" and "comp_active qp" and "req_state (qp_req qp) \<noteq> QP_STATE_ERROR"
    and "\<not> req_need_retry (qp_req qp)" and "comp_opcode (qp_comp qp) = -1"
    and "qp_resp_pkts qp = skb # pkts" and "ack_packet skb" and "sq_list qp = ws @ w # rest"
    and "\<forall>v \<in> set ws. acked_before (pkt_psn (skb_pkt skb)) v" and "acked_last (pkt_psn (skb_pkt skb)) w"
    and "length (cq_list dev (qp_scq qp)) + length (signaled_cqes qp (ws @ [w])) \<le> cq_cap dev (qp_scq qp)"
  shows "\<exists>qp' dev'. rxe_completer (qp, dev) = Some (0, qp', dev') \<and> sq_list qp' = rest
    \<and> cq_list dev' (qp_scq qp) = cq_list dev (qp_scq qp) @ signaled_cqes qp (ws @ [w])
    \<and> comp_psn (qp_comp qp') = next_comp_psn (pkt_psn (skb_pkt skb)) (comp_psn (qp_comp qp))
    \<and> dev_kfree dev' = dev_kfree dev @ [skb]"
proof -
  let ?qp = "qp\<lparr>qp_resp_pkts := pkts, qp_comp := (qp_comp qp)\<lparr>comp_timeout := False, comp_timeout_retry := False\<rparr>\<rparr>"
  let ?ctx = "\<lparr>cc_qp = ?qp, cc_dev = dev, cc_wqe = None, cc_skb = Some skb\<rparr>"
  have l: "rxe_completer (qp, dev) = map_option (\<lambda>(ret, ctx). (ret, cc_qp ctx, cc_dev ctx)) (comp_loop COMPST_GET_WQE ?ctx)"
    using assms(2-4,6) by (simp add: rxe_completer_def comp_active_def Let_def comp_loop_next)
  have "comp_at (qp, dev) (ws @ w # rest) (cq_list dev (qp_scq qp)) (comp_psn (qp_comp qp)) (cc_qd ?ctx)"
    using assms(1,5,8) by (simp add: comp_at_def comp_base_def comp_sane_def sq_list_def cc_qd_def qp_cfg_def)
  from ack_loop [OF this _ assms(7,9,10)] obtain ctx where "comp_loop COMPST_GET_WQE ?ctx = Some (0, ctx)"
    "comp_done (qp, dev) rest (cq_list dev (qp_scq qp) @ signaled_cqes qp (ws @ [w]))
       (next_comp_psn (pkt_psn (skb_pkt skb)) (comp_psn (qp_comp qp))) skb (cc_qd ctx)"
    using assms(11) by auto
  then show ?thesis by (simp add: l comp_done_def cc_qd_def)
qed

theorem rxe_completer_ack_cumulative_witness:
  "\<exists>qp' dev'. rxe_completer (sample_qp [sample_wqe 1 0, sample_wqe 2 1, sample_wqe 3 2] [sample_ack 1], sample_dev)
       = Some (0, qp', dev')
     \<and> sq_list qp' = [sample_wqe 3 2] \<and> map cqe_key (cq_list dev' 3) = [(1, IB_WC_SEND), (2, IB_WC_SEND)]
     \<and> comp_psn (qp_comp qp') = 2 \<and> dev_kfree dev' = [sample_ack 1]"
proof -
  let ?qp = "sample_qp [sample_wqe 1 0, sample_wqe 2 1, sample_wqe 3 2] [sample_ack 1]"
  have w: "acked_before 1 (sample_wqe 1 0)" "acked_last 1 (sample_wqe 2 1)" "wqe_signaled ?qp (sample_wqe i p)"
    "wr_key (wqe_ibwr (sample_wqe i p)) = (i, IB_WC_SEND)" for i p
    by (simp_all add: acked_before_def acked_last_def sample_wqe_def psn_compare_def wqe_signaled_def wr_key_def sample_wr_def
      wr_to_wc_opcode_def)
  have p: "pkt_psn (skb_pkt (sample_ack 1)) = 1" "next_comp_psn 1 0 = 2" by (simp_all add: sample_ack_def next_comp_psn_def psn_compare_def)
  have q: "qp_scq ?qp = 3" "comp_active ?qp" "req_state (qp_req ?qp) = QP_STATE_READY" "\<not> req_need_retry (qp_req ?qp)"
    "comp_opcode (qp_comp ?qp) = -1" "comp_psn (qp_comp ?qp) = 0" "qp_resp_pkts ?qp = [sample_ack 1]" "dev_kfree sample_dev = []"
    by (simp_all add: sample_qp_def comp_active_def sample_dev_def)
  show ?thesis
    using rxe_completer_ack_cumulative [of ?qp sample_dev "sample_ack 1" "[]" "[sample_wqe 1 0]" "sample_wqe 2 1" "[sample_wqe 3 2]"]
    by (auto simp: sample_qp_sane sample_cqs w p q sample_ack_pkt)
qed

text \<open>
  C20: a queue pair in the error state is flushed. The completer frees every waiting response
  packet, removes every request from the send queue and reports each signaled one, in order, with
  status \<open>IB_WC_WR_FLUSH_ERR\<close>.
\<close>

theorem rxe_completer_flush:
  assumes "comp_sane (qp, dev)" and "qp_valid qp" and "req_state (qp_req qp) = QP_STATE_ERROR"
    and "length (cq_list dev (qp_scq qp)) + length (signaled_cqes qp (map flushed (sq_list qp))) \<le> cq_cap dev (qp_scq qp)"
  shows "\<exists>qp' dev'. rxe_completer (qp, dev) = Some (minus_EAGAIN, qp', dev') \<and> sq_list qp' = [] \<and> qp_resp_pkts qp' = []
    \<and> cq_list dev' (qp_scq qp) = cq_list dev (qp_scq qp)
        @ map (make_send_cqe qp) (filter (wqe_signaled qp) (map (\<lambda>w. w\<lparr>wqe_status := IB_WC_WR_FLUSH_ERR\<rparr>) (sq_list qp)))
    \<and> dev_kfree dev' = dev_kfree dev @ qp_resp_pkts qp"
proof -
  have "flushed = (\<lambda>w. w\<lparr>wqe_status := IB_WC_WR_FLUSH_ERR\<rparr>)" by (simp add: flushed_def fun_eq_iff)
  then show ?thesis using comp_flush_all [OF assms(1)] assms(2-4)
    by (auto simp: rxe_completer_def signaled_cqes_def)
qed

theorem rxe_completer_flush_witness:
  "\<exists>qp' dev'. rxe_completer ((sample_qp [sample_wqe 1 0, sample_wqe 2 1] [sample_ack 1])
         \<lparr>qp_req := (qp_req (sample_qp [] []))\<lparr>req_state := QP_STATE_ERROR\<rparr>\<rparr>, sample_dev) = Some (minus_EAGAIN, qp', dev')
     \<and> sq_list qp' = [] \<and> length (cq_list dev' 3) = 2 \<and> dev_kfree dev' = [sample_ack 1]"
proof -
  let ?qp = "(sample_qp [sample_wqe 1 0, sample_wqe 2 1] [sample_ack 1])\<lparr>qp_req := (qp_req (sample_qp [] []))\<lparr>req_state := QP_STATE_ERROR\<rparr>\<rparr>"
  have s: "comp_sane (?qp, sample_dev)" "sq_list ?qp = [sample_wqe 1 0, sample_wqe 2 1]"
    using sample_qp_sane [of "[sample_wqe 1 0, sample_wqe 2 1]" "[sample_ack 1]"] by (simp_all add: comp_sane_def sq_list_def)
  have q: "qp_scq ?qp = 3" "qp_valid ?qp" "qp_resp_pkts ?qp = [sample_ack 1]" "dev_kfree sample_dev = []"
    by (simp_all add: sample_qp_def sample_dev_def)
  have w: "wqe_signaled ?qp (flushed (sample_wqe i p))" for i p
    by (simp add: wqe_signaled_def flushed_def sample_wqe_def sample_wr_def)
  show ?thesis using rxe_completer_flush [OF s(1) q(2)] w by (auto simp: s q sample_cqs flushed_def)
qed

end
