(* ===== verification/Rxe_Arbiter.thy ===== *)
theory Rxe_Arbiter
  imports Rxe_Sample
begin

text \<open>
  The arbiter, \<open>rxe_arbiter.c\<close>: it sends the packets of the queue pairs in turn, paced by the
  static rate. The operations on all queue pairs work on the pair of the queue pairs by handle
  and the device.
\<close>

subsection \<open>Sending one packet\<close>

definition account_skb :: "u32 \<Rightarrow> rxe_qp \<times> rxe_dev \<Rightarrow> rxe_qp \<times> rxe_dev" where
  "account_skb is_request qd = (case qd of (qp, dev) \<Rightarrow>
     if is_request AND RXE_REQ_MASK \<noteq> 0
     then let dev = dev\<lparr>dev_req_skb_out := dev_req_skb_out dev - 1\<rparr>;
              qp = qp\<lparr>qp_req_skb_out := qp_req_skb_out qp - 1\<rparr>
          in (if qp_need_req_skb qp \<and> qp_req_skb_out qp < par_max_skb_per_qp (dev_param dev)
              then run_req_task qp else qp, dev)
     else (qp\<lparr>qp_resp_skb_out := qp_resp_skb_out qp - 1\<rparr>, dev\<lparr>dev_resp_skb_out := dev_resp_skb_out dev - 1\<rparr>))"

definition getnstimeofday :: "rxe_dev \<Rightarrow> timespec \<times> rxe_dev" where
  "getnstimeofday dev = (dev_now dev 0, dev\<lparr>dev_now := (\<lambda>i. dev_now dev (Suc i))\<rparr>)"

definition timespec_less :: "timespec \<Rightarrow> timespec \<Rightarrow> bool" where
  "timespec_less a b \<longleftrightarrow> tv_sec a < tv_sec b \<or> (tv_sec a = tv_sec b \<and> tv_nsec a < tv_nsec b)"

text \<open>\<open>do getnstimeofday(&time); while (timespec_compare(&time, &rxe->arbiter.time) < 0);\<close>\<close>

partial_function (option) busy_wait :: "rxe_dev \<Rightarrow> rxe_dev option" where
  "busy_wait dev = (case getnstimeofday dev of (time, dev') \<Rightarrow>
     if timespec_less time (arb_time (dev_arbiter dev)) then busy_wait dev' else Some dev')"

abbreviation (input) NSEC_PER_SEC :: int where "NSEC_PER_SEC \<equiv> 1000000000"

function carry_nsec :: "timespec \<Rightarrow> timespec" where
  "carry_nsec t = (if NSEC_PER_SEC < tv_nsec t
     then carry_nsec (t\<lparr>tv_sec := tv_sec t + 1, tv_nsec := tv_nsec t - NSEC_PER_SEC\<rparr>) else t)"
  by auto
termination
  by (relation "measure (nat \<circ> tv_nsec)") auto

declare carry_nsec.simps [simp del]

text \<open>The product of the length and the rate is unsigned.\<close>

definition xmit_delay :: "sk_buff \<Rightarrow> rxe_dev \<Rightarrow> int" where
  "xmit_delay skb dev = max (uint (drop_bit 10 (skb_len skb * word_of_int (par_nsec_per_kbyte (dev_param dev)))))
     (par_nsec_per_packet (dev_param dev))"

definition set_delay :: "int \<Rightarrow> rxe_dev \<Rightarrow> rxe_dev" where
  "set_delay new_delay dev =
     (if 0 < new_delay
      then case getnstimeofday dev of (time, dev) \<Rightarrow>
        dev\<lparr>dev_arbiter := (dev_arbiter dev)\<lparr>arb_delay := True,
          arb_time := carry_nsec (time\<lparr>tv_nsec := tv_nsec time + new_delay\<rparr>)\<rparr>\<rparr>
      else dev\<lparr>dev_arbiter := (dev_arbiter dev)\<lparr>arb_delay := False\<rparr>\<rparr>)"

text \<open>Whether the queue pair may send packets of this kind.\<close>

definition xmit_allowed :: "u32 \<Rightarrow> rxe_qp \<Rightarrow> bool" where
  "xmit_allowed is_request qp \<longleftrightarrow> qp_valid qp
     \<and> (if is_request \<noteq> 0 then req_state (qp_req qp) else resp_state (qp_resp qp)) = QP_STATE_READY"

text \<open>The first component is the return value; the outer \<open>None\<close> is a busy wait without end.\<close>

definition xmit_one_packet :: "rxe_ifc_ops \<Rightarrow> sk_buff \<Rightarrow> rxe_qp \<times> rxe_dev \<Rightarrow> (int \<times> rxe_qp \<times> rxe_dev) option" where
  "xmit_one_packet ifc skb qd = (case qd of (qp, dev) \<Rightarrow>
     let pkt = skb_pkt skb; is_request = pkt_mask pkt AND RXE_REQ_MASK
     in if \<not> xmit_allowed is_request qp then Some (0, account_skb is_request (qp, kfree_skb skb dev))
        else case (if arb_delay (dev_arbiter dev) then busy_wait dev else Some dev) of
          None \<Rightarrow> None
        | Some dev \<Rightarrow>
            case (if pkt_mask pkt AND RXE_LOOPBACK_MASK \<noteq> 0 then ifc_loopback ifc skb dev else ifc_send ifc skb dev) of
              (err, dev') \<Rightarrow>
                if err = RXE_QUEUE_STOPPED then Some (err, qp, dev')
                else let dev' = (if err \<noteq> 0 then dev'\<lparr>dev_xmit_errors := dev_xmit_errors dev' + 1\<rparr> else dev')
                     in Some (err, account_skb is_request (qp, set_delay (xmit_delay skb dev) dev')))"

subsection \<open>The round robin\<close>

text \<open>\<open>list_empty(qpl)\<close> after \<open>list_del_init\<close>: the queue pair has not been queued again.\<close>

definition rxe_arbiter_run :: "rxe_ifc_ops \<Rightarrow> (nat \<Rightarrow> rxe_qp) \<times> rxe_dev \<Rightarrow> (int \<times> (nat \<Rightarrow> rxe_qp) \<times> rxe_dev) option" where
  "rxe_arbiter_run ifc w = (case w of (qps, dev) \<Rightarrow>
     case arb_qp_list (dev_arbiter dev) of
       [] \<Rightarrow> Some (1, qps, dev)
     | h # hs \<Rightarrow>
         let dev = dev\<lparr>dev_arbiter := (dev_arbiter dev)\<lparr>arb_qp_list := hs\<rparr>\<rparr>;
             requeue = (\<lambda>qps dev. (0, qps,
               if h \<notin> set (arb_qp_list (dev_arbiter dev)) \<and> qp_send_pkts (qps h) \<noteq> []
               then dev\<lparr>dev_arbiter := (dev_arbiter dev)\<lparr>arb_qp_list := arb_qp_list (dev_arbiter dev) @ [h]\<rparr>\<rparr> else dev))
         in case qp_send_pkts (qps h) of
              [] \<Rightarrow> Some (requeue qps dev)
            | skb # pkts \<Rightarrow>
                case xmit_one_packet ifc skb ((qps h)\<lparr>qp_send_pkts := pkts\<rparr>, dev) of
                  None \<Rightarrow> None
                | Some (err, qp, dev) \<Rightarrow>
                    if err \<noteq> 0
                    then let qp = (if err = RXE_QUEUE_STOPPED then qp\<lparr>qp_send_pkts := skb # qp_send_pkts qp\<rparr> else qp);
                             t = fst (rxe_run_task False False (arb_task (dev_arbiter dev)) 1)
                         in Some (1, qps(h := qp), dev\<lparr>dev_arbiter := (dev_arbiter dev)\<lparr>arb_task := t\<rparr>\<rparr>)
                    else Some (requeue (qps(h := qp)) dev))"

text \<open>The last component says whether the caller runs the arbiter itself.\<close>

definition arbiter_skb_queue :: "bool \<Rightarrow> bool \<Rightarrow> sk_buff \<Rightarrow> rxe_qp \<times> rxe_dev \<Rightarrow> (rxe_qp \<times> rxe_dev) \<times> bool" where
  "arbiter_skb_queue in_irq irqs_disabled skb qd = (case qd of (qp, dev) \<Rightarrow>
     let qp = qp\<lparr>qp_send_pkts := qp_send_pkts qp @ [skb]\<rparr>;
         arb = dev_arbiter dev;
         arb = (if qp_self qp \<notin> set (arb_qp_list arb) then arb\<lparr>arb_qp_list := arb_qp_list arb @ [qp_self qp]\<rparr> else arb);
         must_sched = (if 1 < length (qp_resp_pkts qp) then 1 else 0)
     in case rxe_run_task in_irq irqs_disabled (arb_task arb) must_sched of
          (task, direct) \<Rightarrow> ((qp, dev\<lparr>dev_arbiter := arb\<lparr>arb_task := task\<rparr>\<rparr>), direct))"

text \<open>The arbiter's task: \<open>__rxe_do_task\<close> calls the function until it returns non-zero.\<close>

partial_function (option) rxe_arbiter_task ::
    "rxe_ifc_ops \<Rightarrow> (nat \<Rightarrow> rxe_qp) \<times> rxe_dev \<Rightarrow> ((nat \<Rightarrow> rxe_qp) \<times> rxe_dev) option" where
  "rxe_arbiter_task ifc w = (case rxe_arbiter_run ifc w of None \<Rightarrow> None
     | Some (ret, w') \<Rightarrow> if ret = 0 then rxe_arbiter_task ifc w' else Some w')"


subsection \<open>The clock\<close>

definition clock_grows :: "rxe_dev \<Rightarrow> bool" where
  "clock_grows dev \<longleftrightarrow> (\<forall>t N. \<exists>n \<ge> N. \<not> timespec_less (dev_now dev n) t)"

lemma clock_grows_shift: "clock_grows dev \<Longrightarrow> dev_now dev' = (\<lambda>i. dev_now dev (i + k)) \<Longrightarrow> clock_grows dev'"
proof -
  assume g: "clock_grows dev" and e: "dev_now dev' = (\<lambda>i. dev_now dev (i + k))"
  have "\<exists>n \<ge> N. \<not> timespec_less (dev_now dev' n) t" for t N
  proof -
    obtain n where "N + k \<le> n" "\<not> timespec_less (dev_now dev n) t" using g unfolding clock_grows_def by blast
    then show ?thesis by (intro exI [of _ "n - k"]) (simp add: e)
  qed
  then show ?thesis by (simp add: clock_grows_def)
qed

lemma busy_wait_returns:
  assumes "\<not> timespec_less (dev_now dev n) (arb_time (dev_arbiter dev))"
  shows "\<exists>k. busy_wait dev = Some (dev\<lparr>dev_now := (\<lambda>i. dev_now dev (i + k))\<rparr>)"
  using assms
proof (induction n arbitrary: dev)
  case 0
  then have "busy_wait dev = Some (dev\<lparr>dev_now := (\<lambda>i. dev_now dev (i + 1))\<rparr>)"
    by (subst busy_wait.simps) (simp add: getnstimeofday_def)
  then show ?case by blast
next
  case (Suc n)
  let ?d = "dev\<lparr>dev_now := (\<lambda>i. dev_now dev (Suc i))\<rparr>"
  obtain k where k: "busy_wait ?d = Some (?d\<lparr>dev_now := (\<lambda>i. dev_now ?d (i + k))\<rparr>)" using Suc.IH [of ?d] Suc.prems by auto
  then have "busy_wait dev = Some (dev\<lparr>dev_now := (\<lambda>i. dev_now dev (i + (if timespec_less (dev_now dev 0) (arb_time (dev_arbiter dev)) then Suc k else 1)))\<rparr>)"
    by (subst busy_wait.simps) (simp add: getnstimeofday_def)
  then show ?case by blast
qed

lemma wait_returns:
  assumes "clock_grows dev"
  shows "\<exists>k. (if arb_delay (dev_arbiter dev) then busy_wait dev else Some dev) = Some (dev\<lparr>dev_now := (\<lambda>i. dev_now dev (i + k))\<rparr>)"
proof (cases "arb_delay (dev_arbiter dev)")
  case True
  obtain n where "\<not> timespec_less (dev_now dev n) (arb_time (dev_arbiter dev))" using assms unfolding clock_grows_def by blast
  from busy_wait_returns [OF this] show ?thesis using True by simp
next
  case False
  then show ?thesis by (intro exI [of _ 0]) simp
qed

subsection \<open>One packet\<close>

text \<open>An interface that takes every packet.\<close>

definition good_ifc :: "rxe_ifc_ops \<Rightarrow> bool" where
  "good_ifc ifc \<longleftrightarrow> (\<forall>skb dev. ifc_send ifc skb dev = (0, dev\<lparr>dev_sent := dev_sent dev @ [skb]\<rparr>)
     \<and> ifc_loopback ifc skb dev = (0, dev\<lparr>dev_sent := dev_sent dev @ [skb]\<rparr>))"

definition qp_ready :: "rxe_qp \<Rightarrow> bool" where
  "qp_ready qp \<longleftrightarrow> qp_valid qp \<and> req_state (qp_req qp) = QP_STATE_READY \<and> resp_state (qp_resp qp) = QP_STATE_READY"

text \<open>What the operations on a packet leave alone.\<close>

definition arb_frame :: "rxe_qp \<times> rxe_dev \<Rightarrow> rxe_qp \<times> rxe_dev \<Rightarrow> bool" where
  "arb_frame qd qd' \<longleftrightarrow> (case (qd, qd') of ((qp, dev), (qp', dev')) \<Rightarrow>
     qp_send_pkts qp' = qp_send_pkts qp \<and> qp_ready qp' = qp_ready qp
     \<and> arb_qp_list (dev_arbiter dev') = arb_qp_list (dev_arbiter dev) \<and> dev_kfree dev' = dev_kfree dev
     \<and> (\<exists>k. dev_now dev' = (\<lambda>i. dev_now dev (i + k))))"

lemma account_skb_frame: "arb_frame qd (account_skb m qd) \<and> dev_sent (snd (account_skb m qd)) = dev_sent (snd qd)"
  by (cases qd) (auto simp: arb_frame_def account_skb_def Let_def run_req_task_def qp_ready_def intro: exI [of _ 0])

lemma set_delay_frame:
  "arb_qp_list (dev_arbiter (set_delay d dev)) = arb_qp_list (dev_arbiter dev)" "dev_kfree (set_delay d dev) = dev_kfree dev"
  "dev_sent (set_delay d dev) = dev_sent dev" "\<exists>k. dev_now (set_delay d dev) = (\<lambda>i. dev_now dev (i + k))"
  by (auto simp: set_delay_def getnstimeofday_def intro: exI [of _ 0] exI [of _ 1])

lemma xmit_good:
  assumes "good_ifc ifc" and "clock_grows dev" and "qp_ready qp"
  shows "\<exists>qp' dev'. xmit_one_packet ifc skb (qp, dev) = Some (0, qp', dev') \<and> arb_frame (qp, dev) (qp', dev')
    \<and> dev_sent dev' = dev_sent dev @ [skb]"
proof -
  let ?m = "pkt_mask (skb_pkt skb) AND RXE_REQ_MASK"
  obtain k where k: "(if arb_delay (dev_arbiter dev) then busy_wait dev else Some dev) = Some (dev\<lparr>dev_now := (\<lambda>i. dev_now dev (i + k))\<rparr>)"
    using wait_returns [OF assms(2)] by blast
  define d1 where "d1 = dev\<lparr>dev_now := (\<lambda>i. dev_now dev (i + k))\<rparr>"
  define d2 where "d2 = set_delay (xmit_delay skb d1) (d1\<lparr>dev_sent := dev_sent d1 @ [skb]\<rparr>)"
  have "xmit_allowed ?m qp" using assms(3) by (simp add: xmit_allowed_def qp_ready_def)
  then have x: "xmit_one_packet ifc skb (qp, dev) = Some (0, account_skb ?m (qp, d2))"
    using k assms(1) by (simp add: xmit_one_packet_def Let_def good_ifc_def d2_def d1_def)
  obtain j where j: "dev_now d2 = (\<lambda>i. dev_now (d1\<lparr>dev_sent := dev_sent d1 @ [skb]\<rparr>) (i + j))"
    using set_delay_frame(4) unfolding d2_def by blast
  obtain qp' dev' where a: "account_skb ?m (qp, d2) = (qp', dev')" by force
  have f: "arb_frame (qp, d2) (qp', dev')" "dev_sent dev' = dev_sent d2" using account_skb_frame [of "(qp, d2)" ?m] by (simp_all add: a)
  then obtain l where "dev_now dev' = (\<lambda>i. dev_now d2 (i + l))" unfolding arb_frame_def by auto
  then have "dev_now dev' = (\<lambda>i. dev_now dev (i + (l + j + k)))" by (simp add: j d1_def add.assoc)
  moreover have "dev_sent d2 = dev_sent dev @ [skb]" "dev_kfree d2 = dev_kfree dev"
    "arb_qp_list (dev_arbiter d2) = arb_qp_list (dev_arbiter dev)" by (simp_all add: d2_def set_delay_frame d1_def)
  ultimately have "arb_frame (qp, dev) (qp', dev')" "dev_sent dev' = dev_sent dev @ [skb]"
    using f by (auto simp: arb_frame_def)
  then show ?thesis using x a by simp
qed

subsection \<open>All packets\<close>

text \<open>Every queue pair with packets to send is listed, once.\<close>

definition arb_inv :: "(nat \<Rightarrow> rxe_qp) \<times> rxe_dev \<Rightarrow> bool" where
  "arb_inv w \<longleftrightarrow> distinct (arb_qp_list (dev_arbiter (snd w)))
     \<and> (\<forall>h. qp_send_pkts (fst w h) \<noteq> [] \<longrightarrow> h \<in> set (arb_qp_list (dev_arbiter (snd w))))"

abbreviation (input) sent_by :: "rxe_dev \<Rightarrow> nat \<Rightarrow> sk_buff list" where
  "sent_by dev h \<equiv> filter (\<lambda>skb. skb_qp skb = Some h) (dev_sent dev)"

definition arb_work :: "(nat \<Rightarrow> rxe_qp) \<times> rxe_dev \<Rightarrow> nat" where
  "arb_work w = (\<Sum>h\<leftarrow>arb_qp_list (dev_arbiter (snd w)). Suc (2 * length (qp_send_pkts (fst w h))))"

definition arb_ready :: "(nat \<Rightarrow> rxe_qp) \<times> rxe_dev \<Rightarrow> bool" where
  "arb_ready w \<longleftrightarrow> clock_grows (snd w) \<and> arb_inv w
     \<and> (\<forall>h. qp_send_pkts (fst w h) \<noteq> [] \<longrightarrow> qp_ready (fst w h) \<and> (\<forall>skb \<in> set (qp_send_pkts (fst w h)). skb_qp skb = Some h))"

lemma rxe_arbiter_run_good:
  assumes "good_ifc ifc" and w: "arb_ready (qps, dev)" and l: "arb_qp_list (dev_arbiter dev) = h # hs"
  shows "\<exists>qps' dev'. rxe_arbiter_run ifc (qps, dev) = Some (0, qps', dev') \<and> arb_ready (qps', dev')
    \<and> arb_work (qps', dev') < arb_work (qps, dev) \<and> dev_kfree dev' = dev_kfree dev
    \<and> (\<forall>g. sent_by dev' g @ qp_send_pkts (qps' g) = sent_by dev g @ qp_send_pkts (qps g))"
proof (cases "qp_send_pkts (qps h)")
  case Nil
  let ?dev = "dev\<lparr>dev_arbiter := (dev_arbiter dev)\<lparr>arb_qp_list := hs\<rparr>\<rparr>"
  have "rxe_arbiter_run ifc (qps, dev) = Some (0, qps, ?dev)" by (simp add: rxe_arbiter_run_def l Nil)
  moreover have "arb_ready (qps, ?dev)" using w Nil l by (auto simp: arb_ready_def arb_inv_def clock_grows_def)
  ultimately show ?thesis using l by (intro exI [of _ qps] exI [of _ ?dev]) (simp add: arb_work_def)
next
  case (Cons skb pkts)
  let ?dev = "dev\<lparr>dev_arbiter := (dev_arbiter dev)\<lparr>arb_qp_list := hs\<rparr>\<rparr>"
  let ?qp = "(qps h)\<lparr>qp_send_pkts := pkts\<rparr>"
  have r: "qp_ready ?qp" "\<forall>skb \<in> set (qp_send_pkts (qps h)). skb_qp skb = Some h" "clock_grows ?dev"
    using w Cons by (auto simp: arb_ready_def qp_ready_def clock_grows_def)
  have d: "h \<notin> set hs" "distinct hs" using w l by (simp_all add: arb_ready_def arb_inv_def)
  obtain qp' dev' where x: "xmit_one_packet ifc skb (?qp, ?dev) = Some (0, qp', dev')" "arb_frame (?qp, ?dev) (qp', dev')"
    "dev_sent dev' = dev_sent dev @ [skb]"
    using xmit_good [OF assms(1) r(3,1), of skb] by auto
  have f: "qp_send_pkts qp' = pkts" "qp_ready qp'" "arb_qp_list (dev_arbiter dev') = hs" "dev_kfree dev' = dev_kfree dev" "clock_grows dev'"
    using x(2) r(1) clock_grows_shift [OF r(3)] by (auto simp: arb_frame_def)
  define l' where "l' = (if pkts = [] then hs else hs @ [h])"
  define dev2 where "dev2 = dev'\<lparr>dev_arbiter := (dev_arbiter dev')\<lparr>arb_qp_list := l'\<rparr>\<rparr>"
  have run: "rxe_arbiter_run ifc (qps, dev) = Some (0, qps(h := qp'), dev2)"
    using x(1) f d by (simp add: rxe_arbiter_run_def l Cons dev2_def l'_def)
  have s: "dev_sent dev2 = dev_sent dev @ [skb]" "dev_kfree dev2 = dev_kfree dev" "arb_qp_list (dev_arbiter dev2) = l'"
    by (simp_all add: dev2_def x f)
  have "arb_inv (qps(h := qp'), dev2)"
    using w d l by (auto simp: arb_ready_def arb_inv_def s l'_def f)
  then have "arb_ready (qps(h := qp'), dev2)"
    using w f(2) r(2) Cons f(5) unfolding arb_ready_def by (auto simp: f clock_grows_def dev2_def)
  moreover have "arb_work (qps(h := qp'), dev2) < arb_work (qps, dev)"
  proof -
    have "(\<Sum>g\<leftarrow>hs. Suc (2 * length (qp_send_pkts ((qps(h := qp')) g)))) = (\<Sum>g\<leftarrow>hs. Suc (2 * length (qp_send_pkts (qps g))))"
      using d(1) by (intro arg_cong [of _ _ sum_list] map_cong) auto
    then show ?thesis by (simp add: arb_work_def s l l'_def f Cons)
  qed
  moreover have "sent_by dev2 g @ qp_send_pkts ((qps(h := qp')) g) = sent_by dev g @ qp_send_pkts (qps g)" for g
    using r(2) Cons by (auto simp: s f)
  ultimately show ?thesis using run s(2) by blast
qed

lemma rxe_arbiter_task_sends:
  assumes "good_ifc ifc"
  shows "arb_ready (qps, dev) \<Longrightarrow> \<exists>qps' dev'. rxe_arbiter_task ifc (qps, dev) = Some (qps', dev')
    \<and> (\<forall>h. qp_send_pkts (qps' h) = [] \<and> sent_by dev' h = sent_by dev h @ qp_send_pkts (qps h)) \<and> dev_kfree dev' = dev_kfree dev"
proof (induction "arb_work (qps, dev)" arbitrary: qps dev rule: less_induct)
  case less
  show ?case
  proof (cases "arb_qp_list (dev_arbiter dev)")
    case Nil
    then have "rxe_arbiter_task ifc (qps, dev) = Some (qps, dev)"
      by (subst rxe_arbiter_task.simps) (simp add: rxe_arbiter_run_def)
    then show ?thesis using less.prems Nil by (auto simp: arb_ready_def arb_inv_def)
  next
    case (Cons h hs)
    from rxe_arbiter_run_good [OF assms less.prems Cons] obtain qps1 dev1 where r:
      "rxe_arbiter_run ifc (qps, dev) = Some (0, qps1, dev1)" "arb_ready (qps1, dev1)" "arb_work (qps1, dev1) < arb_work (qps, dev)"
      "dev_kfree dev1 = dev_kfree dev" "\<forall>g. sent_by dev1 g @ qp_send_pkts (qps1 g) = sent_by dev g @ qp_send_pkts (qps g)" by blast
    have "rxe_arbiter_task ifc (qps, dev) = rxe_arbiter_task ifc (qps1, dev1)"
      by (subst rxe_arbiter_task.simps) (simp add: r(1))
    then show ?thesis using less.hyps [OF r(3,2)] r(4,5) by auto
  qed
qed

subsection \<open>Properties\<close>

text \<open>
  C6: the arbiter sends everything, per queue pair in order. With an interface that takes every
  packet and a clock that advances, the arbiter's task ends with all send queues empty; each queue
  pair's packets have gone out in the order they were queued, and none has been dropped.
\<close>

theorem rxe_arbiter_sends_all:
  assumes "good_ifc ifc" and "clock_grows dev" and "arb_inv (qps, dev)"
    and "\<forall>h. qp_send_pkts (qps h) \<noteq> [] \<longrightarrow> qp_ready (qps h)"
    and "\<forall>h. \<forall>skb \<in> set (qp_send_pkts (qps h)). skb_qp skb = Some h"
  shows "\<exists>qps' dev'. rxe_arbiter_task ifc (qps, dev) = Some (qps', dev') \<and> dev_kfree dev' = dev_kfree dev
    \<and> (\<forall>h. qp_send_pkts (qps' h) = []
         \<and> filter (\<lambda>skb. skb_qp skb = Some h) (dev_sent dev')
           = filter (\<lambda>skb. skb_qp skb = Some h) (dev_sent dev) @ qp_send_pkts (qps h))"
proof -
  have "arb_ready (qps, dev)" using assms(2-5) by (auto simp: arb_ready_def)
  from rxe_arbiter_task_sends [OF assms(1) this] show ?thesis by blast
qed

theorem rxe_arbiter_sends_all_witness:
  "\<exists>qps' dev'. rxe_arbiter_task sample_ifc (\<lambda>h. (sample_qp [] [])\<lparr>qp_send_pkts := if h = 7 then [sample_ack 1, sample_ack 2] else []\<rparr>,
       sample_dev\<lparr>dev_arbiter := (dev_arbiter sample_dev)\<lparr>arb_qp_list := [5, 7]\<rparr>\<rparr>) = Some (qps', dev')
     \<and> filter (\<lambda>skb. skb_qp skb = Some 7) (dev_sent dev') = [sample_ack 1, sample_ack 2] \<and> dev_kfree dev' = []"
proof -
  let ?dev = "sample_dev\<lparr>dev_arbiter := (dev_arbiter sample_dev)\<lparr>arb_qp_list := [5, 7]\<rparr>\<rparr>"
  let ?qps = "\<lambda>h. (sample_qp [] [])\<lparr>qp_send_pkts := if h = 7 then [sample_ack 1, sample_ack 2] else []\<rparr>"
  have "clock_grows ?dev" unfolding clock_grows_def
  proof (intro allI)
    fix t N
    show "\<exists>n \<ge> N. \<not> timespec_less (dev_now ?dev n) t"
      by (rule exI [of _ "N + nat (tv_sec t + 1)"]) (simp add: timespec_less_def sample_dev_def)
  qed
  moreover have "good_ifc sample_ifc" by (simp add: good_ifc_def sample_ifc_def)
  moreover have "arb_inv (?qps, ?dev)" by (simp add: arb_inv_def)
  moreover have "\<forall>h. qp_send_pkts (?qps h) \<noteq> [] \<longrightarrow> qp_ready (?qps h)" by (simp add: qp_ready_def sample_qp_def)
  moreover have "\<forall>h. \<forall>skb \<in> set (qp_send_pkts (?qps h)). skb_qp skb = Some h" by (simp add: sample_ack_def)
  ultimately obtain qps' dev' where r: "rxe_arbiter_task sample_ifc (?qps, ?dev) = Some (qps', dev')" "dev_kfree dev' = dev_kfree ?dev"
    "\<forall>h. qp_send_pkts (qps' h) = [] \<and> sent_by dev' h = sent_by ?dev h @ qp_send_pkts (?qps h)"
    using rxe_arbiter_sends_all [of sample_ifc ?dev ?qps] by blast
  have "dev_kfree ?dev = []" "dev_sent ?dev = []" by (simp_all add: sample_dev_def)
  then show ?thesis using r(1,2) r(3) [rule_format, of 7] by (intro exI [of _ qps'] exI [of _ dev']) simp
qed

text \<open>
  C33: a stopped transmit queue strands a queue pair. When the interface reports
  \<open>RXE_QUEUE_STOPPED\<close> the packet goes back to the head of its send queue, but the queue pair has
  left the arbiter's list and is not put back: with no other packet queued later, it is not sent.
\<close>

theorem rxe_arbiter_stopped_strands:
  assumes "arb_inv (qps, dev)" and "arb_qp_list (dev_arbiter dev) = h # hs" and "qp_send_pkts (qps h) = skb # pkts"
    and "qp_ready (qps h)" and "\<not> arb_delay (dev_arbiter dev)" and "pkt_mask (skb_pkt skb) AND RXE_LOOPBACK_MASK = 0"
    and "\<forall>dev. ifc_send ifc skb dev = (RXE_QUEUE_STOPPED, dev)"
  shows "\<exists>qps' dev'. rxe_arbiter_run ifc (qps, dev) = Some (1, qps', dev') \<and> qp_send_pkts (qps' h) = skb # pkts
    \<and> h \<notin> set (arb_qp_list (dev_arbiter dev')) \<and> \<not> arb_inv (qps', dev')"
  using assms by (simp add: rxe_arbiter_run_def xmit_one_packet_def xmit_allowed_def qp_ready_def Let_def arb_inv_def) blast

theorem rxe_arbiter_stopped_strands_witness:
  "\<exists>qps' dev'. rxe_arbiter_run (sample_ifc\<lparr>ifc_send := (\<lambda>skb dev. (RXE_QUEUE_STOPPED, dev))\<rparr>)
       (\<lambda>h. (sample_qp [] [])\<lparr>qp_send_pkts := if h = 7 then [sample_ack 1] else []\<rparr>,
        sample_dev\<lparr>dev_arbiter := (dev_arbiter sample_dev)\<lparr>arb_qp_list := [7]\<rparr>\<rparr>) = Some (1, qps', dev')
     \<and> qp_send_pkts (qps' 7) = [sample_ack 1] \<and> 7 \<notin> set (arb_qp_list (dev_arbiter dev'))"
proof -
  let ?dev = "sample_dev\<lparr>dev_arbiter := (dev_arbiter sample_dev)\<lparr>arb_qp_list := [7]\<rparr>\<rparr>"
  let ?qps = "\<lambda>h. (sample_qp [] [])\<lparr>qp_send_pkts := if h = (7 :: nat) then [sample_ack 1] else []\<rparr>"
  have m: "pkt_mask (skb_pkt (sample_ack 1)) AND RXE_LOOPBACK_MASK = 0" unfolding sample_ack_def by simp code_simp
  have d: "arb_inv (?qps, ?dev)" "arb_qp_list (dev_arbiter ?dev) = [7]" "qp_send_pkts (?qps 7) = [sample_ack 1]" "qp_ready (?qps 7)"
    "\<not> arb_delay (dev_arbiter ?dev)" by (simp_all add: arb_inv_def qp_ready_def sample_qp_def sample_dev_def)
  have i: "\<forall>dev. ifc_send (sample_ifc\<lparr>ifc_send := (\<lambda>skb dev. (RXE_QUEUE_STOPPED, dev))\<rparr>) (sample_ack 1) dev = (RXE_QUEUE_STOPPED, dev)"
    by simp
  show ?thesis using rxe_arbiter_stopped_strands [OF d m i] by blast
qed

end
