(* ===== verification/Rxe_Net.thy ===== *)
theory Rxe_Net
  imports Rxe_Arbiter
begin

text \<open>
  The Ethernet interface layer, the callbacks of \<open>rxe_net.c\<close>, with the address handling of
  \<open>rxe_av.c\<close>. The kernel's network layer is the record \<open>net_layer\<close>: whether the transmit queue is
  stopped, transmission and local delivery behind the netfilter hooks, and buffer allocation.
\<close>

record net_layer =
  nl_stopped :: "sk_buff \<Rightarrow> rxe_dev \<Rightarrow> bool"
  nl_xmit :: "sk_buff \<Rightarrow> rxe_dev \<Rightarrow> int \<times> rxe_dev"
  nl_rcv :: "sk_buff \<Rightarrow> rxe_dev \<Rightarrow> int \<times> rxe_dev"
  nl_alloc_skb :: "int \<Rightarrow> sk_buff option"
  nl_reserved_space :: int
  nl_mcast_add :: "u8 list \<Rightarrow> rxe_dev \<Rightarrow> int"
  nl_mad_grh_fix :: bool

subsection \<open>Addresses\<close>

text \<open>The bytes of a global identifier in memory order.\<close>

definition gid_raw :: "ib_gid \<Rightarrow> nat \<Rightarrow> u8" where
  "gid_raw gid i = (if i < 8 then ucast (drop_bit (8 * i) (fst gid)) else ucast (drop_bit (8 * (i - 8)) (snd gid)))"

definition rxe_mac_to_eui64 :: "u8 list \<Rightarrow> u64" where
  "rxe_mac_to_eui64 mac_addr =
     load64 ((\<lambda>_. 0)(0 := mac_addr ! 0 XOR 2, 1 := mac_addr ! 1, 2 := mac_addr ! 2, 3 := 0xff, 4 := 0xfe,
       5 := mac_addr ! 3, 6 := mac_addr ! 4, 7 := mac_addr ! 5)) 0"

definition rdma_link_local_addr :: "ib_gid \<Rightarrow> bool" where
  "rdma_link_local_addr gid \<longleftrightarrow> ucast (fst gid) = cpu_to_be32 0xfe800000 \<and> ucast (drop_bit 32 (fst gid)) = (0 :: u32)"

definition rdma_get_ll_mac :: "ib_gid \<Rightarrow> u8 list" where
  "rdma_get_ll_mac gid = [gid_raw gid 8 XOR 2, gid_raw gid 9, gid_raw gid 10, gid_raw gid 13, gid_raw gid 14, gid_raw gid 15]"

definition rdma_is_multicast_addr :: "ib_gid \<Rightarrow> bool" where
  "rdma_is_multicast_addr gid \<longleftrightarrow> gid_raw gid 0 = 0xff"

definition rdma_get_mcast_mac :: "ib_gid \<Rightarrow> u8 list" where
  "rdma_get_mcast_mac gid = [0x33, 0x33, gid_raw gid 12, gid_raw gid 13, gid_raw gid 14, gid_raw gid 15]"

text \<open>Every device has a first port, and the port a first identifier.\<close>

definition addr_same :: "rxe_dev \<Rightarrow> rxe_av \<Rightarrow> bool" where
  "addr_same dev av \<longleftrightarrow> hd (port_guid_tbl (hd (dev_port dev))) = snd (gr_dgid (ah_grh (av_attr av)))"

subsection \<open>The callbacks\<close>

definition net_mcast_add :: "net_layer \<Rightarrow> ib_gid \<Rightarrow> rxe_dev \<Rightarrow> int" where
  "net_mcast_add nl mgid dev = nl_mcast_add nl (rdma_get_mcast_mac mgid) dev"

definition net_send :: "net_layer \<Rightarrow> sk_buff \<Rightarrow> rxe_dev \<Rightarrow> int \<times> rxe_dev" where
  "net_send nl skb dev = (if nl_stopped nl skb dev then (RXE_QUEUE_STOPPED, dev) else nl_xmit nl skb dev)"

definition net_loopback :: "net_layer \<Rightarrow> sk_buff \<Rightarrow> rxe_dev \<Rightarrow> int \<times> rxe_dev" where
  "net_loopback nl skb dev = nl_rcv nl skb dev"

definition net_init_packet :: "net_layer \<Rightarrow> rxe_av \<Rightarrow> int \<Rightarrow> int \<Rightarrow> rxe_dev \<Rightarrow> sk_buff option" where
  "net_init_packet nl av paylen align dev =
     (let pad = (- (RXE_GRH_BYTES + nl_reserved_space nl + align)) AND 15
      in case nl_alloc_skb nl (paylen + RXE_GRH_BYTES + nl_reserved_space nl + pad) of
           None \<Rightarrow> None
         | Some skb \<Rightarrow>
             let mask = (if addr_same dev av then RXE_GRH_MASK OR RXE_LOOPBACK_MASK else RXE_GRH_MASK)
             in Some (skb\<lparr>skb_pkt := (skb_pkt skb)\<lparr>pkt_port_num := 1, pkt_mask := mask\<rparr>,
                  skb_len := word_of_int (RXE_GRH_BYTES + paylen)\<rparr>))"

definition net_init_av :: "net_layer \<Rightarrow> ib_ah_attr \<Rightarrow> rxe_av \<Rightarrow> rxe_dev \<Rightarrow> int \<times> rxe_av" where
  "net_init_av nl attr av dev =
     (let no_grh = ah_flags attr AND IB_AH_GRH = 0;
          port = hd (dev_port dev);
          attr' = (if no_grh then attr\<lparr>ah_flags := ah_flags attr OR IB_AH_GRH,
              ah_grh := (ah_grh attr)\<lparr>gr_dgid := (port_subnet_prefix port, hd (port_guid_tbl port))\<rparr>\<rparr> else attr);
          av' = (if no_grh then av\<lparr>av_attr := attr'\<rparr> else av);
          gid = gr_dgid (ah_grh attr')
      in if no_grh \<and> \<not> nl_mad_grh_fix nl then (-22, av)
         else if rdma_link_local_addr gid then (0, av'\<lparr>av_ll_addr := rdma_get_ll_mac gid\<rparr>)
         else if rdma_is_multicast_addr gid then (0, av'\<lparr>av_ll_addr := rdma_get_mcast_mac gid\<rparr>)
         else (-22, av'))"

definition net_ifc_ops :: "net_layer \<Rightarrow> rxe_ifc_ops" where
  "net_ifc_ops nl = \<lparr>ifc_send = net_send nl, ifc_loopback = net_loopback nl, ifc_init_packet = net_init_packet nl,
     ifc_init_av = net_init_av nl, ifc_mcast_add = net_mcast_add nl\<rparr>"

subsection \<open>Address vectors\<close>

definition rxe_av_chk_attr :: "rxe_dev \<Rightarrow> ib_ah_attr \<Rightarrow> errno option" where
  "rxe_av_chk_attr dev attr =
     (if ah_port_num attr < 1 \<or> int (length (dev_port dev)) < uint (ah_port_num attr) then Some EINVAL
      else let port = dev_port dev ! unat (ah_port_num attr - 1)
           in if ah_flags attr AND IB_AH_GRH \<noteq> 0 \<and> port_gid_tbl_len port < uint (gr_sgid_index (ah_grh attr))
              then Some EINVAL else None)"

definition rxe_av_from_attr :: "rxe_ifc_ops \<Rightarrow> rxe_dev \<Rightarrow> u8 \<Rightarrow> ib_ah_attr \<Rightarrow> int \<times> rxe_av" where
  "rxe_av_from_attr ifc dev port_num attr =
     ifc_init_av ifc attr \<lparr>av_attr = attr\<lparr>ah_port_num := port_num\<rparr>, av_ll_addr = replicate 6 0\<rparr> dev"

definition rxe_av_to_attr :: "rxe_av \<Rightarrow> ib_ah_attr" where
  "rxe_av_to_attr av = av_attr av"

subsection \<open>Facts\<close>

lemma net_ifc_good:
  assumes "\<And>skb dev. \<not> nl_stopped nl skb dev" and "\<And>skb dev. nl_xmit nl skb dev = (0, dev\<lparr>dev_sent := dev_sent dev @ [skb]\<rparr>)"
    and "\<And>skb dev. nl_rcv nl skb dev = (0, dev\<lparr>dev_sent := dev_sent dev @ [skb]\<rparr>)"
  shows "good_ifc (net_ifc_ops nl)"
  using assms by (simp add: good_ifc_def net_ifc_ops_def net_send_def net_loopback_def)

lemma gid_raw_load64:
  "gid_raw (p, load64 m 0) 8 = m 0" "gid_raw (p, load64 m 0) 9 = m 1" "gid_raw (p, load64 m 0) 10 = m 2"
  "gid_raw (p, load64 m 0) 13 = m 5" "gid_raw (p, load64 m 0) 14 = m 6" "gid_raw (p, load64 m 0) 15 = m 7"
  by (rule bit_word_eqI; auto simp: gid_raw_def load64_def load32_def load16_def bit_simps dest: bit_imp_le_length)+

subsection \<open>Properties\<close>

text \<open>
  C34: addresses round-trip. The interface identifier a device derives from its Ethernet address
  gives, under the link-local prefix, an address vector with exactly that Ethernet address.
\<close>

theorem net_init_av_eui64:
  assumes "length mac = 6" and "ah_flags attr AND IB_AH_GRH \<noteq> 0"
    and "gr_dgid (ah_grh attr) = (0x80fe, rxe_mac_to_eui64 mac)"
  shows "rxe_av_from_attr (net_ifc_ops nl) dev port attr = (0, \<lparr>av_attr = attr\<lparr>ah_port_num := port\<rparr>, av_ll_addr = mac\<rparr>)"
proof -
  obtain a b c d e f where m: "mac = [a, b, c, d, e, f]"
    using assms(1) by (auto simp: numeral_eq_Suc length_Suc_conv)
  have "rdma_get_ll_mac (0x80fe, rxe_mac_to_eui64 mac) = mac"
    unfolding rdma_get_ll_mac_def rxe_mac_to_eui64_def m gid_raw_load64 by (simp add: xor.assoc)
  moreover have "rdma_link_local_addr (0x80fe, i)" for i by (simp add: rdma_link_local_addr_def) code_simp
  ultimately show ?thesis using assms(2,3)
    by (simp add: rxe_av_from_attr_def net_ifc_ops_def net_init_av_def)
qed

definition sample_net :: net_layer where
  "sample_net = \<lparr>nl_stopped = (\<lambda>skb dev. False), nl_xmit = (\<lambda>skb dev. (0, dev\<lparr>dev_sent := dev_sent dev @ [skb]\<rparr>)),
     nl_rcv = (\<lambda>skb dev. (0, dev\<lparr>dev_sent := dev_sent dev @ [skb]\<rparr>)), nl_alloc_skb = (\<lambda>len. Some (sample_ack 0)),
     nl_reserved_space = 16, nl_mcast_add = (\<lambda>mac dev. 0), nl_mad_grh_fix = True\<rparr>"

theorem net_init_av_eui64_witness:
  "rxe_av_from_attr (net_ifc_ops sample_net) sample_dev 1 ((av_attr sample_av)
       \<lparr>ah_grh := (ah_grh (av_attr sample_av))\<lparr>gr_dgid := (0x80fe, rxe_mac_to_eui64 [0, 0x1e, 6, 1, 2, 3])\<rparr>\<rparr>)
     = (0, \<lparr>av_attr = (av_attr sample_av)\<lparr>ah_grh := (ah_grh (av_attr sample_av))
         \<lparr>gr_dgid := (0x80fe, rxe_mac_to_eui64 [0, 0x1e, 6, 1, 2, 3])\<rparr>, ah_port_num := 1\<rparr>, av_ll_addr = [0, 0x1e, 6, 1, 2, 3]\<rparr>)"
  by (subst net_init_av_eui64 [of "[0, 0x1e, 6, 1, 2, 3]"]) (simp_all add: sample_av_def)

end
