(* ===== verification/Rxe_Req.thy ===== *)
theory Rxe_Req
  imports Rxe_Comp Rxe_Net
begin

text \<open>
  The requester of a queue pair, \<open>rxe_req.c\<close>: each run takes the current work request, chooses
  the opcode of its next packet, builds and fills the packet and passes it on. The record
  \<open>run_ctx\<close> is the context of a run: the interface layer, the interrupt state, the address of the
  buffers on the stack (which only the alignment inside the CRC routine sees), \<open>skb_clone\<close>, which may
  fail, and what a direct run of the arbiter's task does. A result \<open>None\<close> is an access outside a structure or a loop that
  does not end.
\<close>

record run_ctx =
  cx_ifc :: rxe_ifc_ops
  cx_in_irq :: bool
  cx_irqs_disabled :: bool
  cx_stack :: nat
  cx_clone :: "sk_buff \<Rightarrow> sk_buff option"
  cx_arbiter :: "rxe_qp \<times> rxe_dev \<Rightarrow> (rxe_qp \<times> rxe_dev) option"

subsection \<open>Choosing the opcode\<close>

text \<open>The common shape of the cases: inside a message the middle or the last opcode, at its start
  the first or the only one.\<close>

definition seq_opcode :: "rxe_qp \<Rightarrow> bool \<Rightarrow> u8 \<Rightarrow> u8 \<Rightarrow> u8 \<Rightarrow> u8 \<Rightarrow> int" where
  "seq_opcode qp fits op_first op_middle op_last op_only =
     (if req_opcode (qp_req qp) = uint op_first \<or> req_opcode (qp_req qp) = uint op_middle
      then if fits then uint op_last else uint op_middle
      else if fits then uint op_only else uint op_first)"

definition next_opcode_rc :: "rxe_qp \<Rightarrow> u32 \<Rightarrow> bool \<Rightarrow> int" where
  "next_opcode_rc qp opcode fits =
     (if opcode = IB_WR_RDMA_WRITE then seq_opcode qp fits IB_OPCODE_RC_RDMA_WRITE_FIRST IB_OPCODE_RC_RDMA_WRITE_MIDDLE
        IB_OPCODE_RC_RDMA_WRITE_LAST IB_OPCODE_RC_RDMA_WRITE_ONLY
      else if opcode = IB_WR_RDMA_WRITE_WITH_IMM then seq_opcode qp fits IB_OPCODE_RC_RDMA_WRITE_FIRST
        IB_OPCODE_RC_RDMA_WRITE_MIDDLE IB_OPCODE_RC_RDMA_WRITE_LAST_WITH_IMMEDIATE IB_OPCODE_RC_RDMA_WRITE_ONLY_WITH_IMMEDIATE
      else if opcode = IB_WR_SEND then seq_opcode qp fits IB_OPCODE_RC_SEND_FIRST IB_OPCODE_RC_SEND_MIDDLE
        IB_OPCODE_RC_SEND_LAST IB_OPCODE_RC_SEND_ONLY
      else if opcode = IB_WR_SEND_WITH_IMM then seq_opcode qp fits IB_OPCODE_RC_SEND_FIRST IB_OPCODE_RC_SEND_MIDDLE
        IB_OPCODE_RC_SEND_LAST_WITH_IMMEDIATE IB_OPCODE_RC_SEND_ONLY_WITH_IMMEDIATE
      else if opcode = IB_WR_RDMA_READ then uint IB_OPCODE_RC_RDMA_READ_REQUEST
      else if opcode = IB_WR_ATOMIC_CMP_AND_SWP then uint IB_OPCODE_RC_COMPARE_SWAP
      else if opcode = IB_WR_ATOMIC_FETCH_AND_ADD then uint IB_OPCODE_RC_FETCH_ADD
      else if opcode = IB_WR_SEND_WITH_INV then seq_opcode qp fits IB_OPCODE_RC_SEND_FIRST IB_OPCODE_RC_SEND_MIDDLE
        IB_OPCODE_RC_SEND_LAST_INV IB_OPCODE_RC_SEND_ONLY_INV
      else -22)"

definition next_opcode_uc :: "rxe_qp \<Rightarrow> u32 \<Rightarrow> bool \<Rightarrow> int" where
  "next_opcode_uc qp opcode fits =
     (if opcode = IB_WR_RDMA_WRITE then seq_opcode qp fits IB_OPCODE_UC_RDMA_WRITE_FIRST IB_OPCODE_UC_RDMA_WRITE_MIDDLE
        IB_OPCODE_UC_RDMA_WRITE_LAST IB_OPCODE_UC_RDMA_WRITE_ONLY
      else if opcode = IB_WR_RDMA_WRITE_WITH_IMM then seq_opcode qp fits IB_OPCODE_UC_RDMA_WRITE_FIRST
        IB_OPCODE_UC_RDMA_WRITE_MIDDLE IB_OPCODE_UC_RDMA_WRITE_LAST_WITH_IMMEDIATE IB_OPCODE_UC_RDMA_WRITE_ONLY_WITH_IMMEDIATE
      else if opcode = IB_WR_SEND then seq_opcode qp fits IB_OPCODE_UC_SEND_FIRST IB_OPCODE_UC_SEND_MIDDLE
        IB_OPCODE_UC_SEND_LAST IB_OPCODE_UC_SEND_ONLY
      else if opcode = IB_WR_SEND_WITH_IMM then seq_opcode qp fits IB_OPCODE_UC_SEND_FIRST IB_OPCODE_UC_SEND_MIDDLE
        IB_OPCODE_UC_SEND_LAST_WITH_IMMEDIATE IB_OPCODE_UC_SEND_ONLY_WITH_IMMEDIATE
      else -22)"

definition next_opcode :: "rxe_qp \<Rightarrow> rxe_send_wqe \<Rightarrow> u32 \<Rightarrow> int" where
  "next_opcode qp w opcode =
     (let fits = dma_resid (wqe_dma w) \<le> qp_mtu qp
      in case qp_type qp of
           IB_QPT_RC \<Rightarrow> next_opcode_rc qp opcode fits
         | IB_QPT_UC \<Rightarrow> next_opcode_uc qp opcode fits
         | _ \<Rightarrow> if qp_type qp = IB_QPT_SMI \<or> qp_type qp = IB_QPT_UD \<or> qp_type qp = IB_QPT_GSI
               then if opcode = IB_WR_SEND then uint IB_OPCODE_UD_SEND_ONLY
                    else if opcode = IB_WR_SEND_WITH_IMM then uint IB_OPCODE_UD_SEND_ONLY_WITH_IMMEDIATE else -22
               else -22)"

subsection \<open>Retries\<close>

text \<open>One round of \<open>retry_first_write_send\<close>.\<close>

definition retry_skip :: "u32 \<Rightarrow> u32 \<Rightarrow> rxe_qp \<Rightarrow> rxe_qp option" where
  "retry_skip wmask a qp =
     (let w = get_send_wqe qp a; dma = wqe_dma w;
          to_send = (if qp_mtu qp < dma_resid dma then qp_mtu qp else dma_resid dma);
          qp = qp\<lparr>qp_req := (qp_req qp)\<lparr>req_opcode := next_opcode qp w (wr_opcode (wqe_ibwr w))\<rparr>\<rparr>
      in case (if wr_send_flags (wqe_ibwr w) AND IB_SEND_INLINE \<noteq> 0
               then Some (dma\<lparr>dma_resid := dma_resid dma - to_send, dma_sge_offset := dma_sge_offset dma + to_send\<rparr>)
               else map_option snd (advance_dma_data dma to_send)) of
           None \<Rightarrow> None
         | Some dma \<Rightarrow> Some (put_send_wqe a (w\<lparr>wqe_dma := dma,
             wqe_iova := wqe_iova w + (if wmask AND WR_WRITE_MASK \<noteq> 0 then ucast (qp_mtu qp) else 0)\<rparr>) qp))"

primrec retry_first_write_send :: "nat \<Rightarrow> u32 \<Rightarrow> u32 \<Rightarrow> rxe_qp \<Rightarrow> rxe_qp option" where
  "retry_first_write_send 0 wmask a qp = Some qp"
| "retry_first_write_send (Suc npsn) wmask a qp =
     (case retry_skip wmask a qp of None \<Rightarrow> None | Some qp \<Rightarrow> retry_first_write_send npsn wmask a qp)"

text \<open>The body of the loop for a request that has been started and is not done.\<close>

definition retry_wqe :: "bool \<Rightarrow> nat \<Rightarrow> u32 \<Rightarrow> u32 \<Rightarrow> rxe_qp \<Rightarrow> rxe_qp option" where
  "retry_wqe first npsn wmask a qp =
     (let w = get_send_wqe qp a;
          w = w\<lparr>wqe_iova := if wmask AND WR_ATOMIC_MASK \<noteq> 0 then wr_atomic_remote_addr (wqe_ibwr w)
                 else wr_rdma_remote_addr (wqe_ibwr w)\<rparr>;
          w = (if \<not> first \<or> wmask AND WR_READ_MASK = 0
               then w\<lparr>wqe_dma := (wqe_dma w)\<lparr>dma_resid := dma_length (wqe_dma w), dma_cur_sge := 0, dma_sge_offset := 0\<rparr>\<rparr>
               else w);
          qp = put_send_wqe a w qp
      in case (if first \<and> wmask AND WR_WRITE_OR_SEND_MASK \<noteq> 0 then retry_first_write_send npsn wmask a qp else Some qp) of
           None \<Rightarrow> None
         | Some qp \<Rightarrow>
             let w = get_send_wqe qp a;
                 w = (if first \<and> wmask AND WR_READ_MASK \<noteq> 0
                      then w\<lparr>wqe_iova := wqe_iova w + ucast (of_nat npsn * qp_mtu qp)\<rparr> else w)
             in Some (put_send_wqe a (w\<lparr>wqe_state := wqe_state_posted\<rparr>) qp))"

partial_function (option) req_retry_loop :: "nat \<Rightarrow> bool \<Rightarrow> u32 \<Rightarrow> rxe_qp \<Rightarrow> rxe_qp option" where
  "req_retry_loop npsn first wqe_index qp =
     (let q = qp_sendq qp; a = addr_from_index q wqe_index; w = get_send_wqe qp a
      in if wqe_index = producer_index q then Some qp
         else case wr_opcode_mask (wr_opcode (wqe_ibwr w)) qp of None \<Rightarrow> None
           | Some wmask \<Rightarrow>
               if wqe_state w = wqe_state_posted then Some qp
               else if wqe_state w = wqe_state_done then req_retry_loop npsn first (next_index q wqe_index) qp
               else case retry_wqe first npsn wmask a qp of None \<Rightarrow> None
                 | Some qp \<Rightarrow> req_retry_loop npsn False (next_index q wqe_index) qp)"

text \<open>The head of the queue is read before it is known to exist.\<close>

definition req_retry :: "rxe_qp \<Rightarrow> rxe_qp option" where
  "req_retry qp = (case queue_head (qp_sendq qp) of None \<Rightarrow> None
     | Some a \<Rightarrow>
         let npsn = unat ((comp_psn (qp_comp qp) - wqe_first_psn (get_send_wqe qp a)) AND BTH_PSN_MASK);
             qp = qp\<lparr>qp_req := (qp_req qp)\<lparr>req_wqe_index := consumer_index (qp_sendq qp), req_psn := comp_psn (qp_comp qp),
                    req_opcode := -1\<rparr>\<rparr>
         in req_retry_loop npsn True (consumer_index (qp_sendq qp)) qp)"

definition rnr_nak_timer :: "rxe_qp \<Rightarrow> rxe_qp" where
  "rnr_nak_timer qp = run_req_task qp"

subsection \<open>The next request\<close>

definition req_drained :: "rxe_qp \<times> rxe_dev \<Rightarrow> rxe_qp \<times> rxe_dev" where
  "req_drained qd = (case qd of (qp, dev) \<Rightarrow>
     if req_state (qp_req qp) \<noteq> QP_STATE_DRAIN then (qp, dev)
     else case queue_head (qp_sendq qp) of
         Some a \<Rightarrow> if req_wqe_index (qp_req qp) \<noteq> consumer_index (qp_sendq qp)
               \<or> wqe_state (get_send_wqe qp a) \<noteq> wqe_state_posted then (qp, dev)
             else (qp\<lparr>qp_req := (qp_req qp)\<lparr>req_state := QP_STATE_DRAINED\<rparr>\<rparr>,
                   if qp_event_handler qp then send_event (IB_EVENT_SQ_DRAINED (qp_self qp)) dev else dev)
       | None \<Rightarrow> (qp\<lparr>qp_req := (qp_req qp)\<lparr>req_state := QP_STATE_DRAINED\<rparr>\<rparr>,
           if qp_event_handler qp then send_event (IB_EVENT_SQ_DRAINED (qp_self qp)) dev else dev))"

definition req_next_wqe :: "rxe_qp \<times> rxe_dev \<Rightarrow> (u32 option \<times> rxe_qp \<times> rxe_dev) option" where
  "req_next_wqe qd = (case req_drained qd of (qp, dev) \<Rightarrow>
     let q = qp_sendq qp; a = addr_from_index q (req_wqe_index (qp_req qp)); w = get_send_wqe qp a
     in if req_wqe_index (qp_req qp) = producer_index q then Some (None, qp, dev)
        else if (req_state (qp_req qp) = QP_STATE_DRAIN \<or> req_state (qp_req qp) = QP_STATE_DRAINED)
            \<and> wqe_state w \<noteq> wqe_state_processing then Some (None, qp, dev)
        else if wr_send_flags (wqe_ibwr w) AND IB_SEND_FENCE \<noteq> 0 \<and> req_wqe_index (qp_req qp) \<noteq> consumer_index q
        then Some (None, qp\<lparr>qp_req := (qp_req qp)\<lparr>req_wait_fence := True\<rparr>\<rparr>, dev)
        else case wr_opcode_mask (wr_opcode (wqe_ibwr w)) qp of None \<Rightarrow> None
          | Some wmask \<Rightarrow> Some (Some a, put_send_wqe a (w\<lparr>wqe_mask := wmask\<rparr>) qp, dev))"

definition check_init_depth :: "u32 \<Rightarrow> rxe_qp \<Rightarrow> bool \<times> rxe_qp" where
  "check_init_depth a qp =
     (let w = get_send_wqe qp a; depth = req_rd_atomic (qp_req qp) - 1
      in if wqe_has_rd_atomic w \<noteq> 0 then (False, qp)
         else if 0 \<le> depth
         then (False, put_send_wqe a (w\<lparr>wqe_has_rd_atomic := 1\<rparr>)
                (qp\<lparr>qp_req := (qp_req qp)\<lparr>req_rd_atomic := depth, req_need_rd_atomic := False\<rparr>\<rparr>))
         else (True, qp\<lparr>qp_req := (qp_req qp)\<lparr>req_need_rd_atomic := True\<rparr>\<rparr>))"

text \<open>The port numbers of a queue pair and of an address vector start at 1.\<close>

definition port_of :: "rxe_dev \<Rightarrow> u8 \<Rightarrow> rxe_port option" where
  "port_of dev n = (if n \<noteq> 0 \<and> unat n \<le> length (dev_port dev) then Some (dev_port dev ! (unat n - 1)) else None)"

definition nth_opt :: "'a list \<Rightarrow> nat \<Rightarrow> 'a option" where
  "nth_opt xs i = (if i < length xs then Some (xs ! i) else None)"

definition get_mtu :: "rxe_dev \<Rightarrow> rxe_qp \<Rightarrow> rxe_send_wqe \<Rightarrow> int option" where
  "get_mtu dev qp w = (if qp_type qp = IB_QPT_RC \<or> qp_type qp = IB_QPT_UC then Some (sint (qp_mtu qp))
     else map_option (\<lambda>port. sint (port_mtu_cap port)) (port_of dev (ah_port_num (av_attr (wqe_av w)))))"

subsection \<open>Building a packet\<close>

definition pad_len :: "int \<Rightarrow> int" where
  "pad_len payload = (- payload) AND 3"

text \<open>The local and the global route header.\<close>

definition init_lrh :: "int \<Rightarrow> rxe_av \<Rightarrow> rxe_port \<Rightarrow> rxe_pkt_info \<Rightarrow> rxe_pkt_info" where
  "init_lrh paylen av port pkt =
     (if pkt_mask pkt AND RXE_LRH_MASK \<noteq> 0
      then let grh = pkt_mask pkt AND RXE_GRH_MASK \<noteq> 0;
               pkt = pkt\<lparr>pkt_offset := pkt_offset pkt + 8\<rparr>;
               len = paylen + RXE_LRH_BYTES + (if grh then RXE_GRH_BYTES else 0)
           in lrh_init pkt (ah_sl (av_attr av)) (ah_sl (av_attr av)) (if grh then LRH_LNH_IBA_GBL else LRH_LNH_IBA_LOC)
                (word_of_int (len div 4)) (ah_dlid (av_attr av)) (port_lid port)
      else pkt)"

definition init_grh :: "int \<Rightarrow> rxe_av \<Rightarrow> rxe_port \<Rightarrow> rxe_pkt_info \<Rightarrow> rxe_pkt_info option" where
  "init_grh paylen av port pkt =
     (if pkt_mask pkt AND RXE_GRH_MASK \<noteq> 0
      then let grh = ah_grh (av_attr av);
               pkt = grh_init (pkt\<lparr>pkt_offset := pkt_offset pkt + 40\<rparr>) 0 0 (word_of_int paylen) 0
           in map_option (\<lambda>guid. grh_set_dgid (grh_set_sgid pkt (port_subnet_prefix port) guid)
                (fst (gr_dgid grh)) (snd (gr_dgid grh))) (nth_opt (port_guid_tbl port) (unat (gr_sgid_index grh)))
      else Some pkt)"

abbreviation (input) GSI_QKEY :: u32 where "GSI_QKEY \<equiv> 0x80010000"

text \<open>The extension headers.\<close>

definition init_ext_hdrs :: "rxe_qp \<Rightarrow> rxe_send_wqe \<Rightarrow> rxe_pkt_info \<Rightarrow> rxe_pkt_info" where
  "init_ext_hdrs qp w pkt =
     (let ibwr = wqe_ibwr w; mask = pkt_mask pkt;
          pkt = (if mask AND RXE_RETH_MASK \<noteq> 0
                 then reth_set_len (reth_set_va (reth_set_rkey pkt (wr_rdma_rkey ibwr)) (wqe_iova w)) (dma_length (wqe_dma w))
                 else pkt);
          pkt = (if mask AND RXE_IMMDT_MASK \<noteq> 0 then immdt_set_imm pkt (wr_ex ibwr) else pkt);
          pkt = (if mask AND RXE_IETH_MASK \<noteq> 0 then ieth_set_rkey pkt (wr_ex ibwr) else pkt);
          pkt = (if mask AND RXE_ATMETH_MASK \<noteq> 0
                 then let pkt = atmeth_set_va pkt (wqe_iova w);
                          pkt = (if pkt_opcode pkt = IB_OPCODE_RC_COMPARE_SWAP \<or> pkt_opcode pkt = IB_OPCODE_RD_COMPARE_SWAP
                                 then atmeth_set_comp (atmeth_set_swap_add pkt (wr_atomic_swap ibwr)) (wr_atomic_compare_add ibwr)
                                 else atmeth_set_swap_add pkt (wr_atomic_compare_add ibwr))
                      in atmeth_set_rkey pkt (wr_atomic_rkey ibwr)
                 else pkt)
      in if mask AND RXE_DETH_MASK \<noteq> 0
         then deth_set_sqp (deth_set_qkey pkt (if qp_num qp = 1 then GSI_QKEY else wr_ud_remote_qkey ibwr)) (qp_num qp)
         else pkt)"

text \<open>Whether the packet asks for an acknowledgement, and the count of packets that did not.\<close>

definition ack_request :: "rxe_dev \<Rightarrow> rxe_pkt_info \<Rightarrow> rxe_qp \<Rightarrow> bool \<times> rxe_qp" where
  "ack_request dev pkt qp =
     (let no_end = pkt_mask pkt AND RXE_END_MASK = 0;
          ack_req = (\<not> no_end \<or> par_max_pkt_per_ack (dev_param dev) < req_noack_pkts (qp_req qp));
          n = req_noack_pkts (qp_req qp) + (if no_end then 1 else 0)
      in (ack_req, qp\<lparr>qp_req := (qp_req qp)\<lparr>req_noack_pkts := if ack_req then 0 else n\<rparr>\<rparr>))"

definition init_req_packet ::
    "rxe_ifc_ops \<Rightarrow> rxe_send_wqe \<Rightarrow> u8 \<Rightarrow> int \<Rightarrow> rxe_qp \<times> rxe_dev \<Rightarrow> (sk_buff option \<times> rxe_qp \<times> rxe_dev) option" where
  "init_req_packet ifc w opcode payload qd = (case qd of (qp, dev) \<Rightarrow>
     let pad = pad_len payload; info = rxe_opcode opcode;
         paylen = oi_length info + payload + pad + RXE_ICRC_SIZE;
         align = oi_length info AND 15;
         av = (if qp_type qp = IB_QPT_RC \<or> qp_type qp = IB_QPT_UC then qp_pri_av qp else wqe_av w);
         ibwr = wqe_ibwr w
     in case ifc_init_packet ifc av paylen align dev of None \<Rightarrow> Some (None, qp, dev)
     | Some skb \<Rightarrow>
       (case port_of dev (at_port_num (qp_attr qp)) of None \<Rightarrow> None
        | Some port \<Rightarrow>
          let qp = qp\<lparr>qp_req_skb_out := qp_req_skb_out qp + 1\<rparr>;
              dev = dev\<lparr>dev_req_skb_out := dev_req_skb_out dev + 1\<rparr>;
              pkt = (skb_pkt skb)\<lparr>pkt_opcode := opcode, pkt_psn := req_psn (qp_req qp),
                 pkt_mask := pkt_mask (skb_pkt skb) OR oi_mask info, pkt_paylen := word_of_int paylen, pkt_offset := 0\<rparr>;
              mask = pkt_mask pkt
          in case (init_grh paylen av port (init_lrh paylen av port pkt),
                nth_opt (port_pkey_tbl port) (unat (if qp_type qp = IB_QPT_GSI then wr_ud_pkey_index ibwr
                  else at_pkey_index (qp_attr qp)))) of
            (Some pkt, Some pkey) \<Rightarrow>
              let solicited = (if wr_send_flags ibwr AND IB_SEND_SOLICITED \<noteq> 0 \<and> mask AND RXE_END_MASK \<noteq> 0
                    \<and> (mask AND RXE_SEND_MASK \<noteq> 0
                       \<or> mask AND (RXE_WRITE_MASK OR RXE_IMMDT_MASK) = RXE_WRITE_MASK OR RXE_IMMDT_MASK) then 1 else 0);
                  qp_num = (if mask AND RXE_DETH_MASK \<noteq> 0 then wr_ud_remote_qpn ibwr else at_dest_qp_num (qp_attr qp))
              in (case ack_request dev pkt qp of (ack_req, qp) \<Rightarrow>
                  let pkt = bth_init pkt (pkt_opcode pkt) solicited 0 pad pkey qp_num (if ack_req then 1 else 0) (pkt_psn pkt);
                      pkt = init_ext_hdrs qp w pkt
                  in Some (Some (skb\<lparr>skb_pkt := pkt, skb_qp := Some (qp_self qp)\<rparr>), qp, dev))
          | _ \<Rightarrow> None))"

text \<open>\<open>memcpy\<close> of a list of bytes into the packet.\<close>

primrec put_bytes :: "u8 list \<Rightarrow> int \<Rightarrow> bytes \<Rightarrow> bytes" where
  "put_bytes [] p m = m"
| "put_bytes (b # bs) p m = put_bytes bs (p + 1) (m(p := b))"

text \<open>The payload of a send or write: the bytes and the code so far, \<open>None\<close> on a copy error.\<close>

definition fill_payload ::
    "nat \<Rightarrow> u32 \<Rightarrow> rxe_pkt_info \<Rightarrow> int \<Rightarrow> u32 option \<Rightarrow> rxe_qp \<times> rxe_dev
     \<Rightarrow> ((bytes \<times> u32 option) option \<times> rxe_qp \<times> rxe_dev) option" where
  "fill_payload fa a pkt payload crc qd = (case qd of (qp, dev) \<Rightarrow>
     let w = get_send_wqe qp a; dma = wqe_dma w
     in if wr_send_flags (wqe_ibwr w) AND IB_SEND_INLINE \<noteq> 0
        then let bs = bytes_list (dma_inline dma) (uint (dma_sge_offset dma)) (nat payload);
                 dma = dma\<lparr>dma_resid := dma_resid dma - word_of_int payload, dma_sge_offset := dma_sge_offset dma + word_of_int payload\<rparr>
             in Some (Some (put_bytes bs (payload_addr pkt) (pkt_hdr pkt), map_option (\<lambda>crc. crc32_le crc fa bs) crc),
                      put_send_wqe a (w\<lparr>wqe_dma := dma\<rparr>) qp, dev)
        else case copy_data (qp_pd qp) 0 dma (pkt_hdr pkt) (payload_addr pkt) payload direction_out crc (dev_mem dev) of
               None \<Rightarrow> None
             | Some (ret, dma, hdr, crc, md) \<Rightarrow>
                 Some (if ret = None then Some (hdr, crc) else None, put_send_wqe a (w\<lparr>wqe_dma := dma\<rparr>) qp, dev\<lparr>dev_mem := md\<rparr>))"

text \<open>\<open>p\<close> points to bytes, so the last assignment stores one byte of the code. The code stays 0
  when checking is disabled.\<close>

definition fill_packet ::
    "nat \<Rightarrow> u32 \<Rightarrow> sk_buff \<Rightarrow> int \<Rightarrow> rxe_qp \<times> rxe_dev \<Rightarrow> (sk_buff option \<times> rxe_qp \<times> rxe_dev) option" where
  "fill_packet fa a skb payload qd =
     (let pkt = skb_pkt skb;
          crc = (if par_crc_disable (dev_param (snd qd)) then None else Some (rxe_icrc_hdr fa (skb_addr skb) pkt))
      in case (if pkt_mask pkt AND RXE_WRITE_OR_SEND \<noteq> 0 then fill_payload fa a pkt payload crc qd
               else Some (Some (pkt_hdr pkt, crc), qd)) of
           None \<Rightarrow> None
         | Some (None, qd) \<Rightarrow> Some (None, qd)
         | Some (Some (hdr, crc), qd) \<Rightarrow>
             let p = payload_addr pkt + payload; pad = pad_len payload; zeros = replicate (nat pad) 0;
                 crc = map_option (\<lambda>crc. if pad \<noteq> 0 then crc32_le crc fa zeros else crc) crc;
                 hdr = put_bytes zeros p hdr;
                 hdr = hdr(p + pad := ucast (NOT (case crc of None \<Rightarrow> 0 | Some crc \<Rightarrow> crc)))
             in Some (Some (skb\<lparr>skb_pkt := pkt\<lparr>pkt_hdr := hdr\<rparr>\<rparr>), qd))"

subsection \<open>State after a packet\<close>

definition update_state :: "u32 \<Rightarrow> rxe_pkt_info \<Rightarrow> int \<Rightarrow> rxe_qp \<times> rxe_dev \<Rightarrow> rxe_qp" where
  "update_state a pkt payload qd = (case qd of (qp, dev) \<Rightarrow>
     let w = get_send_wqe qp a; mask = pkt_mask pkt; psn = req_psn (qp_req qp);
         num_pkt = (dma_resid (wqe_dma w) + word_of_int payload + qp_mtu qp - 1) div qp_mtu qp;
         num_pkt = (if num_pkt = 0 then 1 else num_pkt);
         w = (if mask AND RXE_START_MASK \<noteq> 0
              then w\<lparr>wqe_first_psn := psn, wqe_last_psn := (psn + num_pkt - 1) AND BTH_PSN_MASK\<rparr> else w);
         req = (qp_req qp)\<lparr>req_psn := (if mask AND RXE_READ_MASK \<noteq> 0 then wqe_first_psn w + num_pkt else psn + 1) AND BTH_PSN_MASK,
           req_opcode := uint (pkt_opcode pkt)\<rparr>;
         fin = mask AND RXE_END_MASK \<noteq> 0;
         w = w\<lparr>wqe_state := if fin then (if qp_type qp = IB_QPT_RC then wqe_state_pending else wqe_state_done)
                else wqe_state_processing\<rparr>;
         req = (if fin then req\<lparr>req_wqe_index := next_index (qp_sendq qp) (req_wqe_index req)\<rparr> else req);
         qp = put_send_wqe a w (qp\<lparr>qp_req := req\<rparr>)
     in if qp_timeout_jiffies qp \<noteq> 0 \<and> qp_retrans_timer qp = None
        then qp\<lparr>qp_retrans_timer := Some (ucast (ucast (dev_jiffies dev) + qp_timeout_jiffies qp))\<rparr> else qp)"

subsection \<open>The requester\<close>

text \<open>\<open>while (rxe_completer(qp) == 0);\<close>\<close>

partial_function (option) run_completer :: "rxe_qp \<times> rxe_dev \<Rightarrow> (rxe_qp \<times> rxe_dev) option" where
  "run_completer qd = (case rxe_completer qd of None \<Rightarrow> None
     | Some (ret, qd) \<Rightarrow> if ret = 0 then run_completer qd else Some qd)"

definition req_complete :: "rxe_qp \<times> rxe_dev \<Rightarrow> (int \<times> rxe_qp \<times> rxe_dev) option" where
  "req_complete qd = map_option (Pair 0) (if qp_type (fst qd) \<noteq> IB_QPT_RC then run_completer qd else Some qd)"

text \<open>A datagram longer than the path allows is completed without being sent.\<close>

definition fake_ud_send :: "u32 \<Rightarrow> rxe_qp \<Rightarrow> rxe_qp" where
  "fake_ud_send a qp =
     (let psn = req_psn (qp_req qp)
      in put_send_wqe a ((get_send_wqe qp a)\<lparr>wqe_first_psn := psn, wqe_last_psn := psn, wqe_state := wqe_state_done,
             wqe_status := IB_WC_SUCCESS\<rparr>)
           (qp\<lparr>qp_req := (qp_req qp)\<lparr>req_psn := (psn + 1) AND BTH_PSN_MASK, req_opcode := uint IB_OPCODE_UD_SEND_ONLY,
             req_wqe_index := next_index (qp_sendq qp) (req_wqe_index (qp_req qp))\<rparr>\<rparr>))"

text \<open>From the packet to the end of the run.\<close>

definition send_packet :: "run_ctx \<Rightarrow> sk_buff \<Rightarrow> rxe_qp \<times> rxe_dev \<Rightarrow> (rxe_qp \<times> rxe_dev) option" where
  "send_packet cx skb qd = (if par_bypass_arbiter (dev_param (snd qd))
     then map_option snd (xmit_one_packet (cx_ifc cx) skb qd)
     else case arbiter_skb_queue (cx_in_irq cx) (cx_irqs_disabled cx) skb qd of
       (qd, direct) \<Rightarrow> if direct then cx_arbiter cx qd else Some qd)"

definition req_send ::
    "run_ctx \<Rightarrow> u32 \<Rightarrow> u8 \<Rightarrow> int \<Rightarrow> rxe_qp \<times> rxe_dev \<Rightarrow> (int \<times> rxe_qp \<times> rxe_dev) option" where
  "req_send cx a opcode payload qd =
     (case init_req_packet (cx_ifc cx) (get_send_wqe (fst qd) a) opcode payload qd of None \<Rightarrow> None
      | Some (None, qp, dev) \<Rightarrow> Some (minus_EAGAIN, qp\<lparr>qp_need_req_skb := True\<rparr>, dev)
      | Some (Some skb, qd) \<Rightarrow>
        (case fill_packet (cx_stack cx) a skb payload qd of None \<Rightarrow> None
         | Some (None, qp, dev) \<Rightarrow>
             map_option (\<lambda>(ret, qd). (0, qd)) (rxe_completer (put_send_wqe a ((get_send_wqe qp a)
               \<lparr>wqe_status := IB_WC_LOC_PROT_ERR, wqe_state := wqe_state_error\<rparr>) qp, dev))
         | Some (Some skb, qp, dev) \<Rightarrow>
             (case send_packet cx skb (update_state a (skb_pkt skb) payload (qp, dev), dev) of None \<Rightarrow> None
              | Some qd \<Rightarrow> if oi_mask (rxe_opcode opcode) AND RXE_END_MASK \<noteq> 0 then req_complete qd else Some (0, qd))))"

definition rxe_requester :: "run_ctx \<Rightarrow> rxe_qp \<times> rxe_dev \<Rightarrow> (int \<times> rxe_qp \<times> rxe_dev) option" where
  "rxe_requester cx qd = (case qd of (qp, dev) \<Rightarrow>
     if \<not> qp_valid qp \<or> req_state (qp_req qp) = QP_STATE_ERROR then Some (minus_EAGAIN, qp, dev)
     else if req_state (qp_req qp) = QP_STATE_RESET
     then Some (minus_EAGAIN, qp\<lparr>qp_req := (qp_req qp)\<lparr>req_wqe_index := consumer_index (qp_sendq qp), req_opcode := -1,
            req_need_rd_atomic := False, req_wait_psn := False, req_need_retry := False\<rparr>\<rparr>, dev)
     else case (if req_need_retry (qp_req qp)
                then map_option (\<lambda>qp. qp\<lparr>qp_req := (qp_req qp)\<lparr>req_need_retry := False\<rparr>\<rparr>) (req_retry qp) else Some qp) of
       None \<Rightarrow> None
     | Some qp \<Rightarrow>
       (case req_next_wqe (qp, dev) of None \<Rightarrow> None
        | Some (None, qd) \<Rightarrow> Some (minus_EAGAIN, qd)
        | Some (Some a, qp, dev) \<Rightarrow>
          if qp_type qp = IB_QPT_RC
             \<and> 0 < psn_compare (req_psn (qp_req qp)) (comp_psn (qp_comp qp) + word_of_int (par_max_req_comp_gap (dev_param dev)))
          then Some (minus_EAGAIN, qp\<lparr>qp_req := (qp_req qp)\<lparr>req_wait_psn := True\<rparr>\<rparr>, dev)
          else if par_max_skb_per_qp (dev_param dev) < qp_req_skb_out qp
          then Some (minus_EAGAIN, qp\<lparr>qp_need_req_skb := True\<rparr>, dev)
          else let w = get_send_wqe qp a; opcode = next_opcode qp w (wr_opcode (wqe_ibwr w))
            in if opcode < 0
               then Some (minus_EAGAIN, put_send_wqe a (w\<lparr>wqe_status := IB_WC_LOC_QP_OP_ERR\<rparr>) qp, dev)
               else let opcode = word_of_int opcode; mask = oi_mask (rxe_opcode opcode)
                 in case (if mask AND RXE_READ_OR_ATOMIC \<noteq> 0 then check_init_depth a qp else (False, qp)) of
                      (True, qp) \<Rightarrow> Some (minus_EAGAIN, qp, dev)
                    | (False, qp) \<Rightarrow>
                      (case get_mtu dev qp w of None \<Rightarrow> None
                       | Some mtu \<Rightarrow>
                         let payload = (if mask AND RXE_WRITE_OR_SEND \<noteq> 0 then sint (dma_resid (wqe_dma w)) else 0)
                         in if mtu < payload \<and> qp_type qp = IB_QPT_UD then req_complete (fake_ud_send a qp, dev)
                            else req_send cx a opcode (min payload mtu) (qp, dev))))"


subsection \<open>The bytes of a request\<close>

lemma adv_concat:
  "adv (map length xss) off n = (k, r) \<Longrightarrow> xss \<noteq> [] \<Longrightarrow> off \<le> length (hd xss) \<Longrightarrow> n \<le> length (concat xss) - off
    \<Longrightarrow> k < length xss \<and> r \<le> length (xss ! k) \<and> drop r (concat (drop k xss)) = drop (off + n) (concat xss)"
proof (induction xss arbitrary: off n k r)
  case Nil
  then show ?case by simp
next
  case (Cons xs xss)
  show ?case
  proof (cases "n \<le> length xs - off")
    case True
    then show ?thesis using Cons.prems by auto
  next
    case False
    let ?n = "n - (length xs - off)"
    obtain k' where k': "adv (map length xss) 0 ?n = (k', r)" "k = Suc k'"
      using Cons.prems(1) False by (auto split: prod.splits)
    have "0 < length (concat xss)" using False Cons.prems(3,4) by (simp del: length_concat length_greater_0_conv)
    then have "xss \<noteq> []" by auto
    then have "k' < length xss \<and> r \<le> length (xss ! k') \<and> drop r (concat (drop k' xss)) = drop (0 + ?n) (concat xss)"
      using k'(1) Cons.prems(3,4) False by (intro Cons.IH) (simp_all add: le_diff_conv)
    moreover have "off + n = length xs + ?n" using Cons.prems(3) False by simp
    ultimately show ?thesis using k'(2) by simp
  qed
qed

lemma dma_adv_wf:
  assumes "dma_wf dma" and "list_all2 (sge_backed md pd access) (drop (unat (dma_cur_sge dma)) (dma_sge dma)) xss" and "n \<le> dma_left dma"
  shows "\<exists>xss'. dma_wf (dma_adv dma n) \<and> list_all2 (sge_backed md pd access) (drop (unat (dma_cur_sge (dma_adv dma n))) (dma_sge (dma_adv dma n))) xss'
    \<and> drop (unat (dma_sge_offset (dma_adv dma n))) (concat xss') = drop (unat (dma_sge_offset dma) + n) (concat xss)
    \<and> dma_left (dma_adv dma n) = dma_left dma - n"
proof -
  let ?c = "unat (dma_cur_sge dma)" and ?o = "unat (dma_sge_offset dma)"
  obtain k r where kr: "adv (sge_lens dma) ?o n = (k, r)" by fastforce
  have lens: "sge_lens dma = map length xss" using backed_lengths [OF assms(2)] by (simp add: sge_lens_def)
  have wf: "length (dma_sge dma) < 4294967296" "dma_num_sge dma = of_nat (length (dma_sge dma))" "?c < length (dma_sge dma)"
    "?o \<le> unat (sge_length (dma_sge dma ! ?c))" "sum_list (sge_lens dma) < 2147483648" using assms(1) by (simp_all add: dma_wf_def)
  have lx: "length xss = length (dma_sge dma) - ?c" using assms(2) by (auto dest!: list_all2_lengthD)
  then have ne: "xss \<noteq> []" using wf(3) by auto
  have nth: "length (xss ! i) = unat (sge_length (dma_sge dma ! (?c + i)))" if "i < length xss" for i
  proof -
    have "map length xss ! i = map (\<lambda>s. unat (sge_length s)) (drop ?c (dma_sge dma)) ! i" using lens by (simp add: sge_lens_def)
    then show ?thesis using that lx wf(3) by simp
  qed
  have "?o \<le> length (hd xss)" using wf(4) nth [of 0] ne by (simp add: hd_conv_nth)
  moreover have left: "dma_left dma = length (concat xss) - ?o" by (simp add: dma_left_def lens length_concat)
  ultimately have a: "k < length xss" "r \<le> length (xss ! k)" "drop r (concat (drop k xss)) = drop (?o + n) (concat xss)"
    using adv_concat [of xss ?o n k r] kr ne assms(3) unfolding lens by auto
  have uof: "unat (of_nat i :: u32) = i" if "i < 4294967296" for i using that by (simp add: unat_of_nat)
  have uk: "unat (dma_cur_sge dma + of_nat k) = ?c + k"
    using a(1) lx wf(1) by (simp add: unat_word_ariths uof)
  have "length (xss ! k) \<le> sum_list (sge_lens dma)" using a(1) unfolding lens by (intro member_le_sum_list) auto
  then have "r \<le> sum_list (sge_lens dma)" using a(2) by simp
  then have ur: "unat (of_nat r :: u32) = r" using wf(5) by (intro uof) simp
  let ?d = "dma_adv dma n"
  have d: "?d = dma\<lparr>dma_cur_sge := dma_cur_sge dma + of_nat k, dma_sge_offset := of_nat r, dma_resid := dma_resid dma - of_nat n\<rparr>"
    by (simp add: dma_adv_def kr)
  have l': "sge_lens ?d = drop k (sge_lens dma)" using uk by (simp add: d sge_lens_def drop_map add.commute [of k])
  have "sum_list (drop k (sge_lens dma)) \<le> sum_list (sge_lens dma)"
    using sum_list_append [of "take k (sge_lens dma)" "drop k (sge_lens dma)"] by simp
  then have "dma_wf ?d" using wf a(1,2) nth [OF a(1)] lx unfolding dma_wf_def l' by (simp add: d uk ur)
  moreover have "list_all2 (sge_backed md pd access) (drop (unat (dma_cur_sge ?d)) (dma_sge ?d)) (drop k xss)"
    using list_all2_dropI [OF assms(2), of k] uk by (simp add: d add.commute [of k])
  moreover have "drop (unat (dma_sge_offset ?d)) (concat (drop k xss)) = drop (?o + n) (concat xss)" using a(3) by (simp add: d ur)
  moreover have "dma_left ?d = dma_left dma - n"
  proof -
    have "dma_left ?d = length (drop r (concat (drop k xss)))"
      unfolding dma_left_def l' by (simp add: lens drop_map length_concat d ur)
    then show ?thesis unfolding a(3) by (simp add: left)
  qed
  ultimately show ?thesis by blast
qed

lemma put_bytes_frame: "q < p \<or> p + int (length bs) \<le> q \<Longrightarrow> put_bytes bs p m q = m q"
  by (induction bs arbitrary: p m) auto

lemma put_bytes_list: "bytes_list (put_bytes bs p m) p (length bs) = bs"
proof (induction bs arbitrary: p m)
  case Nil
  then show ?case by simp
next
  case (Cons b bs)
  have "bytes_list (put_bytes bs (p + 1) (m(p := b))) p (1 + length bs)
      = bytes_list (put_bytes bs (p + 1) (m(p := b))) p 1 @ bytes_list (put_bytes bs (p + 1) (m(p := b))) (p + int 1) (length bs)"
    by (rule bytes_list_add)
  moreover have "bytes_list (put_bytes bs (p + 1) (m(p := b))) p 1 = [b]"
    by (simp add: bytes_list_def put_bytes_frame)
  ultimately show ?case using Cons.IH [of "p + 1" "m(p := b)"] by simp
qed

lemma copy_list_out_put: "fst (copy_list direction_out xs a (m, ram)) = put_bytes (map ram xs) a m"
  by (induction xs arbitrary: a m) simp_all

text \<open>The bytes a request has still to send: inline data, or the memory behind its scatter/gather
  list.\<close>

definition wqe_src :: "nat \<Rightarrow> rxe_mdev \<Rightarrow> rxe_send_wqe \<Rightarrow> u8 list \<Rightarrow> bool" where
  "wqe_src pd md w bs \<longleftrightarrow> (let dma = wqe_dma w in
     length bs < 2147483648 \<and> dma_resid dma = of_nat (length bs)
     \<and> (if wr_send_flags (wqe_ibwr w) AND IB_SEND_INLINE \<noteq> 0
        then uint (dma_sge_offset dma) + int (length bs) < 4294967296
          \<and> bs = bytes_list (dma_inline dma) (uint (dma_sge_offset dma)) (length bs)
        else bs = [] \<or> (dma_wf dma \<and> length bs \<le> dma_left dma \<and> (\<exists>xss.
          list_all2 (sge_backed md pd 0) (drop (unat (dma_cur_sge dma)) (dma_sge dma)) xss
          \<and> bs = map (md_ram md) (take (length bs) (drop (unat (dma_sge_offset dma)) (concat xss)))))))"

lemma sint_of_nat_u32: "n < 2147483648 \<Longrightarrow> sint (of_nat n :: u32) = int n"
  by (simp add: sint_u32 unat_of_nat)

lemma fill_payload_src:
  assumes src: "wqe_src (qp_pd qp) (dev_mem dev) (get_send_wqe qp a) bs" and n: "n \<le> length bs"
  shows "\<exists>crc' dma'. fill_payload fa a pkt (int n) crc (qp, dev)
      = Some (Some (put_bytes (take n bs) (payload_addr pkt) (pkt_hdr pkt), crc'),
          put_send_wqe a ((get_send_wqe qp a)\<lparr>wqe_dma := dma'\<rparr>) qp, dev)
    \<and> dma_length dma' = dma_length (wqe_dma (get_send_wqe qp a))
    \<and> wqe_src (qp_pd qp) (dev_mem dev) ((get_send_wqe qp a)\<lparr>wqe_dma := dma'\<rparr>) (drop n bs)"
proof -
  let ?w = "get_send_wqe qp a" and ?md = "dev_mem dev"
  let ?dma = "wqe_dma ?w"
  have l: "length bs < 2147483648" "dma_resid ?dma = of_nat (length bs)" using src by (simp_all add: wqe_src_def Let_def)
  have resid: "dma_resid ?dma - of_nat n = of_nat (length (drop n bs))" using n l(2) by (simp add: of_nat_diff)
  show ?thesis
  proof (cases "wr_send_flags (wqe_ibwr ?w) AND IB_SEND_INLINE \<noteq> 0")
    case True
    let ?d = "?dma\<lparr>dma_resid := dma_resid ?dma - of_nat n, dma_sge_offset := dma_sge_offset ?dma + of_nat n\<rparr>"
    have i: "uint (dma_sge_offset ?dma) + int (length bs) < 4294967296"
      and b: "bs = bytes_list (dma_inline ?dma) (uint (dma_sge_offset ?dma)) (length bs)"
      using src True by (simp_all add: wqe_src_def Let_def)
    have "bytes_list (dma_inline ?dma) (uint (dma_sge_offset ?dma)) (n + (length bs - n)) = bs" using b n by simp
    then have s: "bytes_list (dma_inline ?dma) (uint (dma_sge_offset ?dma)) n = take n bs"
      "bytes_list (dma_inline ?dma) (uint (dma_sge_offset ?dma) + int n) (length bs - n) = drop n bs"
      unfolding bytes_list_add using n by (auto simp: append_eq_conv_conj)
    have o: "uint (dma_sge_offset ?dma + of_nat n) = uint (dma_sge_offset ?dma) + int n"
    proof -
      have "n < 4294967296" using l(1) n by simp
      then have "uint (of_nat n :: u32) = int n" by (simp add: unsigned_of_nat take_bit_nat_eq_self)
      then show ?thesis using i n by (subst uint_add_lem [THEN iffD1]) simp_all
    qed
    have "wqe_src (qp_pd qp) ?md (?w\<lparr>wqe_dma := ?d\<rparr>) (drop n bs)"
      using True i n l s(2) resid by (simp add: wqe_src_def Let_def o)
    moreover have "fill_payload fa a pkt (int n) crc (qp, dev)
        = Some (Some (put_bytes (take n bs) (payload_addr pkt) (pkt_hdr pkt), map_option (\<lambda>crc. crc32_le crc fa (take n bs)) crc),
            put_send_wqe a (?w\<lparr>wqe_dma := ?d\<rparr>) qp, dev)"
      using True s(1) by (simp add: fill_payload_def Let_def)
    ultimately show ?thesis by (intro exI [of _ "map_option (\<lambda>crc. crc32_le crc fa (take n bs)) crc"] exI [of _ ?d]) simp
  next
    case False
    show ?thesis
    proof (cases "n = 0")
      case True
      then have "fill_payload fa a pkt (int n) crc (qp, dev) = Some (Some (pkt_hdr pkt, crc), put_send_wqe a (?w\<lparr>wqe_dma := ?dma\<rparr>) qp, dev)"
        using False by (simp add: fill_payload_def Let_def copy_data_def)
      then show ?thesis using True src by (intro exI [of _ crc] exI [of _ ?dma]) simp
    next
      case n0: False
      then have "bs \<noteq> []" using n by auto
      then obtain xss where x: "dma_wf ?dma" "length bs \<le> dma_left ?dma"
        "list_all2 (sge_backed ?md (qp_pd qp) 0) (drop (unat (dma_cur_sge ?dma)) (dma_sge ?dma)) xss"
        "bs = map (md_ram ?md) (take (length bs) (drop (unat (dma_sge_offset ?dma)) (concat xss)))"
        using src False by (auto simp: wqe_src_def Let_def)
      let ?A = "take n (drop (unat (dma_sge_offset ?dma)) (concat xss))"
      have len: "int n \<le> sint (dma_resid ?dma)" using n l by (simp add: sint_of_nat_u32)
      obtain crc' where c: "copy_data (qp_pd qp) 0 ?dma (pkt_hdr pkt) (payload_addr pkt) (int n) direction_out crc ?md
          = Some (None, dma_adv ?dma n, fst (copy_list direction_out ?A (payload_addr pkt) (pkt_hdr pkt, md_ram ?md)), crc', ?md)"
        using copy_data_backed [OF x(1,3) _ _ len refl refl, where dir = direction_out and a = "payload_addr pkt" and buf = "pkt_hdr pkt" and crcp = crc] n0 n x(2) by simp
      have A: "map (md_ram ?md) ?A = take n bs" by (subst x(4)) (simp add: take_map min_absorb1 n)
      obtain xss' where y: "dma_wf (dma_adv ?dma n)" "list_all2 (sge_backed ?md (qp_pd qp) 0)
            (drop (unat (dma_cur_sge (dma_adv ?dma n))) (dma_sge (dma_adv ?dma n))) xss'"
          "drop (unat (dma_sge_offset (dma_adv ?dma n))) (concat xss') = drop (unat (dma_sge_offset ?dma) + n) (concat xss)"
          "dma_left (dma_adv ?dma n) = dma_left ?dma - n"
        using dma_adv_wf [OF x(1,3), of n] n x(2) by auto
      have "drop n bs = map (md_ram ?md) (take (length (drop n bs)) (drop (unat (dma_sge_offset (dma_adv ?dma n))) (concat xss')))"
        unfolding y(3) length_drop by (subst x(4)) (simp add: drop_map drop_take add.commute)
      then have "\<exists>xss. list_all2 (sge_backed ?md (qp_pd qp) 0) (drop (unat (dma_cur_sge (dma_adv ?dma n))) (dma_sge (dma_adv ?dma n))) xss
          \<and> drop n bs = map (md_ram ?md) (take (length (drop n bs)) (drop (unat (dma_sge_offset (dma_adv ?dma n))) (concat xss)))"
        using y(2) by blast
      moreover have "dma_resid (dma_adv ?dma n) = of_nat (length (drop n bs))" using resid by (simp add: dma_adv_def split: prod.splits)
      moreover have "length (drop n bs) \<le> dma_left (dma_adv ?dma n)" "length (drop n bs) < 2147483648" using y(4) x(2) l(1) n by simp_all
      ultimately have "wqe_src (qp_pd qp) ?md (?w\<lparr>wqe_dma := dma_adv ?dma n\<rparr>) (drop n bs)"
        using False y(1) by (simp add: wqe_src_def Let_def del: length_drop)
      moreover have "dma_length (dma_adv ?dma n) = dma_length ?dma" by (simp add: dma_adv_def split: prod.splits)
      moreover have "fill_payload fa a pkt (int n) crc (qp, dev) = Some (Some (put_bytes (take n bs) (payload_addr pkt) (pkt_hdr pkt), crc'),
          put_send_wqe a (?w\<lparr>wqe_dma := dma_adv ?dma n\<rparr>) qp, dev)"
        using False c by (simp add: fill_payload_def Let_def copy_list_out_put A)
      ultimately show ?thesis by blast
    qed
  qed
qed

subsection \<open>Opcodes of sends and writes\<close>

text \<open>The four opcodes of a request that the segmentation uses: first, middle, last, only.\<close>

definition rc_ops :: "u32 \<Rightarrow> (u8 \<times> u8 \<times> u8 \<times> u8) option" where
  "rc_ops opcode =
     (if opcode = IB_WR_RDMA_WRITE then Some (IB_OPCODE_RC_RDMA_WRITE_FIRST, IB_OPCODE_RC_RDMA_WRITE_MIDDLE,
        IB_OPCODE_RC_RDMA_WRITE_LAST, IB_OPCODE_RC_RDMA_WRITE_ONLY)
      else if opcode = IB_WR_RDMA_WRITE_WITH_IMM then Some (IB_OPCODE_RC_RDMA_WRITE_FIRST, IB_OPCODE_RC_RDMA_WRITE_MIDDLE,
        IB_OPCODE_RC_RDMA_WRITE_LAST_WITH_IMMEDIATE, IB_OPCODE_RC_RDMA_WRITE_ONLY_WITH_IMMEDIATE)
      else if opcode = IB_WR_SEND then Some (IB_OPCODE_RC_SEND_FIRST, IB_OPCODE_RC_SEND_MIDDLE, IB_OPCODE_RC_SEND_LAST,
        IB_OPCODE_RC_SEND_ONLY)
      else if opcode = IB_WR_SEND_WITH_IMM then Some (IB_OPCODE_RC_SEND_FIRST, IB_OPCODE_RC_SEND_MIDDLE,
        IB_OPCODE_RC_SEND_LAST_WITH_IMMEDIATE, IB_OPCODE_RC_SEND_ONLY_WITH_IMMEDIATE)
      else None)"

text \<open>What the opcode table says of these.\<close>

definition seg_op :: "u8 \<Rightarrow> bool \<Rightarrow> bool \<Rightarrow> bool" where
  "seg_op op start fin \<longleftrightarrow> (let i = rxe_opcode op; m = oi_mask i in
     oi_name i \<noteq> None \<and> (m AND RXE_START_MASK \<noteq> 0) = start \<and> (m AND RXE_END_MASK \<noteq> 0) = fin
     \<and> m AND RXE_WRITE_OR_SEND \<noteq> 0 \<and> m AND RXE_READ_OR_ATOMIC = 0 \<and> m AND RXE_READ_MASK = 0 \<and> m AND RXE_REQ_MASK \<noteq> 0
     \<and> m AND RXE_LRH_MASK = 0 \<and> m AND RXE_ATMETH_MASK = 0 \<and> m AND RXE_DETH_MASK = 0
     \<and> oi_offset i RXE_PAYLOAD = oi_length i \<and> oi_offset i RXE_BTH = 0 \<and> 12 \<le> oi_length i \<and> oi_length i \<le> 32)"

lemma seg_ops:
  assumes "rc_ops opcode = Some (f, m, l, e)"
  shows "seg_op f True False \<and> seg_op m False False \<and> seg_op l False True \<and> seg_op e True True \<and> distinct [f, m, l, e]
    \<and> next_opcode_rc qp opcode fits = seq_opcode qp fits f m l e"
proof -
  have "seg_op 0 True False" "seg_op 1 False False" "seg_op 2 False True" "seg_op 3 False True" "seg_op 4 True True" "seg_op 5 True True"
    "seg_op 6 True False" "seg_op 7 False False" "seg_op 8 False True" "seg_op 9 False True" "seg_op 10 True True" "seg_op 11 True True"
    by code_simp+
  then show ?thesis using assms by (auto simp: rc_ops_def next_opcode_rc_def split: if_splits)
qed

text \<open>The specification: the packets of a message, from its start or from its middle, as opcode,
  sequence number and payload.\<close>

function msg_packets :: "u8 \<times> u8 \<times> u8 \<times> u8 \<Rightarrow> bool \<Rightarrow> nat \<Rightarrow> u32 \<Rightarrow> u8 list \<Rightarrow> (u8 \<times> u32 \<times> u8 list) list" where
  "msg_packets (f, m, l, e) start mtu psn bs =
     (if mtu = 0 \<or> length bs \<le> mtu then [(if start then e else l, psn, bs)]
      else (if start then f else m, psn, take mtu bs)
        # msg_packets (f, m, l, e) False mtu ((psn + 1) AND BTH_PSN_MASK) (drop mtu bs))"
  by pat_completeness auto
termination
  by (relation "measure (\<lambda>(_, _, _, _, bs). length bs)") auto

declare msg_packets.simps [simp del]

subsection \<open>The packet built\<close>

definition keeps_low :: "int \<Rightarrow> rxe_pkt_info \<Rightarrow> rxe_pkt_info \<Rightarrow> bool" where
  "keeps_low p pkt pkt' \<longleftrightarrow> (\<exists>m. pkt' = pkt\<lparr>pkt_hdr := m\<rparr> \<and> (\<forall>q < p. m q = pkt_hdr pkt q))"

lemma keeps_low_refl: "keeps_low p pkt pkt"
  by (auto simp: keeps_low_def intro: exI [of _ "pkt_hdr pkt"])

lemma keeps_low_trans: "keeps_low p pkt pkt' \<Longrightarrow> keeps_low p pkt' pkt'' \<Longrightarrow> keeps_low p pkt pkt''"
  by (auto simp: keeps_low_def)

lemma keeps_lowD:
  assumes "keeps_low p pkt pkt'"
  shows "pkt_opcode pkt' = pkt_opcode pkt" "pkt_mask pkt' = pkt_mask pkt" "pkt_psn pkt' = pkt_psn pkt" "pkt_paylen pkt' = pkt_paylen pkt"
    "pkt_offset pkt' = pkt_offset pkt" "bth_ptr pkt' = bth_ptr pkt" "hdr_ptr h pkt' = hdr_ptr h pkt" "payload_addr pkt' = payload_addr pkt"
  using assms by (auto simp: keeps_low_def payload_addr_def)

lemma keeps_low_bth: "keeps_low p pkt pkt' \<Longrightarrow> bth_ptr pkt + RXE_BTH_BYTES \<le> p \<Longrightarrow> bth_view pkt' = bth_view pkt"
  unfolding keeps_low_def by (auto intro!: bth_view_local)

lemma setter_low:
  assumes "oi_name (rxe_opcode (pkt_opcode pkt)) \<noteq> None" and "g \<in> set (pkt_hdrs pkt)" and "f \<in> set (hdr_setters g v)"
  shows "keeps_low (bth_ptr pkt + RXE_BTH_BYTES) pkt (f pkt)"
  using setter_frame [OF assms(3), of pkt] hdr_layout(1) [OF assms(1,2)] unfolding keeps_low_def by fastforce

lemma ext_setters_low:
  assumes "oi_name (rxe_opcode (pkt_opcode pkt)) \<noteq> None"
  shows "RXE_RETH \<in> set (pkt_hdrs pkt) \<Longrightarrow> keeps_low (bth_ptr pkt + RXE_BTH_BYTES) pkt (reth_set_rkey pkt x)"
    "RXE_RETH \<in> set (pkt_hdrs pkt) \<Longrightarrow> keeps_low (bth_ptr pkt + RXE_BTH_BYTES) pkt (reth_set_va pkt v)"
    "RXE_RETH \<in> set (pkt_hdrs pkt) \<Longrightarrow> keeps_low (bth_ptr pkt + RXE_BTH_BYTES) pkt (reth_set_len pkt x)"
    "RXE_IMMDT \<in> set (pkt_hdrs pkt) \<Longrightarrow> keeps_low (bth_ptr pkt + RXE_BTH_BYTES) pkt (immdt_set_imm pkt x)"
    "RXE_IETH \<in> set (pkt_hdrs pkt) \<Longrightarrow> keeps_low (bth_ptr pkt + RXE_BTH_BYTES) pkt (ieth_set_rkey pkt x)"
proof -
  note s = setter_low [OF assms]
  have u: "ucast (ucast x :: u64) = x" by (rule bit_word_eqI) (simp add: bit_simps)
  show "RXE_RETH \<in> set (pkt_hdrs pkt) \<Longrightarrow> keeps_low (bth_ptr pkt + RXE_BTH_BYTES) pkt (reth_set_rkey pkt x)"
    using s [of RXE_RETH "\<lambda>pkt. reth_set_rkey pkt (ucast (ucast x :: u64))" "ucast x"] by (simp add: u)
  show "RXE_RETH \<in> set (pkt_hdrs pkt) \<Longrightarrow> keeps_low (bth_ptr pkt + RXE_BTH_BYTES) pkt (reth_set_va pkt v)"
    using s [of RXE_RETH "\<lambda>pkt. reth_set_va pkt v" v] by simp
  show "RXE_RETH \<in> set (pkt_hdrs pkt) \<Longrightarrow> keeps_low (bth_ptr pkt + RXE_BTH_BYTES) pkt (reth_set_len pkt x)"
    using s [of RXE_RETH "\<lambda>pkt. reth_set_len pkt (ucast (ucast x :: u64))" "ucast x"] by (simp add: u)
  show "RXE_IMMDT \<in> set (pkt_hdrs pkt) \<Longrightarrow> keeps_low (bth_ptr pkt + RXE_BTH_BYTES) pkt (immdt_set_imm pkt x)"
    using s [of RXE_IMMDT "\<lambda>pkt. immdt_set_imm pkt (ucast (ucast x :: u64))" "ucast x"] by (simp add: u)
  show "RXE_IETH \<in> set (pkt_hdrs pkt) \<Longrightarrow> keeps_low (bth_ptr pkt + RXE_BTH_BYTES) pkt (ieth_set_rkey pkt x)"
    using s [of RXE_IETH "\<lambda>pkt. ieth_set_rkey pkt (ucast (ucast x :: u64))" "ucast x"] by (simp add: u)
qed

text \<open>The mask of a packet from the interface layer and of its opcode.\<close>

definition net_mask :: "u32 \<Rightarrow> bool" where
  "net_mask m \<longleftrightarrow> m = RXE_GRH_MASK \<or> m = RXE_GRH_MASK OR RXE_LOOPBACK_MASK"

lemma net_mask_and:
  "net_mask n \<Longrightarrow> n AND x = 0 \<Longrightarrow> (n OR m) AND x = m AND x"
  "net_mask n \<Longrightarrow> n AND RXE_RETH_MASK = 0" "net_mask n \<Longrightarrow> n AND RXE_IMMDT_MASK = 0" "net_mask n \<Longrightarrow> n AND RXE_IETH_MASK = 0"
  "net_mask n \<Longrightarrow> n AND RXE_ATMETH_MASK = 0" "net_mask n \<Longrightarrow> n AND RXE_DETH_MASK = 0" "net_mask n \<Longrightarrow> n AND RXE_START_MASK = 0"
  "net_mask n \<Longrightarrow> n AND RXE_END_MASK = 0" "net_mask n \<Longrightarrow> n AND RXE_READ_MASK = 0" "net_mask n \<Longrightarrow> n AND RXE_WRITE_OR_SEND = 0"
  "net_mask n \<Longrightarrow> n AND RXE_LRH_MASK = 0" "net_mask n \<Longrightarrow> n AND RXE_REQ_MASK = 0"
  by (auto simp: net_mask_def bit.conj_disj_distrib2)

lemma init_ext_hdrs_low:
  assumes "seg_op (pkt_opcode pkt) start fin" and "pkt_mask pkt = n OR oi_mask (rxe_opcode (pkt_opcode pkt))" and "net_mask n"
  shows "keeps_low (bth_ptr pkt + RXE_BTH_BYTES) pkt (init_ext_hdrs qp w pkt)"
proof -
  let ?i = "rxe_opcode (pkt_opcode pkt)" and ?p = "bth_ptr pkt + RXE_BTH_BYTES"
  let ?m = "pkt_mask pkt"
  have n: "oi_name ?i \<noteq> None" and z: "oi_mask ?i AND RXE_ATMETH_MASK = 0" "oi_mask ?i AND RXE_DETH_MASK = 0"
    using assms(1) by (simp_all add: seg_op_def Let_def)
  have m: "?m AND RXE_ATMETH_MASK = 0" "?m AND RXE_DETH_MASK = 0"
    "?m AND RXE_RETH_MASK \<noteq> 0 \<Longrightarrow> RXE_RETH \<in> set (pkt_hdrs pkt)" "?m AND RXE_IMMDT_MASK \<noteq> 0 \<Longrightarrow> RXE_IMMDT \<in> set (pkt_hdrs pkt)"
    "?m AND RXE_IETH_MASK \<noteq> 0 \<Longrightarrow> RXE_IETH \<in> set (pkt_hdrs pkt)"
    using z net_mask_and [OF assms(3)] unfolding assms(2) pkt_hdrs_def ext_hdrs_def by auto
  have s: "keeps_low ?p pkt pkt' \<Longrightarrow> RXE_RETH \<in> set (pkt_hdrs pkt) \<Longrightarrow> keeps_low ?p pkt (reth_set_rkey pkt' x)"
    "keeps_low ?p pkt pkt' \<Longrightarrow> RXE_RETH \<in> set (pkt_hdrs pkt) \<Longrightarrow> keeps_low ?p pkt (reth_set_va pkt' v)"
    "keeps_low ?p pkt pkt' \<Longrightarrow> RXE_RETH \<in> set (pkt_hdrs pkt) \<Longrightarrow> keeps_low ?p pkt (reth_set_len pkt' x)"
    "keeps_low ?p pkt pkt' \<Longrightarrow> RXE_IMMDT \<in> set (pkt_hdrs pkt) \<Longrightarrow> keeps_low ?p pkt (immdt_set_imm pkt' x)"
    "keeps_low ?p pkt pkt' \<Longrightarrow> RXE_IETH \<in> set (pkt_hdrs pkt) \<Longrightarrow> keeps_low ?p pkt (ieth_set_rkey pkt' x)" for pkt' x v
    using ext_setters_low [of pkt'] n by (auto simp: keeps_lowD pkt_hdrs_def elim!: keeps_low_trans)
  show ?thesis unfolding init_ext_hdrs_def Let_def using m by (auto intro!: s keeps_low_refl)
qed

lemma net_mask_grh: "net_mask n \<Longrightarrow> (n OR m) AND RXE_GRH_MASK \<noteq> 0"
proof
  assume n: "net_mask n" and z: "(n OR m) AND RXE_GRH_MASK = 0"
  have "bit n 1" using n by (auto simp: net_mask_def)
  moreover have "\<not> bit ((n OR m) AND 2) 1" using z by simp
  ultimately show False by (simp add: bit_simps)
qed

text \<open>The interface layer has memory for packets, and the addresses of the queue pair are in the
  tables of its port.\<close>

definition iface_ok :: "rxe_ifc_ops \<Rightarrow> rxe_av \<Rightarrow> bool" where
  "iface_ok ifc av \<longleftrightarrow> (\<forall>paylen align dev. \<exists>skb. ifc_init_packet ifc av paylen align dev = Some skb \<and> net_mask (pkt_mask (skb_pkt skb)))"

definition port_ok :: "rxe_qp \<Rightarrow> rxe_dev \<Rightarrow> bool" where
  "port_ok qp dev \<longleftrightarrow> (case port_of dev (at_port_num (qp_attr qp)) of None \<Rightarrow> False
     | Some port \<Rightarrow> unat (gr_sgid_index (ah_grh (av_attr (qp_pri_av qp)))) < length (port_guid_tbl port)
         \<and> unat (at_pkey_index (qp_attr qp)) < length (port_pkey_tbl port))"

text \<open>A packet of a send or write, as far as its headers go.\<close>

definition seg_pkt :: "u8 \<Rightarrow> u32 \<Rightarrow> int \<Rightarrow> rxe_pkt_info \<Rightarrow> bool" where
  "seg_pkt op psn payload pkt \<longleftrightarrow> (\<exists>n. net_mask n \<and> pkt_mask pkt = n OR oi_mask (rxe_opcode op))
     \<and> pkt_opcode pkt = op \<and> pkt_psn pkt = psn \<and> pkt_offset pkt = 40
     \<and> pkt_paylen pkt = word_of_int (oi_length (rxe_opcode op) + payload + pad_len payload + RXE_ICRC_SIZE)
     \<and> bth_opcode pkt = op \<and> bth_psn pkt = psn AND BTH_PSN_MASK \<and> bth_pad pkt = word_of_int (pad_len payload) AND 3"

lemma init_grh_hdr:
  assumes "pkt_mask pkt AND RXE_GRH_MASK \<noteq> 0" and "unat (gr_sgid_index (ah_grh (av_attr av))) < length (port_guid_tbl port)"
  shows "\<exists>m. init_grh paylen av port pkt = Some (pkt\<lparr>pkt_offset := pkt_offset pkt + 40, pkt_hdr := m\<rparr>)"
  using assms by (simp add: init_grh_def Let_def nth_opt_def grh_init_def grh_set_sgid_def grh_set_dgid_def) (rule exI, rule refl)

lemma bth_view_fields:
  assumes "bth_view pkt' = bth_view pkt"
  shows "bth_opcode pkt' = bth_opcode pkt" "bth_psn pkt' = bth_psn pkt" "bth_pad pkt' = bth_pad pkt"
proof -
  have inj: "(ucast a :: u32) = ucast b \<Longrightarrow> a = b" for a b :: u8
    by (drule arg_cong [where f = "ucast :: u32 \<Rightarrow> u8"]) (simp add: bit_eq_iff bit_simps)
  show "bth_opcode pkt' = bth_opcode pkt" "bth_psn pkt' = bth_psn pkt" "bth_pad pkt' = bth_pad pkt"
    using assms by (auto simp: bth_view_def intro: inj)
qed

lemma init_req_packet_builds:
  assumes "iface_ok ifc (qp_pri_av qp)" and "port_ok qp dev" and "qp_type qp = IB_QPT_RC" and op: "seg_op op start fin"
  shows "\<exists>skb k. init_req_packet ifc w op payload (qp, dev) = Some (Some skb,
      qp\<lparr>qp_req_skb_out := qp_req_skb_out qp + 1, qp_req := (qp_req qp)\<lparr>req_noack_pkts := k\<rparr>\<rparr>,
      dev\<lparr>dev_req_skb_out := dev_req_skb_out dev + 1\<rparr>)
    \<and> skb_qp skb = Some (qp_self qp) \<and> seg_pkt op (req_psn (qp_req qp)) payload (skb_pkt skb)"
proof -
  let ?i = "rxe_opcode op" and ?psn = "req_psn (qp_req qp)" and ?av = "qp_pri_av qp" and ?ibwr = "wqe_ibwr w"
  let ?pl = "oi_length ?i + payload + pad_len payload + RXE_ICRC_SIZE"
  obtain skb0 where s0: "ifc_init_packet ifc ?av ?pl (oi_length ?i AND 15) dev = Some skb0" "net_mask (pkt_mask (skb_pkt skb0))"
    using assms(1) unfolding iface_ok_def by blast
  obtain port where port: "port_of dev (at_port_num (qp_attr qp)) = Some port"
    "unat (gr_sgid_index (ah_grh (av_attr ?av))) < length (port_guid_tbl port)" "unat (at_pkey_index (qp_attr qp)) < length (port_pkey_tbl port)"
    using assms(2) by (auto simp: port_ok_def split: option.splits)
  define n where "n = pkt_mask (skb_pkt skb0)"
  define pkt0 where "pkt0 = (skb_pkt skb0)\<lparr>pkt_opcode := op, pkt_psn := ?psn, pkt_mask := n OR oi_mask ?i, pkt_paylen := word_of_int ?pl, pkt_offset := 0\<rparr>"
  have lrh: "pkt_mask pkt0 AND RXE_LRH_MASK = 0"
    using net_mask_and(1,11) [OF s0(2)] op by (simp add: pkt0_def seg_op_def Let_def n_def)
  have "pkt_mask pkt0 AND RXE_GRH_MASK \<noteq> 0" using net_mask_grh [OF s0(2)] by (simp add: pkt0_def n_def)
  then obtain m where m: "init_grh ?pl ?av port (init_lrh ?pl ?av port pkt0) = Some (pkt0\<lparr>pkt_offset := 40, pkt_hdr := m\<rparr>)"
    using init_grh_hdr [of pkt0 ?av port ?pl] port(2) lrh by (auto simp: init_lrh_def pkt0_def)
  define pkt1 where "pkt1 = pkt0\<lparr>pkt_offset := 40, pkt_hdr := m\<rparr>"
  let ?q = "qp\<lparr>qp_req_skb_out := qp_req_skb_out qp + 1\<rparr>" and ?d = "dev\<lparr>dev_req_skb_out := dev_req_skb_out dev + 1\<rparr>"
  obtain ack k where ak: "ack_request ?d pkt1 ?q = (ack, ?q\<lparr>qp_req := (qp_req qp)\<lparr>req_noack_pkts := k\<rparr>\<rparr>)"
    by (simp add: ack_request_def Let_def)
  define sol where "sol = (if wr_send_flags ?ibwr AND IB_SEND_SOLICITED \<noteq> 0 \<and> pkt_mask pkt0 AND RXE_END_MASK \<noteq> 0
     \<and> (pkt_mask pkt0 AND RXE_SEND_MASK \<noteq> 0
       \<or> pkt_mask pkt0 AND (RXE_WRITE_MASK OR RXE_IMMDT_MASK) = RXE_WRITE_MASK OR RXE_IMMDT_MASK) then 1 else 0 :: int)"
  define qn where "qn = (if pkt_mask pkt0 AND RXE_DETH_MASK \<noteq> 0 then wr_ud_remote_qpn ?ibwr else at_dest_qp_num (qp_attr qp))"
  define pkt2 where "pkt2 = bth_init pkt1 (pkt_opcode pkt1) sol 0 (pad_len payload) (port_pkey_tbl port ! unat (at_pkey_index (qp_attr qp))) qn
     (if ack then 1 else 0) (pkt_psn pkt1)"
  let ?q2 = "?q\<lparr>qp_req := (qp_req qp)\<lparr>req_noack_pkts := k\<rparr>\<rparr>"
  have r: "init_req_packet ifc w op payload (qp, dev) = Some (Some (skb0\<lparr>skb_pkt := init_ext_hdrs ?q2 w pkt2, skb_qp := Some (qp_self qp)\<rparr>), ?q2, ?d)"
  proof -
    have e: "(skb_pkt skb0)\<lparr>pkt_opcode := op, pkt_psn := req_psn (qp_req ?q), pkt_mask := pkt_mask (skb_pkt skb0) OR oi_mask ?i,
       pkt_paylen := word_of_int ?pl, pkt_offset := 0\<rparr> = pkt0" by (simp add: pkt0_def n_def)
    have k: "nth_opt (port_pkey_tbl port) (unat (at_pkey_index (qp_attr ?q))) = Some (port_pkey_tbl port ! unat (at_pkey_index (qp_attr qp)))"
      using port(3) by (simp add: nth_opt_def)
    have t: "qp_type ?q = IB_QPT_RC" "qp_type ?q \<noteq> IB_QPT_GSI" "qp_attr ?q = qp_attr qp" "qp_self ?q2 = qp_self qp" using assms(3) by simp_all
    show ?thesis
      unfolding init_req_packet_def Let_def split assms(3) s0(1) port(1) option.case e m ak
        simp_thms if_True if_False t prod.case k [unfolded t]
      using ak k by (simp add: pkt2_def qn_def sol_def pkt1_def)
  qed
  have f2: "pkt_opcode pkt2 = op" "pkt_mask pkt2 = n OR oi_mask ?i" "pkt_psn pkt2 = ?psn" "pkt_paylen pkt2 = word_of_int ?pl" "pkt_offset pkt2 = 40"
    by (simp_all add: pkt2_def bth_init_def Let_def pkt1_def pkt0_def)
  have b2: "bth_opcode pkt2 = op" "bth_psn pkt2 = ?psn AND BTH_PSN_MASK" "bth_pad pkt2 = word_of_int (pad_len payload) AND 3"
    using bth_init_fields [of pkt1 "pkt_opcode pkt1" sol 0 "pad_len payload" _ qn "if ack then 1 else 0" "pkt_psn pkt1"]
    by (simp_all add: pkt2_def Let_def) (simp_all add: pkt1_def pkt0_def)
  have low: "keeps_low (bth_ptr pkt2 + RXE_BTH_BYTES) pkt2 (init_ext_hdrs ?q2 w pkt2)"
    using op f2 s0(2) by (intro init_ext_hdrs_low [where n = n and start = start and fin = fin]) (simp_all add: n_def)
  have "seg_pkt op ?psn payload (init_ext_hdrs ?q2 w pkt2)"
    using f2 b2 s0(2) bth_view_fields [OF keeps_low_bth [OF low order_refl]] unfolding seg_pkt_def keeps_lowD [OF low] by (auto simp: n_def)
  then show ?thesis using r by (intro exI [of _ "skb0\<lparr>skb_pkt := init_ext_hdrs ?q2 w pkt2, skb_qp := Some (qp_self qp)\<rparr>"] exI [of _ k]) simp
qed


lemma pad_len_bounds: "0 \<le> pad_len x" "pad_len x \<le> 3"
  by (simp_all add: pad_len_def AND_upper2')

lemma pad_field: "uint (word_of_int (pad_len x) AND 3 :: u8) = pad_len x"
proof -
  have "pad_len x \<in> {0, 1, 2, 3}" using pad_len_bounds [of x] by auto
  then show ?thesis by auto
qed

text \<open>A packet as the receiver sees it: its opcode, sequence number and payload.\<close>

definition wire_view :: "sk_buff \<Rightarrow> u8 \<times> u32 \<times> u8 list" where
  "wire_view skb = (let pkt = skb_pkt skb in (bth_opcode pkt, bth_psn pkt,
     bytes_list (pkt_hdr pkt) (payload_addr pkt) (unat (payload_size pkt))))"

lemma seg_pkt_payload_size:
  assumes "seg_pkt op psn (int n) pkt" and "seg_op op start fin" and "n \<le> 8192"
  shows "payload_size pkt = of_nat n" "unat (payload_size pkt) = n" "payload_addr pkt \<ge> bth_ptr pkt + RXE_BTH_BYTES"
proof -
  let ?l = "oi_length (rxe_opcode op)"
  have l: "12 \<le> ?l" "?l \<le> 32" "oi_offset (rxe_opcode op) RXE_PAYLOAD = ?l" using assms(2) by (simp_all add: seg_op_def Let_def)
  have p: "pkt_opcode pkt = op" "pkt_paylen pkt = word_of_int (?l + int n + pad_len (int n) + 4)" "uint (bth_pad pkt) = pad_len (int n)"
    using assms(1) by (simp_all add: seg_pkt_def pad_field)
  have "uint (pkt_paylen pkt) = ?l + int n + pad_len (int n) + 4"
  proof -
    have u: "uint (word_of_int x :: u16) = x" if "0 \<le> x" "x < 65536" for x
      using that by (simp add: unsigned_of_int take_bit_int_eq_self)
    show ?thesis unfolding p(2) by (rule u) (use l assms(3) pad_len_bounds [of "int n"] in simp_all)
  qed
  then show s: "payload_size pkt = of_nat n" by (simp add: payload_size_def p l)
  show "unat (payload_size pkt) = n" using assms(3) by (simp add: s unat_of_nat)
  show "payload_addr pkt \<ge> bth_ptr pkt + RXE_BTH_BYTES" using l by (simp add: payload_addr_def hdr_ptr_def bth_ptr_def p)
qed

lemma seg_pkt_low:
  assumes "seg_pkt op psn payload pkt" and "keeps_low (bth_ptr pkt + RXE_BTH_BYTES) pkt pkt'"
  shows "seg_pkt op psn payload pkt'"
  using assms(1) bth_view_fields [OF keeps_low_bth [OF assms(2) order_refl]] unfolding seg_pkt_def keeps_lowD [OF assms(2)] by simp

lemma fill_packet_wire:
  assumes pkt: "seg_pkt op psn (int n) (skb_pkt skb)" and op: "seg_op op start fin" and n: "n \<le> 8192"
    and src: "wqe_src (qp_pd qp) (dev_mem dev) (get_send_wqe qp a) bs" "n \<le> length bs"
  shows "\<exists>skb' dma'. fill_packet fa a skb (int n) (qp, dev) = Some (Some skb', put_send_wqe a ((get_send_wqe qp a)\<lparr>wqe_dma := dma'\<rparr>) qp, dev)
    \<and> dma_length dma' = dma_length (wqe_dma (get_send_wqe qp a))
    \<and> wqe_src (qp_pd qp) (dev_mem dev) ((get_send_wqe qp a)\<lparr>wqe_dma := dma'\<rparr>) (drop n bs)
    \<and> skb_qp skb' = skb_qp skb \<and> seg_pkt op psn (int n) (skb_pkt skb') \<and> wire_view skb' = (op, psn AND BTH_PSN_MASK, take n bs)"
proof -
  let ?pkt = "skb_pkt skb" and ?w = "get_send_wqe qp a"
  define crc where "crc = (if par_crc_disable (dev_param dev) then None else Some (rxe_icrc_hdr fa (skb_addr skb) ?pkt))"
  obtain crc' dma' where f: "fill_payload fa a ?pkt (int n) crc (qp, dev)
      = Some (Some (put_bytes (take n bs) (payload_addr ?pkt) (pkt_hdr ?pkt), crc'), put_send_wqe a (?w\<lparr>wqe_dma := dma'\<rparr>) qp, dev)"
    "dma_length dma' = dma_length (wqe_dma ?w)" "wqe_src (qp_pd qp) (dev_mem dev) (?w\<lparr>wqe_dma := dma'\<rparr>) (drop n bs)"
    using fill_payload_src [OF src] by blast
  note sz = seg_pkt_payload_size [OF pkt op n]
  have wos: "pkt_mask ?pkt AND RXE_WRITE_OR_SEND \<noteq> 0"
    using pkt op net_mask_and(1,10) by (auto simp: seg_pkt_def seg_op_def Let_def)
  let ?p = "payload_addr ?pkt"
  define m1 where "m1 = put_bytes (take n bs) ?p (pkt_hdr ?pkt)"
  define m2 where "m2 = put_bytes (replicate (nat (pad_len (int n))) 0) (?p + int n) m1"
  obtain b where b: "fill_packet fa a skb (int n) (qp, dev)
      = Some (Some (skb\<lparr>skb_pkt := ?pkt\<lparr>pkt_hdr := m2(?p + int n + pad_len (int n) := b)\<rparr>\<rparr>), put_send_wqe a (?w\<lparr>wqe_dma := dma'\<rparr>) qp, dev)"
    using f(1) wos by (simp add: fill_packet_def Let_def crc_def m2_def m1_def)
  define m3 where "m3 = m2(?p + int n + pad_len (int n) := b)"
  let ?pkt' = "?pkt\<lparr>pkt_hdr := m3\<rparr>"
  have pad: "0 \<le> pad_len (int n)" by (rule pad_len_bounds)
  have above: "m3 q = m1 q" if "q < ?p + int n" for q using that pad by (simp add: m3_def m2_def put_bytes_frame)
  have "keeps_low (bth_ptr ?pkt + RXE_BTH_BYTES) ?pkt ?pkt'"
    using sz(3) above by (auto simp: keeps_low_def m1_def put_bytes_frame)
  from seg_pkt_low [OF pkt this] have pkt': "seg_pkt op psn (int n) ?pkt'" .
  have "bytes_list m3 ?p n = bytes_list m1 ?p n" by (rule bytes_list_cong) (simp add: above)
  then have "bytes_list m3 ?p n = take n bs" using put_bytes_list [of "take n bs" ?p "pkt_hdr ?pkt"] src(2) by (simp add: m1_def)
  moreover have "payload_addr ?pkt' = ?p" by (simp add: payload_addr_def)
  ultimately have "wire_view (skb\<lparr>skb_pkt := ?pkt'\<rparr>) = (op, psn AND BTH_PSN_MASK, take n bs)"
    using pkt' seg_pkt_payload_size(2) [OF pkt' op n] by (simp add: wire_view_def Let_def seg_pkt_def)
  then show ?thesis using b f(2,3) pkt' unfolding m3_def
    by (intro exI [of _ "skb\<lparr>skb_pkt := ?pkt\<lparr>pkt_hdr := m2(?p + int n + pad_len (int n) := b)\<rparr>\<rparr>"] exI [of _ dma']) simp
qed

lemma update_state_seg:
  assumes pkt: "seg_pkt op psn payload pkt" and op: "seg_op op start fin" and "qp_type qp = IB_QPT_RC"
  shows "\<exists>w' tm. update_state a pkt payload (qp, dev) = put_send_wqe a w' (qp\<lparr>qp_req := (qp_req qp)\<lparr>
      req_psn := (req_psn (qp_req qp) + 1) AND BTH_PSN_MASK, req_opcode := uint op,
      req_wqe_index := if fin then next_index (qp_sendq qp) (req_wqe_index (qp_req qp)) else req_wqe_index (qp_req qp)\<rparr>,
      qp_retrans_timer := tm\<rparr>)
    \<and> wqe_ibwr w' = wqe_ibwr (get_send_wqe qp a) \<and> wqe_dma w' = wqe_dma (get_send_wqe qp a)
    \<and> wqe_state w' = (if fin then wqe_state_pending else wqe_state_processing)"
proof -
  let ?w = "get_send_wqe qp a" and ?psn = "req_psn (qp_req qp)"
  have m: "(pkt_mask pkt AND RXE_START_MASK \<noteq> 0) = start" "(pkt_mask pkt AND RXE_END_MASK \<noteq> 0) = fin" "pkt_mask pkt AND RXE_READ_MASK = 0"
    using pkt op net_mask_and(1,7-9) by (auto simp: seg_pkt_def seg_op_def Let_def)
  define num where "num = (let num_pkt = (dma_resid (wqe_dma ?w) + word_of_int payload + qp_mtu qp - 1) div qp_mtu qp
     in if num_pkt = 0 then 1 else num_pkt)"
  define w' where "w' = (if start then ?w\<lparr>wqe_first_psn := ?psn, wqe_last_psn := (?psn + num - 1) AND BTH_PSN_MASK\<rparr> else ?w)
     \<lparr>wqe_state := if fin then wqe_state_pending else wqe_state_processing\<rparr>"
  define tm where "tm = (if qp_timeout_jiffies qp \<noteq> 0 \<and> qp_retrans_timer qp = None
     then Some (ucast (ucast (dev_jiffies dev) + qp_timeout_jiffies qp)) else qp_retrans_timer qp)"
  have "update_state a pkt payload (qp, dev) = put_send_wqe a w' (qp\<lparr>qp_req := (qp_req qp)\<lparr>
      req_psn := (?psn + 1) AND BTH_PSN_MASK, req_opcode := uint op,
      req_wqe_index := if fin then next_index (qp_sendq qp) (req_wqe_index (qp_req qp)) else req_wqe_index (qp_req qp)\<rparr>,
      qp_retrans_timer := tm\<rparr>)"
    using m assms(3) pkt
    by (simp add: update_state_def Let_def num_def [unfolded Let_def] w'_def tm_def seg_pkt_def put_send_wqe_def set_sendq_def)
  then show ?thesis by (intro exI [of _ w'] exI [of _ tm]) (simp add: w'_def)
qed

subsection \<open>One run\<close>

text \<open>What sending a packet leaves alone in the device.\<close>

definition dev_kept :: "rxe_dev \<Rightarrow> rxe_dev \<Rightarrow> bool" where
  "dev_kept dev dev' \<longleftrightarrow> dev_mem dev' = dev_mem dev \<and> dev_port dev' = dev_port dev \<and> dev_param dev' = dev_param dev
     \<and> dev_kfree dev' = dev_kfree dev \<and> (\<exists>k. dev_now dev' = (\<lambda>i. dev_now dev (i + k)))"

lemma account_request:
  assumes "m AND RXE_REQ_MASK \<noteq> 0"
  shows "\<exists>t. account_skb m (qp, dev) = (qp\<lparr>qp_req_skb_out := qp_req_skb_out qp - 1, qp_req := (qp_req qp)\<lparr>req_task := t\<rparr>\<rparr>,
    dev\<lparr>dev_req_skb_out := dev_req_skb_out dev - 1\<rparr>)"
proof (cases "qp_need_req_skb qp \<and> qp_req_skb_out qp - 1 < par_max_skb_per_qp (dev_param dev)")
  case True
  then show ?thesis using assms by (simp add: account_skb_def Let_def run_req_task_def) (rule exI, rule refl)
next
  case False
  then show ?thesis using assms by (intro exI [of _ "req_task (qp_req qp)"]) (auto simp: account_skb_def Let_def)
qed

lemma xmit_request:
  assumes "good_ifc ifc" and "clock_grows dev" and "qp_ready qp" and "pkt_mask (skb_pkt skb) AND RXE_REQ_MASK \<noteq> 0"
  shows "\<exists>t dev'. xmit_one_packet ifc skb (qp, dev) = Some (0, qp\<lparr>qp_req_skb_out := qp_req_skb_out qp - 1,
      qp_req := (qp_req qp)\<lparr>req_task := t\<rparr>\<rparr>, dev') \<and> dev_kept dev dev' \<and> dev_sent dev' = dev_sent dev @ [skb]"
proof -
  let ?m = "pkt_mask (skb_pkt skb) AND RXE_REQ_MASK"
  obtain k where k: "(if arb_delay (dev_arbiter dev) then busy_wait dev else Some dev) = Some (dev\<lparr>dev_now := (\<lambda>i. dev_now dev (i + k))\<rparr>)"
    using wait_returns [OF assms(2)] by blast
  define d1 where "d1 = dev\<lparr>dev_now := (\<lambda>i. dev_now dev (i + k))\<rparr>"
  define d2 where "d2 = set_delay (xmit_delay skb d1) (d1\<lparr>dev_sent := dev_sent d1 @ [skb]\<rparr>)"
  have "xmit_allowed ?m qp" using assms(3) by (simp add: xmit_allowed_def qp_ready_def)
  then have x: "xmit_one_packet ifc skb (qp, dev) = Some (0, account_skb ?m (qp, d2))"
    using k assms(1) by (simp add: xmit_one_packet_def Let_def good_ifc_def d2_def d1_def)
  obtain j where j: "dev_now d2 = (\<lambda>i. dev_now (d1\<lparr>dev_sent := dev_sent d1 @ [skb]\<rparr>) (i + j))"
    using set_delay_frame(4) unfolding d2_def by blast
  have d2: "dev_mem d2 = dev_mem dev" "dev_port d2 = dev_port dev" "dev_param d2 = dev_param dev" "dev_kfree d2 = dev_kfree dev"
    "dev_sent d2 = dev_sent dev @ [skb]" "dev_now d2 = (\<lambda>i. dev_now dev (i + (j + k)))"
    using j by (simp_all add: d2_def set_delay_def getnstimeofday_def d1_def add.assoc)
  let ?d = "d2\<lparr>dev_req_skb_out := dev_req_skb_out d2 - 1\<rparr>"
  have "?m AND RXE_REQ_MASK = ?m" by (simp add: and.assoc)
  then obtain t where "account_skb ?m (qp, d2) = (qp\<lparr>qp_req_skb_out := qp_req_skb_out qp - 1, qp_req := (qp_req qp)\<lparr>req_task := t\<rparr>\<rparr>, ?d)"
    using account_request [of ?m qp d2] assms(4) by auto
  then show ?thesis using x d2 by (intro exI [of _ t] exI [of _ ?d]) (auto simp: dev_kept_def)
qed

lemma wqe_src_cong:
  "wqe_dma w' = wqe_dma w \<Longrightarrow> wqe_ibwr w' = wqe_ibwr w \<Longrightarrow> wqe_src pd md w' bs = wqe_src pd md w bs"
  by (simp add: wqe_src_def)

text \<open>The queue pair after a packet of the request in slot \<open>a\<close>.\<close>

definition after_packet :: "u32 \<Rightarrow> u8 \<Rightarrow> bool \<Rightarrow> rxe_qp \<Rightarrow> rxe_qp \<Rightarrow> bool" where
  "after_packet a op fin qp qp' \<longleftrightarrow> (\<exists>w' k t tm. qp' = put_send_wqe a w' (qp\<lparr>qp_req := (qp_req qp)\<lparr>
      req_psn := (req_psn (qp_req qp) + 1) AND BTH_PSN_MASK, req_opcode := uint op, req_noack_pkts := k, req_task := t,
      req_wqe_index := if fin then next_index (qp_sendq qp) (req_wqe_index (qp_req qp)) else req_wqe_index (qp_req qp)\<rparr>,
      qp_retrans_timer := tm\<rparr>)
    \<and> wqe_ibwr w' = wqe_ibwr (get_send_wqe qp a) \<and> wqe_state w' = (if fin then wqe_state_pending else wqe_state_processing))"

lemma req_send_seg:
  assumes cx: "good_ifc (cx_ifc cx)" "iface_ok (cx_ifc cx) (qp_pri_av qp)" "port_ok qp dev" "clock_grows dev"
      "par_bypass_arbiter (dev_param dev)" "qp_ready qp" "qp_type qp = IB_QPT_RC"
    and op: "seg_op op start fin" and n: "n \<le> 8192" "n \<le> length bs"
    and src: "wqe_src (qp_pd qp) (dev_mem dev) (get_send_wqe qp a) bs"
  shows "\<exists>qp' dev' skb. req_send cx a op (int n) (qp, dev) = Some (0, qp', dev') \<and> after_packet a op fin qp qp' \<and> dev_kept dev dev'
    \<and> dev_sent dev' = dev_sent dev @ [skb] \<and> skb_qp skb = Some (qp_self qp)
    \<and> wire_view skb = (op, req_psn (qp_req qp) AND BTH_PSN_MASK, take n bs)
    \<and> wqe_src (qp_pd qp) (dev_mem dev) (get_send_wqe qp' a) (drop n bs)"
proof -
  let ?w = "get_send_wqe qp a" and ?psn = "req_psn (qp_req qp)"
  obtain skb k where i: "init_req_packet (cx_ifc cx) ?w op (int n) (qp, dev) = Some (Some skb,
      qp\<lparr>qp_req_skb_out := qp_req_skb_out qp + 1, qp_req := (qp_req qp)\<lparr>req_noack_pkts := k\<rparr>\<rparr>,
      dev\<lparr>dev_req_skb_out := dev_req_skb_out dev + 1\<rparr>)"
    "skb_qp skb = Some (qp_self qp)" "seg_pkt op ?psn (int n) (skb_pkt skb)"
    using init_req_packet_builds [OF cx(2,3,7) op] by blast
  define qp1 where "qp1 = qp\<lparr>qp_req_skb_out := qp_req_skb_out qp + 1, qp_req := (qp_req qp)\<lparr>req_noack_pkts := k\<rparr>\<rparr>"
  define dev1 where "dev1 = dev\<lparr>dev_req_skb_out := dev_req_skb_out dev + 1\<rparr>"
  have w1: "get_send_wqe qp1 a = ?w" "wqe_src (qp_pd qp1) (dev_mem dev1) (get_send_wqe qp1 a) bs"
    using src by (simp_all add: qp1_def dev1_def get_send_wqe_def)
  have pm: "qp_pd qp1 = qp_pd qp" "dev_mem dev1 = dev_mem dev" by (simp_all add: qp1_def dev1_def)
  obtain skb' dma' where f: "fill_packet (cx_stack cx) a skb (int n) (qp1, dev1) = Some (Some skb', put_send_wqe a (?w\<lparr>wqe_dma := dma'\<rparr>) qp1, dev1)"
    "wqe_src (qp_pd qp) (dev_mem dev) (?w\<lparr>wqe_dma := dma'\<rparr>) (drop n bs)" "skb_qp skb' = skb_qp skb"
    "seg_pkt op ?psn (int n) (skb_pkt skb')" "wire_view skb' = (op, ?psn AND BTH_PSN_MASK, take n bs)"
    using fill_packet_wire [OF i(3) op n(1) w1(2) n(2), where fa = "cx_stack cx"] unfolding w1(1) pm by blast
  define qp2 where "qp2 = put_send_wqe a (?w\<lparr>wqe_dma := dma'\<rparr>) qp1"
  have "qp_type qp2 = IB_QPT_RC" using cx(7) by (simp add: qp2_def qp1_def put_send_wqe_def set_sendq_def)
  from update_state_seg [OF f(4) op this, of a dev1] obtain w' tm where
    u: "update_state a (skb_pkt skb') (int n) (qp2, dev1) = put_send_wqe a w' (qp2\<lparr>qp_req := (qp_req qp2)\<lparr>
      req_psn := (req_psn (qp_req qp2) + 1) AND BTH_PSN_MASK, req_opcode := uint op,
      req_wqe_index := if fin then next_index (qp_sendq qp2) (req_wqe_index (qp_req qp2)) else req_wqe_index (qp_req qp2)\<rparr>,
      qp_retrans_timer := tm\<rparr>)" and
    w': "wqe_ibwr w' = wqe_ibwr (get_send_wqe qp2 a)" "wqe_dma w' = wqe_dma (get_send_wqe qp2 a)"
      "wqe_state w' = (if fin then wqe_state_pending else wqe_state_processing)" by blast
  define qp3 where "qp3 = update_state a (skb_pkt skb') (int n) (qp2, dev1)"
  have "qp_ready qp3" "clock_grows dev1" using cx(4,6) unfolding qp3_def u
    by (simp_all add: qp2_def qp1_def dev1_def qp_ready_def put_send_wqe_def set_sendq_def clock_grows_def)
  moreover have "pkt_mask (skb_pkt skb') AND RXE_REQ_MASK \<noteq> 0"
    using f(4) op net_mask_and(1,12) by (auto simp: seg_pkt_def seg_op_def Let_def)
  ultimately obtain t dev' where x: "xmit_one_packet (cx_ifc cx) skb' (qp3, dev1) = Some (0, qp3\<lparr>qp_req_skb_out := qp_req_skb_out qp3 - 1,
      qp_req := (qp_req qp3)\<lparr>req_task := t\<rparr>\<rparr>, dev')" "dev_kept dev1 dev'" "dev_sent dev' = dev_sent dev1 @ [skb']"
    using xmit_request [OF cx(1), of dev1 qp3 skb'] by blast
  define qp4 where "qp4 = qp3\<lparr>qp_req_skb_out := qp_req_skb_out qp3 - 1, qp_req := (qp_req qp3)\<lparr>req_task := t\<rparr>\<rparr>"
  have q4: "qp4 = put_send_wqe a w' (qp\<lparr>qp_req := (qp_req qp)\<lparr>
      req_psn := (?psn + 1) AND BTH_PSN_MASK, req_opcode := uint op, req_noack_pkts := k, req_task := t,
      req_wqe_index := if fin then next_index (qp_sendq qp) (req_wqe_index (qp_req qp)) else req_wqe_index (qp_req qp)\<rparr>,
      qp_retrans_timer := tm\<rparr>)"
    unfolding qp4_def qp3_def u by (simp add: qp2_def qp1_def put_send_wqe_def set_sendq_def next_index_def queue_write_def)
  have g2: "get_send_wqe qp2 a = ?w\<lparr>wqe_dma := dma'\<rparr>" by (simp add: qp2_def)
  have "after_packet a op fin qp qp4" unfolding after_packet_def q4 using w'(1,3) g2
    by (intro exI [of _ w'] exI [of _ k] exI [of _ t] exI [of _ tm]) simp
  moreover have "wqe_src (qp_pd qp) (dev_mem dev) (get_send_wqe qp4 a) (drop n bs)"
    using f(2) wqe_src_cong [of w' "?w\<lparr>wqe_dma := dma'\<rparr>"] w'(1,2) g2 by (simp add: q4)
  moreover have "req_send cx a op (int n) (qp, dev) = Some (0, qp4, dev')"
  proof -
    have "par_bypass_arbiter (dev_param dev1)" using cx(5) by (simp add: dev1_def)
    then have "send_packet cx skb' (qp3, dev1) = Some (qp4, dev')" using x(1) by (simp add: send_packet_def qp4_def)
    moreover have "qp_type qp4 = IB_QPT_RC" unfolding q4 using cx(7) by (simp add: put_send_wqe_def set_sendq_def)
    moreover have "init_req_packet (cx_ifc cx) ?w op (int n) (qp, dev) = Some (Some skb, qp1, dev1)" using i(1) by (simp add: qp1_def dev1_def)
    ultimately show ?thesis using f(1) by (simp add: req_send_def req_complete_def flip: qp2_def qp3_def)
  qed
  moreover have "dev_kept dev dev'" "dev_sent dev' = dev_sent dev @ [skb']" using x(2,3) by (simp_all add: dev_kept_def dev1_def)
  ultimately show ?thesis using f(3,5) i(2) by auto
qed

text \<open>The requester of a reliable connection at work on the send or write in slot \<open>a\<close>: it has still to
  send the bytes \<open>bs\<close>, from the start of the message or from its middle.\<close>

definition req_env :: "run_ctx \<Rightarrow> rxe_qp \<times> rxe_dev \<Rightarrow> bool" where
  "req_env cx qd \<longleftrightarrow> (case qd of (qp, dev) \<Rightarrow>
     good_ifc (cx_ifc cx) \<and> iface_ok (cx_ifc cx) (qp_pri_av qp) \<and> port_ok qp dev \<and> clock_grows dev
     \<and> par_bypass_arbiter (dev_param dev) \<and> qp_ready qp \<and> qp_type qp = IB_QPT_RC \<and> \<not> req_need_retry (qp_req qp)
     \<and> 0 < qp_mtu qp \<and> unat (qp_mtu qp) \<le> 8192 \<and> qp_req_skb_out qp \<le> par_max_skb_per_qp (dev_param dev))"

definition req_at :: "u32 \<Rightarrow> u8 \<times> u8 \<times> u8 \<times> u8 \<Rightarrow> bool \<Rightarrow> u8 list \<Rightarrow> rxe_qp \<times> rxe_dev \<Rightarrow> bool" where
  "req_at a ops start bs qd \<longleftrightarrow> (case qd of (qp, dev) \<Rightarrow>
     let q = qp_sendq qp; i = req_wqe_index (qp_req qp); w = get_send_wqe qp a; wr = wqe_ibwr w in
     i \<noteq> producer_index q \<and> addr_from_index q i = a
     \<and> (wr_send_flags wr AND IB_SEND_FENCE \<noteq> 0 \<longrightarrow> i = consumer_index q)
     \<and> wr_opcode_mask (wr_opcode wr) qp \<noteq> None \<and> rc_ops (wr_opcode wr) = Some ops
     \<and> wqe_src (qp_pd qp) (dev_mem dev) w bs
     \<and> (case ops of (f, m, l, e) \<Rightarrow> (req_opcode (qp_req qp) = uint f \<or> req_opcode (qp_req qp) = uint m) = (\<not> start)))"

definition in_window :: "rxe_qp \<times> rxe_dev \<Rightarrow> u32 \<Rightarrow> bool" where
  "in_window qd psn \<longleftrightarrow> psn_compare psn (comp_psn (qp_comp (fst qd)) + word_of_int (par_max_req_comp_gap (dev_param (snd qd)))) \<le> 0"

lemma after_packet_kept:
  assumes "after_packet a op fin qp qp'"
  shows "qp_type qp' = qp_type qp" "qp_pd qp' = qp_pd qp" "qp_mtu qp' = qp_mtu qp" "qp_pri_av qp' = qp_pri_av qp" "qp_attr qp' = qp_attr qp"
    "qp_ready qp' = qp_ready qp" "qp_comp qp' = qp_comp qp" "qp_self qp' = qp_self qp" "qp_req_skb_out qp' = qp_req_skb_out qp"
    "req_need_retry (qp_req qp') = req_need_retry (qp_req qp)" "req_psn (qp_req qp') = (req_psn (qp_req qp) + 1) AND BTH_PSN_MASK"
    "req_opcode (qp_req qp') = uint op" "wqe_ibwr (get_send_wqe qp' a) = wqe_ibwr (get_send_wqe qp a)"
    "wqe_state (get_send_wqe qp' a) = (if fin then wqe_state_pending else wqe_state_processing)"
    "req_wqe_index (qp_req qp') = (if fin then next_index (qp_sendq qp) (req_wqe_index (qp_req qp)) else req_wqe_index (qp_req qp))"
    "producer_index (qp_sendq qp') = producer_index (qp_sendq qp)" "consumer_index (qp_sendq qp') = consumer_index (qp_sendq qp)"
    "addr_from_index (qp_sendq qp') = addr_from_index (qp_sendq qp)" "next_index (qp_sendq qp') = next_index (qp_sendq qp)"
  using assms by (auto simp: after_packet_def qp_ready_def put_send_wqe_def get_send_wqe_def set_sendq_def queue_write_def queue_read_def
      producer_index_def consumer_index_def addr_from_index_def next_index_def fun_eq_iff)

lemma env_kept:
  assumes "req_env cx (qp, dev)" and "after_packet a op fin qp qp'" and "dev_kept dev dev'"
  shows "req_env cx (qp', dev')" "in_window (qp', dev') psn = in_window (qp, dev) psn"
proof -
  have "port_ok qp' dev' = port_ok qp dev"
    using assms(3) by (simp add: port_ok_def after_packet_kept [OF assms(2)] dev_kept_def port_of_def cong: option.case_cong)
  moreover have "clock_grows dev'" using assms(1,3) clock_grows_shift by (auto simp: req_env_def dev_kept_def)
  ultimately show "req_env cx (qp', dev')" using assms(1,3) by (simp add: req_env_def after_packet_kept [OF assms(2)] dev_kept_def)
  show "in_window (qp', dev') psn = in_window (qp, dev) psn"
    using assms(3) by (simp add: in_window_def after_packet_kept [OF assms(2)] dev_kept_def)
qed

lemma rxe_requester_send:
  assumes env: "req_env cx (qp, dev)" and at: "req_at a (f, m, l, e) start bs (qp, dev)" and win: "in_window (qp, dev) (req_psn (qp_req qp))"
    and op: "op = (if length bs \<le> unat (qp_mtu qp) then if start then e else l else if start then f else m)"
  shows "\<exists>w. wqe_ibwr w = wqe_ibwr (get_send_wqe qp a) \<and> wqe_dma w = wqe_dma (get_send_wqe qp a)
    \<and> rxe_requester cx (qp, dev) = req_send cx a op (int (min (length bs) (unat (qp_mtu qp)))) (put_send_wqe a w qp, dev)"
proof -
  let ?q = "qp_sendq qp" and ?i = "req_wqe_index (qp_req qp)" and ?w = "get_send_wqe qp a"
  have r: "qp_valid qp" "req_state (qp_req qp) = QP_STATE_READY" "\<not> req_need_retry (qp_req qp)" "qp_type qp = IB_QPT_RC"
    "unat (qp_mtu qp) \<le> 8192" "\<not> par_max_skb_per_qp (dev_param dev) < qp_req_skb_out qp" using env by (simp_all add: req_env_def qp_ready_def)
  have at': "?i \<noteq> producer_index ?q" "addr_from_index ?q ?i = a" "wr_send_flags (wqe_ibwr ?w) AND IB_SEND_FENCE \<noteq> 0 \<longrightarrow> ?i = consumer_index ?q"
    "rc_ops (wr_opcode (wqe_ibwr ?w)) = Some (f, m, l, e)" "wqe_src (qp_pd qp) (dev_mem dev) ?w bs"
    "(req_opcode (qp_req qp) = uint f \<or> req_opcode (qp_req qp) = uint m) = (\<not> start)" using at by (simp_all add: req_at_def Let_def)
  obtain wm where wm: "wr_opcode_mask (wr_opcode (wqe_ibwr ?w)) qp = Some wm" using at by (auto simp: req_at_def Let_def)
  let ?w1 = "?w\<lparr>wqe_mask := wm\<rparr>"
  let ?qp = "put_send_wqe a ?w1 qp"
  have n: "req_next_wqe (qp, dev) = Some (Some a, ?qp, dev)"
    using at'(1-3) r(2) wm by (auto simp: req_next_wqe_def req_drained_def Let_def)
  have len: "length bs < 2147483648" "dma_resid (wqe_dma ?w) = of_nat (length bs)" using at'(5) by (simp_all add: wqe_src_def Let_def)
  have fits: "(of_nat (length bs) \<le> qp_mtu qp) = (length bs \<le> unat (qp_mtu qp))" using len(1) by (simp add: word_le_nat_alt unat_of_nat)
  have p: "qp_type ?qp = IB_QPT_RC" "qp_mtu ?qp = qp_mtu qp" "qp_req_skb_out ?qp = qp_req_skb_out qp" "qp_req ?qp = qp_req qp" "qp_comp ?qp = qp_comp qp"
    using r(4) by (simp_all add: put_send_wqe_def set_sendq_def)
  note ops = seg_ops [OF at'(4), of ?qp "length bs \<le> unat (qp_mtu qp)"]
  have "seg_op op start (length bs \<le> unat (qp_mtu qp))" using ops op by auto
  then have m: "oi_mask (rxe_opcode op) AND RXE_READ_OR_ATOMIC = 0" "oi_mask (rxe_opcode op) AND RXE_WRITE_OR_SEND \<noteq> 0"
    by (simp_all add: seg_op_def Let_def)
  have nxt: "next_opcode ?qp ?w1 (wr_opcode (wqe_ibwr ?w)) = uint op"
    using ops at'(6) by (simp add: next_opcode_def p len(2) fits seq_opcode_def op)
  have mtu: "sint (qp_mtu qp) = int (unat (qp_mtu qp))" using r(5) by (simp add: sint_u32)
  have win': "\<not> 0 < psn_compare (req_psn (qp_req qp)) (comp_psn (qp_comp qp) + word_of_int (par_max_req_comp_gap (dev_param dev)))"
    using win by (simp add: in_window_def)
  have "rxe_requester cx (qp, dev) = req_send cx a op (min (sint (of_nat (length bs) :: u32)) (sint (qp_mtu qp))) (?qp, dev)"
    unfolding rxe_requester_def using r n m nxt win' by (simp add: Let_def p len(2) get_mtu_def)
  then have "rxe_requester cx (qp, dev) = req_send cx a op (int (min (length bs) (unat (qp_mtu qp)))) (?qp, dev)"
    using len(1) by (simp add: mtu sint_of_nat_u32 of_nat_min)
  then show ?thesis by (intro exI [of _ ?w1]) simp
qed

lemma after_packet_put:
  assumes "after_packet a op fin (put_send_wqe a w qp) qp'" and "wqe_ibwr w = wqe_ibwr (get_send_wqe qp a)"
  shows "after_packet a op fin qp qp'"
proof -
  let ?q = "\<lambda>w' k t tm qp. put_send_wqe a w' (qp\<lparr>qp_req := (qp_req qp)\<lparr>
      req_psn := (req_psn (qp_req qp) + 1) AND BTH_PSN_MASK, req_opcode := uint op, req_noack_pkts := k, req_task := t,
      req_wqe_index := if fin then next_index (qp_sendq qp) (req_wqe_index (qp_req qp)) else req_wqe_index (qp_req qp)\<rparr>,
      qp_retrans_timer := tm\<rparr>)"
  have e: "?q w' k t tm (put_send_wqe a w qp) = ?q w' k t tm qp" for w' k t tm
    by (simp add: put_send_wqe_def set_sendq_def next_index_def queue_write_def)
  show ?thesis using assms unfolding after_packet_def e by simp
qed

lemma rxe_requester_packet:
  assumes env: "req_env cx (qp, dev)" and at: "req_at a (f, m, l, e) start bs (qp, dev)" and win: "in_window (qp, dev) (req_psn (qp_req qp))"
    and op: "op = (if length bs \<le> unat (qp_mtu qp) then if start then e else l else if start then f else m)"
  shows "\<exists>qp' dev' skb. rxe_requester cx (qp, dev) = Some (0, qp', dev') \<and> after_packet a op (length bs \<le> unat (qp_mtu qp)) qp qp' \<and> dev_kept dev dev'
    \<and> dev_sent dev' = dev_sent dev @ [skb] \<and> skb_qp skb = Some (qp_self qp)
    \<and> wire_view skb = (op, req_psn (qp_req qp) AND BTH_PSN_MASK, take (unat (qp_mtu qp)) bs)
    \<and> wqe_src (qp_pd qp) (dev_mem dev) (get_send_wqe qp' a) (drop (unat (qp_mtu qp)) bs)"
proof -
  let ?n = "min (length bs) (unat (qp_mtu qp))" and ?fin = "length bs \<le> unat (qp_mtu qp)"
  obtain w where w: "wqe_ibwr w = wqe_ibwr (get_send_wqe qp a)" "wqe_dma w = wqe_dma (get_send_wqe qp a)"
    "rxe_requester cx (qp, dev) = req_send cx a op (int ?n) (put_send_wqe a w qp, dev)" using rxe_requester_send [OF assms] by blast
  let ?qp = "put_send_wqe a w qp"
  have q: "qp_pri_av ?qp = qp_pri_av qp" "qp_attr ?qp = qp_attr qp" "qp_ready ?qp = qp_ready qp" "qp_type ?qp = qp_type qp" "qp_pd ?qp = qp_pd qp"
    by (simp_all add: put_send_wqe_def set_sendq_def qp_ready_def)
  have "rc_ops (wr_opcode (wqe_ibwr (get_send_wqe qp a))) = Some (f, m, l, e)" using at by (simp add: req_at_def Let_def)
  then have "seg_op op start ?fin" using seg_ops op by auto
  moreover have "port_ok ?qp dev" using env by (simp add: req_env_def port_ok_def q cong: option.case_cong)
  moreover have "wqe_src (qp_pd ?qp) (dev_mem dev) (get_send_wqe ?qp a) bs"
    using at wqe_src_cong [OF w(2,1)] by (simp add: q req_at_def Let_def)
  moreover have "?n \<le> 8192" "?n \<le> length bs" using env by (auto simp: req_env_def min_le_iff_disj)
  moreover have "good_ifc (cx_ifc cx)" "iface_ok (cx_ifc cx) (qp_pri_av ?qp)" "clock_grows dev" "par_bypass_arbiter (dev_param dev)" "qp_ready ?qp"
    "qp_type ?qp = IB_QPT_RC" using env by (simp_all add: q req_env_def)
  ultimately obtain qp' dev' skb where r: "req_send cx a op (int ?n) (?qp, dev) = Some (0, qp', dev')" "after_packet a op ?fin ?qp qp'" "dev_kept dev dev'"
    "dev_sent dev' = dev_sent dev @ [skb]" "skb_qp skb = Some (qp_self ?qp)" "wire_view skb = (op, req_psn (qp_req ?qp) AND BTH_PSN_MASK, take ?n bs)"
    "wqe_src (qp_pd ?qp) (dev_mem dev) (get_send_wqe qp' a) (drop ?n bs)"
    using req_send_seg [where bs = bs and n = ?n] by blast
  have "after_packet a op ?fin qp qp'" by (rule after_packet_put [OF r(2) w(1)])
  moreover have "take ?n bs = take (unat (qp_mtu qp)) bs" "drop ?n bs = drop (unat (qp_mtu qp)) bs" by (simp_all add: min_def)
  ultimately show ?thesis using r w(3) q(5) by auto
qed

subsection \<open>A whole message\<close>

text \<open>The requester's task: runs while the requester returns 0.\<close>

primrec requester_runs :: "run_ctx \<Rightarrow> nat \<Rightarrow> rxe_qp \<times> rxe_dev \<Rightarrow> (rxe_qp \<times> rxe_dev) option" where
  "requester_runs cx 0 qd = Some qd"
| "requester_runs cx (Suc n) qd = (case rxe_requester cx qd of None \<Rightarrow> None
     | Some (ret, qd) \<Rightarrow> if ret = 0 then requester_runs cx n qd else None)"

lemma msg_packets_payload: "concat (map (\<lambda>(op, psn, p). p) (msg_packets ops start mtu psn bs)) = bs"
proof (induction ops start mtu psn bs rule: msg_packets.induct)
  case (1 f m l e start mtu psn bs)
  then show ?case by (subst msg_packets.simps) auto
qed

lemma msg_packets_mtu: "0 < mtu \<Longrightarrow> p \<in> set (msg_packets ops start mtu psn bs) \<Longrightarrow> length (snd (snd p)) \<le> mtu"
proof (induction ops start mtu psn bs rule: msg_packets.induct)
  case (1 f m l e start mtu psn bs)
  then show ?case by (subst (asm) (2) msg_packets.simps) (auto split: if_splits)
qed

lemma psn_step: "(((psn + 1) AND BTH_PSN_MASK) + of_nat k) AND BTH_PSN_MASK = (psn + of_nat (Suc k)) AND (BTH_PSN_MASK :: u32)"
  by (simp add: and_psn_mask word_take_bit_add_left add.assoc)

lemma requester_message:
  assumes "req_env cx (qp, dev)" and "req_at a (f, m, l, e) start bs (qp, dev)" and "req_psn (qp_req qp) AND BTH_PSN_MASK = req_psn (qp_req qp)"
    and "\<forall>p \<in> set (msg_packets (f, m, l, e) start (unat (qp_mtu qp)) (req_psn (qp_req qp)) bs). in_window (qp, dev) (fst (snd p))"
  shows "\<exists>qp' dev' skbs. requester_runs cx (length (msg_packets (f, m, l, e) start (unat (qp_mtu qp)) (req_psn (qp_req qp)) bs)) (qp, dev)
        = Some (qp', dev')
    \<and> dev_sent dev' = dev_sent dev @ skbs \<and> dev_kfree dev' = dev_kfree dev
    \<and> map wire_view skbs = msg_packets (f, m, l, e) start (unat (qp_mtu qp)) (req_psn (qp_req qp)) bs
    \<and> (\<forall>skb \<in> set skbs. skb_qp skb = Some (qp_self qp))
    \<and> req_wqe_index (qp_req qp') = next_index (qp_sendq qp) (req_wqe_index (qp_req qp))
    \<and> wqe_state (get_send_wqe qp' a) = wqe_state_pending \<and> wqe_src (qp_pd qp) (dev_mem dev) (get_send_wqe qp' a) []
    \<and> req_psn (qp_req qp') = (req_psn (qp_req qp) + of_nat (length skbs)) AND BTH_PSN_MASK"
  using assms
proof (induction "length bs" arbitrary: qp dev start bs rule: less_induct)
  case less
  let ?mtu = "unat (qp_mtu qp)" and ?psn = "req_psn (qp_req qp)" and ?ops = "(f, m, l, e)"
  let ?fin = "length bs \<le> ?mtu"
  let ?op = "if ?fin then if start then e else l else if start then f else m"
  have mtu: "0 < ?mtu" using less.prems(1) by (simp add: req_env_def unat_gt_0 word_gt_0)
  have "in_window (qp, dev) ?psn" using less.prems(4) by (subst (asm) msg_packets.simps) (auto split: if_splits)
  then obtain qp1 dev1 skb where s: "rxe_requester cx (qp, dev) = Some (0, qp1, dev1)" "after_packet a ?op ?fin qp qp1" "dev_kept dev dev1"
    "dev_sent dev1 = dev_sent dev @ [skb]" "skb_qp skb = Some (qp_self qp)" "wire_view skb = (?op, ?psn, take ?mtu bs)"
    "wqe_src (qp_pd qp) (dev_mem dev) (get_send_wqe qp1 a) (drop ?mtu bs)"
    using rxe_requester_packet [OF less.prems(1,2) _ refl] less.prems(3) by auto
  note k = after_packet_kept [OF s(2)]
  show ?case
  proof (cases ?fin)
    case True
    then have "msg_packets ?ops start ?mtu ?psn bs = [(if start then e else l, ?psn, bs)]" by (subst msg_packets.simps) simp
    then show ?thesis using s True k by (intro exI [of _ qp1] exI [of _ dev1] exI [of _ "[skb]"]) (simp add: dev_kept_def)
  next
    case False
    let ?ps = "msg_packets ?ops False ?mtu ((?psn + 1) AND BTH_PSN_MASK) (drop ?mtu bs)"
    have ps: "msg_packets ?ops start ?mtu ?psn bs = (if start then f else m, ?psn, take ?mtu bs) # ?ps"
      using False mtu by (subst msg_packets.simps) simp
    have "req_at a ?ops False (drop ?mtu bs) (qp1, dev1)"
      using less.prems(2) s(3,7) False by (simp add: req_at_def Let_def k wr_opcode_mask_def dev_kept_def)
    moreover have "req_env cx (qp1, dev1)" by (rule env_kept [OF less.prems(1) s(2,3)])
    moreover have "req_psn (qp_req qp1) AND BTH_PSN_MASK = req_psn (qp_req qp1)" by (simp add: k and.assoc)
    moreover have "\<forall>p \<in> set ?ps. in_window (qp1, dev1) (fst (snd p))"
      using less.prems(4) unfolding ps by (simp add: env_kept(2) [OF less.prems(1) s(2,3)])
    moreover have "length (drop ?mtu bs) < length bs" using False mtu by simp
    ultimately obtain qp' dev' skbs where r: "requester_runs cx (length ?ps) (qp1, dev1) = Some (qp', dev')"
      "dev_sent dev' = dev_sent dev1 @ skbs" "dev_kfree dev' = dev_kfree dev1" "map wire_view skbs = ?ps" "\<forall>skb \<in> set skbs. skb_qp skb = Some (qp_self qp)"
      "req_wqe_index (qp_req qp') = next_index (qp_sendq qp) (req_wqe_index (qp_req qp))" "wqe_state (get_send_wqe qp' a) = wqe_state_pending"
      "wqe_src (qp_pd qp) (dev_mem dev1) (get_send_wqe qp' a) []"
      "req_psn (qp_req qp') = (((?psn + 1) AND BTH_PSN_MASK) + of_nat (length skbs)) AND BTH_PSN_MASK"
      using less.hyps [of "drop ?mtu bs" qp1 dev1 False] False unfolding k by auto
    then show ?thesis using s False
      by (intro exI [of _ qp'] exI [of _ dev'] exI [of _ "skb # skbs"]) (simp add: ps psn_step dev_kept_def del: of_nat_Suc)
  qed
qed

subsection \<open>Properties\<close>

text \<open>
  C4: the requester refines the segmentation of messages. Given a send or RDMA write at the head of its
  work, runs of the requester of a reliable connection put exactly the packets of the specification
  \<open>msg_packets\<close> on the wire: with the first, middle, last and only opcodes in their places, consecutive
  sequence numbers, and payloads of at most the path MTU which together are the bytes of the
  request, whether these are inline or gathered from registered memory. Afterwards the request waits for
  its acknowledgement and the requester is at the next one. The conditions say that the packets are inside the
  window, and that the interface takes every packet.
\<close>

theorem rxe_requester_segments:
  assumes "req_env cx (qp, dev)" and "req_at a ops True bs (qp, dev)"
    and "req_psn (qp_req qp) AND BTH_PSN_MASK = req_psn (qp_req qp)"
    and "ps = msg_packets ops True (unat (qp_mtu qp)) (req_psn (qp_req qp)) bs" and "\<forall>p \<in> set ps. in_window (qp, dev) (fst (snd p))"
  shows "\<exists>qp' dev' skbs. requester_runs cx (length ps) (qp, dev) = Some (qp', dev')
    \<and> dev_sent dev' = dev_sent dev @ skbs \<and> dev_kfree dev' = dev_kfree dev
    \<and> map wire_view skbs = ps \<and> (\<forall>skb \<in> set skbs. skb_qp skb = Some (qp_self qp))
    \<and> concat (map (\<lambda>(op, psn, p). p) ps) = bs \<and> (\<forall>p \<in> set ps. length (snd (snd p)) \<le> unat (qp_mtu qp))
    \<and> req_wqe_index (qp_req qp') = next_index (qp_sendq qp) (req_wqe_index (qp_req qp))
    \<and> wqe_state (get_send_wqe qp' a) = wqe_state_pending \<and> dma_resid (wqe_dma (get_send_wqe qp' a)) = 0
    \<and> req_psn (qp_req qp') = (req_psn (qp_req qp) + of_nat (length skbs)) AND BTH_PSN_MASK"
proof -
  obtain f m l e where ops: "ops = (f, m, l, e)" by (cases ops)
  have "0 < unat (qp_mtu qp)" using assms(1) by (simp add: req_env_def unat_gt_0 word_gt_0)
  then have "\<forall>p \<in> set ps. length (snd (snd p)) \<le> unat (qp_mtu qp)" using msg_packets_mtu assms(4) by blast
  moreover have "concat (map (\<lambda>(op, psn, p). p) ps) = bs" unfolding assms(4) by (rule msg_packets_payload)
  moreover have "wqe_src pd md w [] \<Longrightarrow> dma_resid (wqe_dma w) = 0" for pd md w by (simp add: wqe_src_def Let_def)
  ultimately show ?thesis
    using requester_message [OF assms(1) assms(2) [unfolded ops] assms(3)] assms(5) unfolding assms(4) ops by blast
qed

text \<open>An inline send of 600 bytes over a path with an MTU of 256.\<close>

definition sample_send :: rxe_send_wqe where
  "sample_send = (sample_wqe 1 0)\<lparr>wqe_state := wqe_state_posted,
     wqe_ibwr := (sample_wr 1)\<lparr>wr_send_flags := IB_SEND_SIGNALED OR IB_SEND_INLINE\<rparr>,
     wqe_dma := \<lparr>dma_length = 600, dma_resid = 600, dma_cur_sge = 0, dma_num_sge = 0, dma_sge_offset = 0,
       dma_inline = word_of_int, dma_sge = []\<rparr>\<rparr>"

definition sample_send_qp :: rxe_qp where
  "sample_send_qp = (sample_qp [sample_send] [])\<lparr>qp_mtu := 256\<rparr>"

definition sample_cx :: run_ctx where
  "sample_cx = \<lparr>cx_ifc = net_ifc_ops sample_net, cx_in_irq = False, cx_irqs_disabled = False, cx_stack = 0, cx_clone = Some, cx_arbiter = Some\<rparr>"

lemma sample_clock: "clock_grows sample_dev"
proof -
  have "\<exists>n \<ge> N. \<not> timespec_less \<lparr>tv_sec = int n, tv_nsec = 0\<rparr> t" for t N
    by (intro exI [of _ "max N (nat (tv_sec t) + 1)"]) (auto simp: timespec_less_def)
  then show ?thesis by (simp add: clock_grows_def sample_dev_def)
qed

lemma sample_req_env: "req_env sample_cx (sample_send_qp, sample_dev)"
proof -
  have "iface_ok (net_ifc_ops sample_net) av" for av
    by (simp add: iface_ok_def net_ifc_ops_def net_init_packet_def sample_net_def Let_def net_mask_def)
  moreover have "good_ifc (net_ifc_ops sample_net)" by (rule net_ifc_good) (simp_all add: sample_net_def)
  moreover have "port_ok sample_send_qp sample_dev"
    by (simp add: port_ok_def port_of_def sample_send_qp_def sample_qp_def sample_qp_attr_def sample_dev_def sample_av_def)
  ultimately show ?thesis using sample_clock
    by (simp add: req_env_def sample_cx_def qp_ready_def) (simp add: sample_send_qp_def sample_qp_def sample_dev_def)
qed

lemma sample_req_at: "req_at 0 (0, 1, 2, 4) True (bytes_list word_of_int 0 600) (sample_send_qp, sample_dev)"
proof -
  let ?q = "qp_sendq sample_send_qp"
  have q: "?q = queue_push sample_send \<lparr>buf = \<lparr>qb_log2_elem_size = 8, qb_index_mask = 7, qb_producer_index = 0,
      qb_consumer_index = 0, qb_data = (\<lambda>_. sample_wqe 0 0)\<rparr>, buf_size = 2176, elem_size = 200, log2_elem_size = 8, index_mask = 7\<rparr>"
    by (simp add: sample_send_qp_def sample_qp_def sample_ring_def)
  have g: "get_send_wqe sample_send_qp 0 = sample_send"
    unfolding get_send_wqe_def q by (simp add: queue_push_def queue_read_def queue_write_def producer_addr_def advance_producer_def)
  have a: "producer_index ?q = 1" "consumer_index ?q = 0" "addr_from_index ?q 0 = 0"
    unfolding q by (simp_all add: queue_push_def queue_write_def advance_producer_def producer_index_def consumer_index_def addr_from_index_def)
  have r: "req_wqe_index (qp_req sample_send_qp) = 0" "req_opcode (qp_req sample_send_qp) = -1" by (simp_all add: sample_send_qp_def sample_qp_def)
  have s: "wr_opcode_mask IB_WR_SEND sample_send_qp \<noteq> None" "rc_ops IB_WR_SEND = Some (0, 1, 2, 4)" by (simp_all add: wr_opcode_mask_def rxe_wr_opcode_info_table_def rc_ops_def)
  have "wqe_src pd md sample_send (bytes_list word_of_int 0 600)" for pd md
    by (simp add: wqe_src_def Let_def sample_send_def)
  then show ?thesis using s unfolding req_at_def by (simp add: Let_def g a r) (simp add: sample_send_def sample_wr_def)
qed

lemma sample_msg:
  "msg_packets (0, 1, 2, 4) True 256 0 (bytes_list word_of_int 0 600) = [(0, 0, bytes_list word_of_int 0 256),
     (1, 1, bytes_list word_of_int 256 256), (2, 2, bytes_list word_of_int 512 88)]"
proof -
  have "take 256 (bytes_list f p (256 + n)) = bytes_list f p 256" "drop 256 (bytes_list f p (256 + n)) = bytes_list f (p + 256) n" for f p n
    by (simp_all add: bytes_list_add)
  from this [where n = 344] this [where n = 88] show ?thesis
    by (subst msg_packets.simps, simp)+
qed

theorem rxe_requester_segments_witness:
  "\<exists>qp' dev' skbs. requester_runs sample_cx 3 (sample_send_qp, sample_dev) = Some (qp', dev') \<and> dev_sent dev' = skbs
    \<and> map wire_view skbs = [(IB_OPCODE_RC_SEND_FIRST, 0, bytes_list word_of_int 0 256),
        (IB_OPCODE_RC_SEND_MIDDLE, 1, bytes_list word_of_int 256 256), (IB_OPCODE_RC_SEND_LAST, 2, bytes_list word_of_int 512 88)]
    \<and> req_psn (qp_req qp') = 3"
proof -
  have p: "req_psn (qp_req sample_send_qp) = 0" "qp_mtu sample_send_qp = 256" "dev_sent sample_dev = []"
    by (simp_all add: sample_send_qp_def sample_qp_def sample_dev_def)
  have w: "in_window (sample_send_qp, sample_dev) psn \<longleftrightarrow> psn_compare psn 128 \<le> 0" for psn
    by (simp add: in_window_def sample_send_qp_def sample_qp_def sample_dev_def)
  have "psn_compare 0 128 \<le> 0" "psn_compare 1 128 \<le> 0" "psn_compare 2 128 \<le> 0" by code_simp+
  then obtain qp' dev' skbs where "requester_runs sample_cx 3 (sample_send_qp, sample_dev) = Some (qp', dev')" "dev_sent dev' = skbs"
    "map wire_view skbs = [(0, 0, bytes_list word_of_int 0 256), (1, 1, bytes_list word_of_int 256 256), (2, 2, bytes_list word_of_int 512 88)]"
    "req_psn (qp_req qp') = of_nat (length skbs) AND BTH_PSN_MASK"
    using rxe_requester_segments [OF sample_req_env sample_req_at _ refl] by (auto simp: p w sample_msg numeral_3_eq_3 simp del: requester_runs.simps(2))
  moreover from this(3) have "length skbs = 3" by (metis length_map length_Cons list.size(3) numeral_3_eq_3)
  ultimately show ?thesis by (intro exI conjI; assumption?) simp_all
qed

end
