(* ===== verification/Rxe_Resp.thy ===== *)
theory Rxe_Resp
  imports Rxe_Req
begin

text \<open>
  The responder of a queue pair, \<open>rxe_resp.c\<close>: it takes the request packet at the head of
  \<open>req_pkts\<close> through the checks of sequence number, opcode, resources, length and key, executes it,
  reports a completion and acknowledges. The state machine is \<open>resp_loop\<close> over \<open>resp_step\<close>; the
  variable \<open>pkt\<close> of the C function is an argument, \<open>None\<close> being the null pointer. The pointer
  \<open>resp.res\<close> is an index into \<open>resp.resources\<close>. The resources of reads and atomics come from
  \<open>rxe_qp.c\<close> and \<open>rxe_loc.h\<close>. A result \<open>None\<close> is a null pointer, an access outside a structure or a
  read of the wrong member of a union.
\<close>

datatype resp_states = RESPST_NONE | RESPST_GET_REQ | RESPST_CHK_PSN | RESPST_CHK_OP_SEQ | RESPST_CHK_OP_VALID
  | RESPST_CHK_RESOURCE | RESPST_CHK_LENGTH | RESPST_CHK_RKEY | RESPST_EXECUTE | RESPST_READ_REPLY | RESPST_COMPLETE
  | RESPST_ACKNOWLEDGE | RESPST_CLEANUP | RESPST_DUPLICATE_REQUEST | RESPST_ERR_MALFORMED_WQE
  | RESPST_ERR_UNSUPPORTED_OPCODE | RESPST_ERR_MISALIGNED_ATOMIC | RESPST_ERR_PSN_OUT_OF_SEQ
  | RESPST_ERR_MISSING_OPCODE_FIRST | RESPST_ERR_MISSING_OPCODE_LAST_C | RESPST_ERR_MISSING_OPCODE_LAST_D1E
  | RESPST_ERR_TOO_MANY_RDMA_ATM_REQ | RESPST_ERR_RNR | RESPST_ERR_RKEY_VIOLATION | RESPST_ERR_LENGTH
  | RESPST_ERR_CQ_OVERFLOW | RESPST_ERROR | RESPST_RESET | RESPST_DONE | RESPST_EXIT

subsection \<open>Receive queue and resources\<close>

abbreviation (input) set_resp :: "(rxe_resp_info \<Rightarrow> rxe_resp_info) \<Rightarrow> rxe_qp \<Rightarrow> rxe_qp" where
  "set_resp f qp \<equiv> qp\<lparr>qp_resp := f (qp_resp qp)\<rparr>"

definition get_recv_wqe :: "rxe_qp \<Rightarrow> rxe_recv_wqe option" where
  "get_recv_wqe qp = (case resp_wqe (qp_resp qp) of No_wqe \<Rightarrow> None
     | Rq_wqe a \<Rightarrow> map_option (\<lambda>q. queue_read q a) (rq_queue (qp_rq qp))
     | Srq_wqe \<Rightarrow> Some (resp_srq_wqe (qp_resp qp)))"

definition put_recv_wqe :: "rxe_recv_wqe \<Rightarrow> rxe_qp \<Rightarrow> rxe_qp" where
  "put_recv_wqe w qp = (case resp_wqe (qp_resp qp) of No_wqe \<Rightarrow> qp
     | Rq_wqe a \<Rightarrow> qp\<lparr>qp_rq := (qp_rq qp)\<lparr>rq_queue := map_option (\<lambda>q. queue_write q a w) (rq_queue (qp_rq qp))\<rparr>\<rparr>
     | Srq_wqe \<Rightarrow> set_resp (\<lambda>r. r\<lparr>resp_srq_wqe := w\<rparr>) qp)"

definition get_res :: "rxe_qp \<Rightarrow> nat \<Rightarrow> resp_res option" where
  "get_res qp i = (case resp_resources (qp_resp qp) of None \<Rightarrow> None | Some rs \<Rightarrow> nth_opt rs i)"

definition put_res :: "nat \<Rightarrow> resp_res \<Rightarrow> rxe_qp \<Rightarrow> rxe_qp" where
  "put_res i res qp = set_resp (\<lambda>r. r\<lparr>resp_resources := map_option (\<lambda>rs. rs[i := res]) (resp_resources r)\<rparr>) qp"

definition drop_mr :: "nat \<Rightarrow> rxe_dev \<Rightarrow> rxe_dev" where
  "drop_mr h dev = dev\<lparr>dev_mem := drop_mem h (dev_mem dev)\<rparr>"

text \<open>Of the counters only the one of the device goes down.\<close>

definition free_rd_atomic_resource :: "nat \<Rightarrow> rxe_qp \<times> rxe_dev \<Rightarrow> (rxe_qp \<times> rxe_dev) option" where
  "free_rd_atomic_resource i qd = (case qd of (qp, dev) \<Rightarrow>
     map_option (\<lambda>res.
       let dev = (if res_type res = RXE_ATOMIC_MASK
                  then let dev = drop_qp (qp_self qp) dev;
                           dev = (case res_skb res of None \<Rightarrow> dev | Some skb \<Rightarrow> kfree_skb skb dev)
                       in dev\<lparr>dev_resp_skb_out := dev_resp_skb_out dev - 1\<rparr>
                  else if res_type res = RXE_READ_MASK
                  then (case res_mr res of None \<Rightarrow> dev | Some h \<Rightarrow> drop_mr h dev) else dev)
       in (put_res i (res\<lparr>res_type := 0\<rparr>) qp, dev)) (get_res qp i))"

definition rxe_advance_resp_resource :: "rxe_qp \<Rightarrow> rxe_qp" where
  "rxe_advance_resp_resource qp =
     (let h = resp_res_head (qp_resp qp) + 1
      in set_resp (\<lambda>r. r\<lparr>resp_res_head := if h = ucast (at_max_rd_atomic (qp_attr qp)) then 0 else h\<rparr>) qp)"

subsection \<open>Arrival and choice of a packet\<close>

text \<open>The last component says whether the caller goes on to run the responder itself.\<close>

definition rxe_resp_queue_pkt ::
    "bool \<Rightarrow> bool \<Rightarrow> sk_buff \<Rightarrow> rxe_qp \<times> rxe_dev \<Rightarrow> (rxe_qp \<times> rxe_dev) \<times> bool" where
  "rxe_resp_queue_pkt in_irq irqs_disabled skb qd = (case qd of (qp, dev) \<Rightarrow>
     let dev = dev\<lparr>dev_req_skb_in := dev_req_skb_in dev + 1\<rparr>;
         qp = qp\<lparr>qp_req_skb_in := qp_req_skb_in qp + 1, qp_req_pkts := qp_req_pkts qp @ [skb]\<rparr>;
         must_sched = (if pkt_opcode (skb_pkt skb) = IB_OPCODE_RC_RDMA_READ_REQUEST \<or> 1 < length (qp_req_pkts qp) then 1 else 0)
     in case rxe_run_task in_irq irqs_disabled (resp_task (qp_resp qp)) must_sched of
          (task, direct) \<Rightarrow> ((set_resp (\<lambda>r. r\<lparr>resp_task := task\<rparr>) qp, dev), direct))"

text \<open>Taking a request packet off the queue for good.\<close>

definition free_req_pkt :: "sk_buff \<Rightarrow> sk_buff list \<Rightarrow> rxe_qp \<times> rxe_dev \<Rightarrow> rxe_qp \<times> rxe_dev" where
  "free_req_pkt skb rest qd = (case qd of (qp, dev) \<Rightarrow>
     let dev = kfree_skb skb (drop_qp (qp_self qp) dev)
     in (qp\<lparr>qp_req_pkts := rest, qp_req_skb_in := qp_req_skb_in qp - 1\<rparr>,
         dev\<lparr>dev_req_skb_in := dev_req_skb_in dev - 1\<rparr>))"

definition get_req ::
    "rxe_pkt_info option \<Rightarrow> rxe_qp \<times> rxe_dev \<Rightarrow> resp_states \<times> rxe_pkt_info option \<times> rxe_qp \<times> rxe_dev" where
  "get_req pkt qd = (case qd of (qp, dev) \<Rightarrow>
     if resp_state (qp_resp qp) = QP_STATE_ERROR
     then (case qp_req_pkts qp of
             skb # rest \<Rightarrow> (RESPST_GET_REQ, pkt, free_req_pkt skb rest qd)
           | [] \<Rightarrow> (RESPST_CHK_RESOURCE, pkt, qd))
     else (case qp_req_pkts qp of
             [] \<Rightarrow> (RESPST_EXIT, pkt, qd)
           | skb # rest \<Rightarrow> (if resp_res (qp_resp qp) \<noteq> None then RESPST_READ_REPLY else RESPST_CHK_PSN, Some (skb_pkt skb), qd)))"

subsection \<open>Checks\<close>

definition resp_check_psn :: "rxe_pkt_info \<Rightarrow> rxe_qp \<Rightarrow> resp_states \<times> rxe_qp" where
  "resp_check_psn pkt qp =
     (let diff = psn_compare (pkt_psn pkt) (resp_psn (qp_resp qp))
      in case qp_type qp of
           IB_QPT_RC \<Rightarrow>
             if 0 < diff
             then if resp_sent_psn_nak (qp_resp qp) then (RESPST_CLEANUP, qp)
                  else (RESPST_ERR_PSN_OUT_OF_SEQ, set_resp (\<lambda>r. r\<lparr>resp_sent_psn_nak := True\<rparr>) qp)
             else if diff < 0 then (RESPST_DUPLICATE_REQUEST, qp)
             else (RESPST_CHK_OP_SEQ, set_resp (\<lambda>r. r\<lparr>resp_sent_psn_nak := False\<rparr>) qp)
         | IB_QPT_UC \<Rightarrow>
             if resp_drop_msg (qp_resp qp) \<or> diff \<noteq> 0
             then if pkt_mask pkt AND RXE_START_MASK \<noteq> 0
                  then (RESPST_CHK_OP_SEQ, set_resp (\<lambda>r. r\<lparr>resp_drop_msg := False\<rparr>) qp)
                  else (RESPST_CLEANUP, set_resp (\<lambda>r. r\<lparr>resp_drop_msg := True\<rparr>) qp)
             else (RESPST_CHK_OP_SEQ, qp)
         | _ \<Rightarrow> (RESPST_CHK_OP_SEQ, qp))"

definition check_op_seq :: "rxe_pkt_info \<Rightarrow> rxe_qp \<Rightarrow> resp_states \<times> rxe_qp" where
  "check_op_seq pkt qp =
     (let opc = resp_opcode (qp_resp qp); op = pkt_opcode pkt
      in case qp_type qp of
           IB_QPT_RC \<Rightarrow>
             (if opc = uint IB_OPCODE_RC_SEND_FIRST \<or> opc = uint IB_OPCODE_RC_SEND_MIDDLE
              then if op \<in> {IB_OPCODE_RC_SEND_MIDDLE, IB_OPCODE_RC_SEND_LAST, IB_OPCODE_RC_SEND_LAST_WITH_IMMEDIATE,
                     IB_OPCODE_RC_SEND_LAST_INV} then RESPST_CHK_OP_VALID else RESPST_ERR_MISSING_OPCODE_LAST_C
              else if opc = uint IB_OPCODE_RC_RDMA_WRITE_FIRST \<or> opc = uint IB_OPCODE_RC_RDMA_WRITE_MIDDLE
              then if op \<in> {IB_OPCODE_RC_RDMA_WRITE_MIDDLE, IB_OPCODE_RC_RDMA_WRITE_LAST,
                     IB_OPCODE_RC_RDMA_WRITE_LAST_WITH_IMMEDIATE} then RESPST_CHK_OP_VALID else RESPST_ERR_MISSING_OPCODE_LAST_C
              else if op \<in> {IB_OPCODE_RC_SEND_MIDDLE, IB_OPCODE_RC_SEND_LAST, IB_OPCODE_RC_SEND_LAST_WITH_IMMEDIATE,
                     IB_OPCODE_RC_SEND_LAST_INV, IB_OPCODE_RC_RDMA_WRITE_MIDDLE, IB_OPCODE_RC_RDMA_WRITE_LAST,
                     IB_OPCODE_RC_RDMA_WRITE_LAST_WITH_IMMEDIATE} then RESPST_ERR_MISSING_OPCODE_FIRST
              else RESPST_CHK_OP_VALID, qp)
         | IB_QPT_UC \<Rightarrow>
             if opc = uint IB_OPCODE_UC_SEND_FIRST \<or> opc = uint IB_OPCODE_UC_SEND_MIDDLE
             then (if op \<in> {IB_OPCODE_UC_SEND_MIDDLE, IB_OPCODE_UC_SEND_LAST, IB_OPCODE_UC_SEND_LAST_WITH_IMMEDIATE}
                   then RESPST_CHK_OP_VALID else RESPST_ERR_MISSING_OPCODE_LAST_D1E, qp)
             else if opc = uint IB_OPCODE_UC_RDMA_WRITE_FIRST \<or> opc = uint IB_OPCODE_UC_RDMA_WRITE_MIDDLE
             then (if op \<in> {IB_OPCODE_UC_RDMA_WRITE_MIDDLE, IB_OPCODE_UC_RDMA_WRITE_LAST,
                     IB_OPCODE_UC_RDMA_WRITE_LAST_WITH_IMMEDIATE} then RESPST_CHK_OP_VALID else RESPST_ERR_MISSING_OPCODE_LAST_D1E, qp)
             else if op \<in> {IB_OPCODE_UC_SEND_MIDDLE, IB_OPCODE_UC_SEND_LAST, IB_OPCODE_UC_SEND_LAST_WITH_IMMEDIATE,
                     IB_OPCODE_UC_RDMA_WRITE_MIDDLE, IB_OPCODE_UC_RDMA_WRITE_LAST, IB_OPCODE_UC_RDMA_WRITE_LAST_WITH_IMMEDIATE}
             then (RESPST_CLEANUP, set_resp (\<lambda>r. r\<lparr>resp_drop_msg := True\<rparr>) qp)
             else (RESPST_CHK_OP_VALID, qp)
         | _ \<Rightarrow> (RESPST_CHK_OP_VALID, qp))"

definition check_op_valid :: "rxe_pkt_info \<Rightarrow> rxe_qp \<Rightarrow> resp_states \<times> rxe_qp" where
  "check_op_valid pkt qp =
     (let acc = at_qp_access_flags (qp_attr qp); m = pkt_mask pkt
      in case qp_type qp of
           IB_QPT_RC \<Rightarrow>
             (if (m AND RXE_READ_MASK \<noteq> 0 \<and> acc AND IB_ACCESS_REMOTE_READ = 0)
                 \<or> (m AND RXE_WRITE_MASK \<noteq> 0 \<and> acc AND IB_ACCESS_REMOTE_WRITE = 0)
                 \<or> (m AND RXE_ATOMIC_MASK \<noteq> 0 \<and> acc AND IB_ACCESS_REMOTE_ATOMIC = 0) \<or> m = 0
              then RESPST_ERR_UNSUPPORTED_OPCODE else RESPST_CHK_RESOURCE, qp)
         | IB_QPT_UC \<Rightarrow>
             if (m AND RXE_WRITE_MASK \<noteq> 0 \<and> acc AND IB_ACCESS_REMOTE_WRITE = 0) \<or> m = 0
             then (RESPST_CLEANUP, set_resp (\<lambda>r. r\<lparr>resp_drop_msg := True\<rparr>) qp) else (RESPST_CHK_RESOURCE, qp)
         | _ \<Rightarrow> (if (qp_type qp = IB_QPT_UD \<or> qp_type qp = IB_QPT_SMI \<or> qp_type qp = IB_QPT_GSI) \<and> m = 0
               then RESPST_CLEANUP else RESPST_CHK_RESOURCE, qp))"

definition get_srq_wqe :: "nat \<Rightarrow> rxe_qp \<times> rxe_dev \<Rightarrow> (resp_states \<times> rxe_qp \<times> rxe_dev) option" where
  "get_srq_wqe s qd = (case qd of (qp, dev) \<Rightarrow>
     let srq = dev_srq dev s
     in if srq_error srq then Some (RESPST_ERR_RNR, qd)
        else case rq_queue (srq_rq srq) of None \<Rightarrow> None
          | Some q \<Rightarrow> (case queue_head q of None \<Rightarrow> Some (RESPST_ERR_RNR, qd)
              | Some a \<Rightarrow>
                  let qp = set_resp (\<lambda>r. r\<lparr>resp_srq_wqe := queue_read q a, resp_wqe := Srq_wqe\<rparr>) qp;
                      q = advance_consumer q;
                      ev = (srq_limit srq \<noteq> 0 \<and> srq_event_handler srq \<and> queue_count q < word_of_int (srq_limit srq));
                      srq = srq\<lparr>srq_rq := (srq_rq srq)\<lparr>rq_queue := Some q\<rparr>, srq_limit := if ev then 0 else srq_limit srq\<rparr>;
                      dev = dev\<lparr>dev_srq := (dev_srq dev)(s := srq)\<rparr>
                  in Some (RESPST_CHK_LENGTH, qp, if ev then send_event (IB_EVENT_SRQ_LIMIT_REACHED s) dev else dev)))"

text \<open>\<open>qp->resp.wqe = queue_head(qp->rq.queue)\<close>: whether there is one.\<close>

definition take_rq_head :: "rxe_qp \<Rightarrow> (bool \<times> rxe_qp) option" where
  "take_rq_head qp = map_option (\<lambda>q. case queue_head q of
       None \<Rightarrow> (False, set_resp (\<lambda>r. r\<lparr>resp_wqe := No_wqe\<rparr>) qp)
     | Some a \<Rightarrow> (True, set_resp (\<lambda>r. r\<lparr>resp_wqe := Rq_wqe a\<rparr>) qp)) (rq_queue (qp_rq qp))"

definition check_resource :: "rxe_pkt_info option \<Rightarrow> rxe_qp \<times> rxe_dev \<Rightarrow> (resp_states \<times> rxe_qp \<times> rxe_dev) option" where
  "check_resource pkt qd = (case qd of (qp, dev) \<Rightarrow>
     let flush = (\<lambda>qp. (RESPST_COMPLETE, set_resp (\<lambda>r. r\<lparr>resp_status := IB_WC_WR_FLUSH_ERR\<rparr>) qp, dev))
     in if resp_state (qp_resp qp) = QP_STATE_ERROR
        then if resp_wqe (qp_resp qp) \<noteq> No_wqe then Some (flush qp)
             else if qp_srq qp = None
             then map_option (\<lambda>(found, qp). if found then flush qp else (RESPST_EXIT, qp, dev)) (take_rq_head qp)
             else Some (RESPST_EXIT, qd)
        else case pkt of None \<Rightarrow> None
          | Some pkt \<Rightarrow>
            if pkt_mask pkt AND RXE_READ_OR_ATOMIC \<noteq> 0
            then Some (if 0 < at_max_rd_atomic (qp_attr qp) then RESPST_CHK_LENGTH else RESPST_ERR_TOO_MANY_RDMA_ATM_REQ, qd)
            else if pkt_mask pkt AND RXE_RWR_MASK \<noteq> 0
            then (case qp_srq qp of Some s \<Rightarrow> get_srq_wqe s qd
                  | None \<Rightarrow> map_option (\<lambda>(found, qp). (if found then RESPST_CHK_LENGTH else RESPST_ERR_RNR, qp, dev)) (take_rq_head qp))
            else Some (RESPST_CHK_LENGTH, qd))"

definition check_length :: "rxe_pkt_info \<Rightarrow> rxe_qp \<Rightarrow> resp_states" where
  "check_length pkt qp = RESPST_CHK_RKEY"

text \<open>The length and the padding of a write packet.\<close>

definition write_len_ok :: "rxe_pkt_info \<Rightarrow> u32 \<Rightarrow> u32 \<Rightarrow> bool" where
  "write_len_ok pkt resid mtu \<longleftrightarrow>
     (if mtu < resid then payload_size pkt = mtu \<and> bth_pad pkt = 0
      else payload_size pkt = resid \<and> ucast (bth_pad pkt) = 3 AND (- resid))"

definition check_rkey :: "rxe_pkt_info \<Rightarrow> rxe_qp \<times> rxe_dev \<Rightarrow> resp_states \<times> rxe_qp \<times> rxe_dev" where
  "check_rkey pkt qd = (case qd of (qp, dev) \<Rightarrow>
     let m = pkt_mask pkt; rw = m AND (RXE_READ_MASK OR RXE_WRITE_MASK) \<noteq> 0
     in if \<not> rw \<and> m AND RXE_ATOMIC_MASK = 0 then (RESPST_EXECUTE, qd)
        else
          let qp = (if rw then if m AND RXE_RETH_MASK \<noteq> 0
                         then set_resp (\<lambda>r. r\<lparr>resp_va := reth_va pkt, resp_rkey := reth_rkey pkt, resp_resid := reth_len pkt\<rparr>) qp
                         else qp
                    else set_resp (\<lambda>r. r\<lparr>resp_va := atmeth_va pkt, resp_rkey := atmeth_rkey pkt, resp_resid := 8\<rparr>) qp);
              access = (if rw then if m AND RXE_READ_MASK \<noteq> 0 then IB_ACCESS_REMOTE_READ else IB_ACCESS_REMOTE_WRITE
                        else IB_ACCESS_REMOTE_ATOMIC);
              r = qp_resp qp
          in case lookup_mem (qp_pd qp) access (resp_rkey r) lookup_remote (dev_mem dev) of
               (None, md) \<Rightarrow> (RESPST_ERR_RKEY_VIOLATION, qp, dev\<lparr>dev_mem := md\<rparr>)
             | (Some h, md) \<Rightarrow>
                 let dev = dev\<lparr>dev_mem := md\<rparr>
                 in if mem_check_range (md_mem md h) (resp_va r) (resp_resid r) \<noteq> None
                    then (RESPST_ERR_RKEY_VIOLATION, qp, drop_mr h dev)
                    else if m AND RXE_WRITE_MASK \<noteq> 0 \<and> \<not> write_len_ok pkt (resp_resid r) (qp_mtu qp)
                    then (RESPST_ERR_LENGTH, qp, drop_mr h dev)
                    else (RESPST_EXECUTE, set_resp (\<lambda>r. r\<lparr>resp_mr := Some h\<rparr>) qp, dev))"


subsection \<open>Executing\<close>

definition send_data_in :: "bytes \<Rightarrow> int \<Rightarrow> int \<Rightarrow> rxe_qp \<times> rxe_dev \<Rightarrow> (resp_states \<times> rxe_qp \<times> rxe_dev) option" where
  "send_data_in data data_addr data_len qd = (case qd of (qp, dev) \<Rightarrow>
     case get_recv_wqe qp of None \<Rightarrow> None
     | Some w \<Rightarrow>
       (case copy_data (qp_pd qp) IB_ACCESS_LOCAL_WRITE (rwqe_dma w) data data_addr data_len direction_in None (dev_mem dev) of
          None \<Rightarrow> None
        | Some (err, dma, data, crc, md) \<Rightarrow>
            Some (case err of None \<Rightarrow> RESPST_NONE | Some e \<Rightarrow> if e = ENOSPC then RESPST_ERR_LENGTH else RESPST_ERR_MALFORMED_WQE,
              put_recv_wqe (w\<lparr>rwqe_dma := dma\<rparr>) qp, dev\<lparr>dev_mem := md\<rparr>)))"

definition write_data_in :: "rxe_pkt_info \<Rightarrow> rxe_qp \<times> rxe_dev \<Rightarrow> (resp_states \<times> rxe_qp \<times> rxe_dev) option" where
  "write_data_in pkt qd = (case qd of (qp, dev) \<Rightarrow>
     let len = payload_size pkt; md = dev_mem dev
     in case resp_mr (qp_resp qp) of None \<Rightarrow> None
        | Some h \<Rightarrow>
          (case rxe_mem_copy (md_mem md h) (resp_va (qp_resp qp)) (payload_addr pkt) (sint len) direction_in None (pkt_hdr pkt, md_ram md) of
             None \<Rightarrow> None
           | Some (Some err, _) \<Rightarrow> Some (RESPST_ERR_RKEY_VIOLATION, qd)
           | Some (None, (_, ram), _) \<Rightarrow>
               Some (RESPST_NONE, set_resp (\<lambda>r. r\<lparr>resp_va := resp_va r + scast len, resp_resid := resp_resid r - len\<rparr>) qp,
                 dev\<lparr>dev_mem := md\<lparr>md_ram := ram\<rparr>\<rparr>)))"

text \<open>Eight bytes of kernel memory as a number.\<close>

definition ram_load64 :: "ram \<Rightarrow> u32 \<Rightarrow> u64" where
  "ram_load64 ram a = load64 (\<lambda>i. ram (a + word_of_int i)) 0"

definition ram_store64 :: "ram \<Rightarrow> u32 \<Rightarrow> u64 \<Rightarrow> ram" where
  "ram_store64 ram a v = fold (\<lambda>i ram. ram(a + of_nat i := ucast (drop_bit (8 * i) v))) [0..<8] ram"

definition process_atomic :: "rxe_pkt_info \<Rightarrow> rxe_qp \<times> rxe_dev \<Rightarrow> (resp_states \<times> rxe_qp \<times> rxe_dev) option" where
  "process_atomic pkt qd = (case qd of (qp, dev) \<Rightarrow>
     let md = dev_mem dev
     in case resp_mr (qp_resp qp) of None \<Rightarrow> None
        | Some h \<Rightarrow>
          let mr = md_mem md h
          in if mem_state mr \<noteq> RXE_MEM_STATE_VALID then Some (RESPST_ERR_RKEY_VIOLATION, qd)
             else case iova_to_vaddr mr (atmeth_va pkt) 8 of None \<Rightarrow> None
               | Some None \<Rightarrow> Some (RESPST_ERR_MISALIGNED_ATOMIC, qd)
               | Some (Some a) \<Rightarrow>
                   if a = 0 \<or> a AND 7 \<noteq> 0 then Some (RESPST_ERR_MISALIGNED_ATOMIC, qd)
                   else let v = ram_load64 (md_ram md) a;
                            v' = (if pkt_opcode pkt = IB_OPCODE_RC_COMPARE_SWAP \<or> pkt_opcode pkt = IB_OPCODE_RD_COMPARE_SWAP
                                  then if v = atmeth_comp pkt then atmeth_swap_add pkt else v
                                  else v + atmeth_swap_add pkt)
                        in Some (RESPST_NONE, set_resp (\<lambda>r. r\<lparr>resp_atomic_orig := v\<rparr>) qp,
                             dev\<lparr>dev_mem := md\<lparr>md_ram := ram_store64 (md_ram md) a v'\<rparr>\<rparr>))"

definition ud_type :: "rxe_qp \<Rightarrow> bool" where
  "ud_type qp \<longleftrightarrow> qp_type qp = IB_QPT_UD \<or> qp_type qp = IB_QPT_SMI \<or> qp_type qp = IB_QPT_GSI"

text \<open>The first part of \<open>execute\<close>: what is done with the data, \<open>RESPST_NONE\<close> when that went well. The
  pair of the state and the queue pair behind a datagram's route header is passed on.\<close>

definition execute_data :: "rxe_pkt_info \<Rightarrow> rxe_qp \<times> rxe_dev \<Rightarrow> (resp_states \<times> rxe_qp \<times> rxe_dev) option" where
  "execute_data pkt qd =
     (if pkt_mask pkt AND RXE_SEND_MASK \<noteq> 0
      then case (if ud_type (fst qd) then send_data_in (pkt_hdr pkt) 0 RXE_GRH_BYTES qd else Some (RESPST_NONE, qd)) of
             None \<Rightarrow> None
           | Some (err, qd) \<Rightarrow> if err \<noteq> RESPST_NONE then Some (err, qd)
               else send_data_in (pkt_hdr pkt) (payload_addr pkt) (sint (payload_size pkt)) qd
      else if pkt_mask pkt AND RXE_WRITE_MASK \<noteq> 0 then write_data_in pkt qd
      else if pkt_mask pkt AND RXE_READ_MASK \<noteq> 0 then Some (RESPST_READ_REPLY, qd)
      else if pkt_mask pkt AND RXE_ATOMIC_MASK \<noteq> 0 then process_atomic pkt qd
      else Some (RESPST_NONE, qd))"

definition execute :: "rxe_pkt_info \<Rightarrow> rxe_qp \<times> rxe_dev \<Rightarrow> (resp_states \<times> rxe_qp \<times> rxe_dev) option" where
  "execute pkt qd = (case execute_data pkt qd of None \<Rightarrow> None
     | Some (err, qp, dev) \<Rightarrow>
         if err = RESPST_READ_REPLY then Some (RESPST_READ_REPLY, set_resp (\<lambda>r. r\<lparr>resp_msn := resp_msn r + 1\<rparr>) qp, dev)
         else if err \<noteq> RESPST_NONE then Some (err, qp, dev)
         else let qp = set_resp (\<lambda>r. r\<lparr>resp_msn := resp_msn r + 1, resp_psn := (pkt_psn pkt + 1) AND BTH_PSN_MASK,
                    resp_opcode := uint (pkt_opcode pkt), resp_status := IB_WC_SUCCESS\<rparr>) qp
              in Some (if pkt_mask pkt AND RXE_COMP_MASK \<noteq> 0 then RESPST_COMPLETE
                       else if qp_type qp = IB_QPT_RC then RESPST_ACKNOWLEDGE else RESPST_CLEANUP, qp, dev))"

subsection \<open>Acknowledgements\<close>

text \<open>The headers of the request, with source and destination exchanged.\<close>

definition ack_route :: "rxe_pkt_info \<Rightarrow> int \<Rightarrow> rxe_pkt_info \<Rightarrow> rxe_pkt_info" where
  "ack_route pkt paylen ack =
     (let n = nat (uint (pkt_offset pkt) + RXE_BTH_BYTES);
          ack = ack\<lparr>pkt_hdr := put_bytes (bytes_list (pkt_hdr pkt) 0 n) 0 (pkt_hdr ack)\<rparr>;
          ack = (if pkt_mask ack AND RXE_LRH_MASK \<noteq> 0
                 then ack\<lparr>pkt_hdr := lrh_set_slid_at (lrh_set_dlid_at (pkt_hdr ack) 0 (ucast (lrh_slid_at (pkt_hdr pkt) 0))) 0
                        (ucast (lrh_dlid_at (pkt_hdr pkt) 0))\<rparr> else ack)
      in if pkt_mask ack AND RXE_GRH_MASK \<noteq> 0
         then let ack = grh_set_paylen ack (word_of_int paylen);
                  ack = grh_set_dgid ack (fst (grh_sgid pkt)) (snd (grh_sgid pkt))
              in grh_set_sgid ack (fst (grh_dgid pkt)) (snd (grh_dgid pkt)) else ack)"

definition ack_fields :: "rxe_qp \<Rightarrow> u8 \<Rightarrow> int \<Rightarrow> u32 \<Rightarrow> u8 \<Rightarrow> rxe_pkt_info \<Rightarrow> rxe_pkt_info" where
  "ack_fields qp opcode pad psn syndrome ack =
     (let ack = bth_set_psn (bth_set_se (bth_set_pad (bth_set_qpn (bth_set_opcode ack opcode) (at_dest_qp_num (qp_attr qp)))
                  (word_of_int pad)) 0) psn;
          ack = ack\<lparr>pkt_psn := psn\<rparr>;
          ack = (if pkt_mask ack AND RXE_AETH_MASK \<noteq> 0 then aeth_set_msn (aeth_set_syn ack syndrome) (resp_msn (qp_resp qp)) else ack)
      in if pkt_mask ack AND RXE_ATMACK_MASK \<noteq> 0 then atmack_set_orig ack (resp_atomic_orig (qp_resp qp)) else ack)"

definition prepare_ack_packet ::
    "rxe_ifc_ops \<Rightarrow> rxe_pkt_info \<Rightarrow> u8 \<Rightarrow> int \<Rightarrow> u32 \<Rightarrow> u8 \<Rightarrow> rxe_qp \<times> rxe_dev \<Rightarrow> sk_buff option \<times> rxe_qp \<times> rxe_dev" where
  "prepare_ack_packet ifc pkt opcode payload psn syndrome qd = (case qd of (qp, dev) \<Rightarrow>
     let pad = pad_len payload; info = rxe_opcode opcode;
         paylen = oi_length info + payload + pad + RXE_ICRC_SIZE;
         align = oi_length info AND 15
     in case ifc_init_packet ifc (qp_pri_av qp) paylen align dev of None \<Rightarrow> (None, qp, dev)
        | Some skb \<Rightarrow>
            let ack = (skb_pkt skb)\<lparr>pkt_opcode := opcode, pkt_mask := pkt_mask (skb_pkt skb) OR oi_mask info,
                   pkt_offset := pkt_offset pkt, pkt_paylen := word_of_int paylen\<rparr>
            in (Some (skb\<lparr>skb_pkt := ack_fields qp opcode pad psn syndrome (ack_route pkt paylen ack), skb_qp := Some (qp_self qp)\<rparr>),
                qp\<lparr>qp_resp_skb_out := qp_resp_skb_out qp + 1\<rparr>, dev\<lparr>dev_resp_skb_out := dev_resp_skb_out dev + 1\<rparr>))"

text \<open>\<open>*buf = rxe_icrc_pkt(ack)\<close> with \<open>buf\<close> pointing to 32-bit numbers.\<close>

definition put_icrc :: "run_ctx \<Rightarrow> rxe_dev \<Rightarrow> sk_buff \<Rightarrow> sk_buff" where
  "put_icrc cx dev skb = (if par_crc_disable (dev_param dev) then skb
     else skb\<lparr>skb_pkt := (skb_pkt skb)\<lparr>pkt_hdr := store32 (pkt_hdr (skb_pkt skb)) (payload_addr (skb_pkt skb))
       (rxe_icrc_pkt (cx_stack cx) (skb_addr skb) (skb_pkt skb))\<rparr>\<rparr>)"

definition send_ack :: "run_ctx \<Rightarrow> rxe_pkt_info \<Rightarrow> u8 \<Rightarrow> u32 \<Rightarrow> rxe_qp \<times> rxe_dev \<Rightarrow> (rxe_qp \<times> rxe_dev) option" where
  "send_ack cx pkt syndrome psn qd =
     (case prepare_ack_packet (cx_ifc cx) pkt IB_OPCODE_RC_ACKNOWLEDGE 0 psn syndrome qd of
        (None, qd) \<Rightarrow> Some qd
      | (Some skb, qd) \<Rightarrow> send_packet cx (put_icrc cx (snd qd) skb) qd)"

text \<open>A clone takes a reference to the queue pair and counts as a packet on its way out.\<close>

definition clone_out :: "rxe_qp \<times> rxe_dev \<Rightarrow> rxe_qp \<times> rxe_dev" where
  "clone_out qd = (case qd of (qp, dev) \<Rightarrow>
     (qp\<lparr>qp_resp_skb_out := qp_resp_skb_out qp + 1\<rparr>,
      dev\<lparr>dev_qp_pool := rxe_add_ref (qp_self qp) (dev_qp_pool dev), dev_resp_skb_out := dev_resp_skb_out dev + 1\<rparr>))"

text \<open>When the clone fails the null pointer is passed on to be sent.\<close>

definition send_atomic_ack :: "run_ctx \<Rightarrow> rxe_pkt_info \<Rightarrow> u8 \<Rightarrow> rxe_qp \<times> rxe_dev \<Rightarrow> (rxe_qp \<times> rxe_dev) option" where
  "send_atomic_ack cx pkt syndrome qd =
     (case prepare_ack_packet (cx_ifc cx) pkt IB_OPCODE_RC_ATOMIC_ACKNOWLEDGE 0 (pkt_psn pkt) syndrome qd of
        (None, qd) \<Rightarrow> Some qd
      | (Some skb, qp, dev) \<Rightarrow>
          let skb = put_icrc cx dev skb; i = unat (resp_res_head (qp_resp qp)); psn = resp_psn (qp_resp qp)
          in case free_rd_atomic_resource i (qp, dev) of None \<Rightarrow> None
             | Some (qp, dev) \<Rightarrow>
               (case get_res qp i of None \<Rightarrow> None
                | Some res \<Rightarrow>
                  let qp = put_res i (res\<lparr>res_type := RXE_ATOMIC_MASK, res_skb := Some skb, res_first_psn := psn, res_last_psn := psn,
                         res_cur_psn := psn\<rparr>) (rxe_advance_resp_resource qp)
                  in case cx_clone cx skb of None \<Rightarrow> None
                     | Some skb_copy \<Rightarrow> send_packet cx skb_copy (clone_out (qp, dev))))"

definition acknowledge :: "run_ctx \<Rightarrow> rxe_pkt_info \<Rightarrow> rxe_qp \<times> rxe_dev \<Rightarrow> (resp_states \<times> rxe_qp \<times> rxe_dev) option" where
  "acknowledge cx pkt qd = (let qp = fst qd in map_option (Pair RESPST_CLEANUP)
     (if qp_type qp \<noteq> IB_QPT_RC then Some qd
      else if resp_aeth_syndrome (qp_resp qp) \<noteq> AETH_ACK_UNLIMITED
      then send_ack cx pkt (resp_aeth_syndrome (qp_resp qp)) (pkt_psn pkt) qd
      else if pkt_mask pkt AND RXE_ATOMIC_MASK \<noteq> 0 then send_atomic_ack cx pkt AETH_ACK_UNLIMITED qd
      else if bth_ack pkt \<noteq> 0 then send_ack cx pkt AETH_ACK_UNLIMITED (pkt_psn pkt) qd
      else Some qd))"

subsection \<open>RDMA read\<close>

text \<open>The resource of a new read.\<close>

definition new_read_res :: "rxe_pkt_info \<Rightarrow> rxe_qp \<times> rxe_dev \<Rightarrow> (nat \<times> rxe_qp \<times> rxe_dev) option" where
  "new_read_res req_pkt qd =
     (let i = unat (resp_res_head (qp_resp (fst qd)))
      in case free_rd_atomic_resource i qd of None \<Rightarrow> None
         | Some (qp, dev) \<Rightarrow>
           (case get_res qp i of None \<Rightarrow> None
            | Some res \<Rightarrow>
              let r = qp_resp qp; mtu = qp_mtu qp;
                  res = res\<lparr>res_type := RXE_READ_MASK, res_va := resp_va r, res_va_org := resp_va r,
                    res_first_psn := pkt_psn req_pkt, res_last_psn := pkt_psn req_pkt + (reth_len req_pkt + mtu - 1) div mtu - 1,
                    res_cur_psn := pkt_psn req_pkt, res_resid := resp_resid r, res_length := resp_resid r, res_rkey := resp_rkey r,
                    res_mr := resp_mr r, res_state := rdatm_res_state_new\<rparr>;
                  qp = set_resp (\<lambda>r. r\<lparr>resp_mr := None, resp_res := Some i\<rparr>) (rxe_advance_resp_resource qp)
              in Some (i, put_res i res qp, dev)))"

definition read_opcode :: "resp_res \<Rightarrow> u32 \<Rightarrow> u8" where
  "read_opcode res mtu = (if res_state res = rdatm_res_state_new
     then if res_resid res \<le> mtu then IB_OPCODE_RC_RDMA_READ_RESPONSE_ONLY else IB_OPCODE_RC_RDMA_READ_RESPONSE_FIRST
     else if mtu < res_resid res then IB_OPCODE_RC_RDMA_READ_RESPONSE_MIDDLE else IB_OPCODE_RC_RDMA_READ_RESPONSE_LAST)"

text \<open>The payload, its padding and the check sequence; here \<open>buf\<close> points to bytes. An error of the copy
  is ignored.\<close>

definition fill_read_reply :: "run_ctx \<Rightarrow> resp_res \<Rightarrow> int \<Rightarrow> sk_buff \<Rightarrow> rxe_dev \<Rightarrow> (sk_buff \<times> rxe_dev) option" where
  "fill_read_reply cx res payload skb dev =
     (let pkt = skb_pkt skb; md = dev_mem dev
      in case res_mr res of None \<Rightarrow> None
         | Some h \<Rightarrow>
           (case rxe_mem_copy (md_mem md h) (res_va res) (payload_addr pkt) payload direction_out None (pkt_hdr pkt, md_ram md) of
              None \<Rightarrow> None
            | Some (err, (hdr, ram), _) \<Rightarrow>
                let pad = pad_len payload;
                    hdr = put_bytes (replicate (nat pad) 0) (payload_addr pkt + payload) hdr;
                    pkt = pkt\<lparr>pkt_hdr := hdr\<rparr>;
                    p = payload_addr pkt + payload + pad;
                    pkt = (if par_crc_disable (dev_param dev) then pkt
                           else pkt\<lparr>pkt_hdr := hdr(p := ucast (rxe_icrc_pkt (cx_stack cx) (skb_addr skb) pkt))\<rparr>)
                in Some (skb\<lparr>skb_pkt := pkt\<rparr>, dev\<lparr>dev_mem := md\<lparr>md_ram := ram\<rparr>\<rparr>)))"

definition read_reply :: "run_ctx \<Rightarrow> rxe_pkt_info \<Rightarrow> rxe_qp \<times> rxe_dev \<Rightarrow> (resp_states \<times> rxe_qp \<times> rxe_dev) option" where
  "read_reply cx req_pkt qd =
     (case (case resp_res (qp_resp (fst qd)) of None \<Rightarrow> new_read_res req_pkt qd | Some i \<Rightarrow> Some (i, qd)) of
        None \<Rightarrow> None
      | Some (i, qp, dev) \<Rightarrow>
        (case get_res qp i of None \<Rightarrow> None
         | Some res \<Rightarrow>
           let mtu = qp_mtu qp; opcode = read_opcode res mtu; res = res\<lparr>res_state := rdatm_res_state_next\<rparr>;
               payload = min (sint (res_resid res)) (sint mtu)
           in case prepare_ack_packet (cx_ifc cx) req_pkt opcode payload (res_cur_psn res) AETH_ACK_UNLIMITED (put_res i res qp, dev) of
                (None, qd) \<Rightarrow> Some (RESPST_ERR_RNR, qd)
              | (Some skb, qp, dev) \<Rightarrow>
                (case fill_read_reply cx res payload skb dev of None \<Rightarrow> None
                 | Some (skb, dev) \<Rightarrow>
                   let res = res\<lparr>res_va := res_va res + word_of_int payload, res_resid := res_resid res - word_of_int payload,
                         res_cur_psn := (res_cur_psn res + 1) AND BTH_PSN_MASK\<rparr>
                   in map_option (\<lambda>(qp, dev).
                        if 0 < res_resid res then (RESPST_DONE, qp, dev)
                        else (RESPST_CLEANUP, set_resp (\<lambda>r. r\<lparr>resp_res := None, resp_opcode := -1, resp_psn := res_cur_psn res\<rparr>) qp, dev))
                      (send_packet cx skb (put_res i res qp, dev)))))"

subsection \<open>Completion and cleanup\<close>

text \<open>The completion of a receive. The fields behind the status are set on success only; then the packet
  is read.\<close>

definition make_recv_cqe :: "rxe_qp \<Rightarrow> rxe_dev \<Rightarrow> rxe_recv_wqe \<Rightarrow> rxe_pkt_info option \<Rightarrow> rxe_cqe option" where
  "make_recv_cqe qp dev w pkt =
     (let status = resp_status (qp_resp qp); user = cq_is_user (dev_cq dev (qp_rcq qp))
      in if status \<noteq> IB_WC_SUCCESS
         then Some (if user then uibwc (zero_uwc\<lparr>uwc_wr_id := rwqe_wr_id w, uwc_status := status\<rparr>)
                    else ibwc (zero_wc\<lparr>wc_wr_id := rwqe_wr_id w, wc_status := status\<rparr>))
         else case pkt of None \<Rightarrow> None
           | Some pkt \<Rightarrow>
             let m = pkt_mask pkt; imm = m AND RXE_IMMDT_MASK \<noteq> 0; inv = m AND RXE_IETH_MASK \<noteq> 0;
                 opcode = (if imm \<and> m AND RXE_READ_MASK \<noteq> 0 then IB_WC_RECV_RDMA_WITH_IMM else IB_WC_RECV);
                 byte_len = dma_length (rwqe_dma w) - dma_resid (rwqe_dma w);
                 flags = IB_WC_GRH OR (if imm then IB_WC_WITH_IMM else 0) OR (if inv then IB_WC_WITH_INVALIDATE else 0);
                 ex = (if inv then ieth_rkey pkt else if imm then immdt_imm pkt else 0);
                 src_qp = (if m AND RXE_DETH_MASK \<noteq> 0 then deth_sqp pkt else 0);
                 port = at_port_num (qp_attr qp)
             in Some (if user
                  then uibwc (zero_uwc\<lparr>uwc_wr_id := rwqe_wr_id w, uwc_status := status, uwc_opcode := opcode, uwc_byte_len := byte_len,
                         uwc_flags := flags, uwc_ex := ex, uwc_qp_num := qp_num qp, uwc_src_qp := src_qp, uwc_port_num := port\<rparr>)
                  else ibwc (zero_wc\<lparr>wc_wr_id := rwqe_wr_id w, wc_status := status, wc_opcode := opcode, wc_byte_len := byte_len,
                         wc_flags := flags, wc_ex := ex, wc_qp := Some (qp_self qp), wc_src_qp := src_qp, wc_port_num := port\<rparr>)))"

definition resp_do_complete :: "rxe_pkt_info option \<Rightarrow> rxe_qp \<times> rxe_dev \<Rightarrow> (resp_states \<times> rxe_qp \<times> rxe_dev) option" where
  "resp_do_complete pkt qd = (case qd of (qp, dev) \<Rightarrow>
     if resp_wqe (qp_resp qp) = No_wqe then Some (RESPST_CLEANUP, qd)
     else case (get_recv_wqe qp, if qp_srq qp = None then map_option (\<lambda>q. Some (advance_consumer q)) (rq_queue (qp_rq qp))
                else Some (rq_queue (qp_rq qp))) of
       (Some w, Some q) \<Rightarrow>
         (case make_recv_cqe qp dev w pkt of None \<Rightarrow> None
          | Some cqe \<Rightarrow>
            let qp = set_resp (\<lambda>r. r\<lparr>resp_wqe := No_wqe\<rparr>) (qp\<lparr>qp_rq := (qp_rq qp)\<lparr>rq_queue := q\<rparr>\<rparr>)
            in case rxe_cq_post (qp_rcq qp) cqe (case pkt of None \<Rightarrow> True | Some pkt \<Rightarrow> bth_se pkt \<noteq> 0) dev of
                 (Some err, dev) \<Rightarrow> Some (RESPST_ERR_CQ_OVERFLOW, qp, dev)
               | (None, dev) \<Rightarrow>
                   Some (if resp_state (qp_resp qp) = QP_STATE_ERROR then RESPST_CHK_RESOURCE
                         else if pkt = None then RESPST_DONE
                         else if qp_type qp = IB_QPT_RC then RESPST_ACKNOWLEDGE else RESPST_CLEANUP, qp, dev))
     | _ \<Rightarrow> None)"

text \<open>With a packet its buffer is the head of the queue.\<close>

definition resp_cleanup :: "rxe_pkt_info option \<Rightarrow> rxe_qp \<times> rxe_dev \<Rightarrow> (resp_states \<times> rxe_qp \<times> rxe_dev) option" where
  "resp_cleanup pkt qd =
     map_option (\<lambda>(qp, dev).
       case resp_mr (qp_resp qp) of
         None \<Rightarrow> (RESPST_DONE, qp, dev)
       | Some h \<Rightarrow> (RESPST_DONE, set_resp (\<lambda>r. r\<lparr>resp_mr := None\<rparr>) qp, drop_mr h dev))
     (if pkt = None then Some qd
      else case qp_req_pkts (fst qd) of [] \<Rightarrow> None | skb # rest \<Rightarrow> Some (free_req_pkt skb rest qd))"

subsection \<open>Duplicates\<close>

primrec find_resource_in :: "resp_res list \<Rightarrow> u32 \<Rightarrow> nat list \<Rightarrow> nat option option" where
  "find_resource_in rs psn [] = Some None"
| "find_resource_in rs psn (i # is) = (case nth_opt rs i of None \<Rightarrow> None
     | Some res \<Rightarrow> if res_type res \<noteq> 0 \<and> 0 \<le> psn_compare psn (res_first_psn res) \<and> psn_compare psn (res_last_psn res) \<le> 0
         then Some (Some i) else find_resource_in rs psn is)"

text \<open>The inner \<open>None\<close> is the null pointer.\<close>

definition find_resource :: "rxe_qp \<Rightarrow> u32 \<Rightarrow> nat option option" where
  "find_resource qp psn = find_resource_in (case resp_resources (qp_resp qp) of None \<Rightarrow> [] | Some rs \<Rightarrow> rs) psn
     [0..<unat (at_max_rd_atomic (qp_attr qp))]"

definition duplicate_read :: "rxe_pkt_info \<Rightarrow> nat \<Rightarrow> resp_res \<Rightarrow> rxe_qp \<Rightarrow> resp_states \<times> rxe_qp" where
  "duplicate_read pkt i res qp =
     (let iova = reth_va pkt; resid = reth_len pkt
      in if iova < res_va_org res \<or> res_length res < resid \<or> res_va_org res + ucast (res_length res) < iova + ucast resid
            \<or> reth_rkey pkt \<noteq> res_rkey res
         then (RESPST_CLEANUP, qp)
         else (RESPST_READ_REPLY, set_resp (\<lambda>r. r\<lparr>resp_res := Some i\<rparr>) (put_res i (res\<lparr>res_cur_psn := pkt_psn pkt,
                 res_state := if pkt_psn pkt = res_first_psn res then rdatm_res_state_new else rdatm_res_state_replay,
                 res_va_org := iova, res_va := iova, res_resid := resid\<rparr>) qp)))"

definition duplicate_atomic :: "run_ctx \<Rightarrow> resp_res \<Rightarrow> rxe_qp \<times> rxe_dev \<Rightarrow> (rxe_qp \<times> rxe_dev) option" where
  "duplicate_atomic cx res qd = (case res_skb res of None \<Rightarrow> None
     | Some skb \<Rightarrow> (case cx_clone cx skb of None \<Rightarrow> Some qd
         | Some skb_copy \<Rightarrow>
             let qd = clone_out qd; psn = resp_psn (qp_resp (fst qd)) - 1
             in send_packet cx (skb_copy\<lparr>skb_pkt := bth_set_psn (skb_pkt skb_copy) psn\<rparr>) qd))"

text \<open>The resource found is read through the member of the union the packet asks for.\<close>

definition duplicate_request :: "run_ctx \<Rightarrow> rxe_pkt_info \<Rightarrow> rxe_qp \<times> rxe_dev \<Rightarrow> (resp_states \<times> rxe_qp \<times> rxe_dev) option" where
  "duplicate_request cx pkt qd = (case qd of (qp, dev) \<Rightarrow>
     if pkt_mask pkt AND RXE_SEND_MASK \<noteq> 0 \<or> pkt_mask pkt AND RXE_WRITE_MASK \<noteq> 0
     then map_option (Pair RESPST_CLEANUP)
       (if bth_ack pkt \<noteq> 0 then send_ack cx pkt AETH_ACK_UNLIMITED (resp_psn (qp_resp qp) - 1) qd else Some qd)
     else case find_resource qp (pkt_psn pkt) of None \<Rightarrow> None
       | Some None \<Rightarrow> Some (RESPST_CLEANUP, qd)
       | Some (Some i) \<Rightarrow> (case get_res qp i of None \<Rightarrow> None
           | Some res \<Rightarrow>
               if pkt_mask pkt AND RXE_READ_MASK \<noteq> 0
               then if res_type res \<noteq> RXE_READ_MASK then None
                    else (case duplicate_read pkt i res qp of (st, qp) \<Rightarrow> Some (st, qp, dev))
               else if res_type res \<noteq> RXE_ATOMIC_MASK then None
                    else map_option (Pair RESPST_CLEANUP) (duplicate_atomic cx res qd)))"

subsection \<open>Errors\<close>

definition do_class_ac_error :: "u8 \<Rightarrow> u32 \<Rightarrow> rxe_qp \<Rightarrow> rxe_qp" where
  "do_class_ac_error syndrome status qp =
     set_resp (\<lambda>r. r\<lparr>resp_aeth_syndrome := syndrome, resp_status := status, resp_goto_error := True\<rparr>) qp"

definition do_class_d1e_error :: "rxe_qp \<times> rxe_dev \<Rightarrow> (resp_states \<times> rxe_qp \<times> rxe_dev) option" where
  "do_class_d1e_error qd = (case qd of (qp, dev) \<Rightarrow>
     if qp_srq qp \<noteq> None
     then let qp = set_resp (\<lambda>r. r\<lparr>resp_drop_msg := True\<rparr>) qp
          in Some (if resp_wqe (qp_resp qp) \<noteq> No_wqe
                   then (RESPST_COMPLETE, set_resp (\<lambda>r. r\<lparr>resp_status := IB_WC_REM_INV_REQ_ERR\<rparr>) qp, dev)
                   else (RESPST_CLEANUP, qp, dev))
     else map_option (\<lambda>qp. case resp_mr (qp_resp qp) of
            None \<Rightarrow> (RESPST_CHK_OP_SEQ, qp, dev)
          | Some h \<Rightarrow> (RESPST_CHK_OP_SEQ, set_resp (\<lambda>r. r\<lparr>resp_mr := None\<rparr>) qp, drop_mr h dev))
        (if resp_wqe (qp_resp qp) = No_wqe then Some qp
         else map_option (\<lambda>w. set_resp (\<lambda>r. r\<lparr>resp_opcode := -1\<rparr>) (put_recv_wqe (w\<lparr>rwqe_dma := (rwqe_dma w)\<lparr>
                dma_resid := dma_length (rwqe_dma w), dma_cur_sge := 0, dma_sge_offset := 0\<rparr>\<rparr>) qp)) (get_recv_wqe qp)))"

subsection \<open>The state machine\<close>

text \<open>\<open>while (!qp->srq && qp->rq.queue && queue_head(qp->rq.queue)) advance_consumer(qp->rq.queue);\<close>\<close>

partial_function (option) drain_rq :: "rxe_recv_wqe rxe_queue \<Rightarrow> rxe_recv_wqe rxe_queue option" where
  "drain_rq q = (if queue_head q = None then Some q else drain_rq (advance_consumer q))"

definition resp_reset :: "rxe_qp \<times> rxe_dev \<Rightarrow> (rxe_qp \<times> rxe_dev) option" where
  "resp_reset qd =
     (case fold (\<lambda>skb qd. free_req_pkt skb [] qd) (qp_req_pkts (fst qd)) qd of (qp, dev) \<Rightarrow>
        map_option (\<lambda>q. (set_resp (\<lambda>r. r\<lparr>resp_wqe := No_wqe\<rparr>) (qp\<lparr>qp_rq := (qp_rq qp)\<lparr>rq_queue := q\<rparr>\<rparr>), dev))
          (case rq_queue (qp_rq qp) of
             None \<Rightarrow> Some None
           | Some q \<Rightarrow> if qp_srq qp = None then map_option Some (drain_rq q) else Some (Some q)))"

text \<open>One round of the loop: \<open>Inl\<close> is the return value with the state left behind.\<close>

type_synonym resp_result = "(int \<times> rxe_qp \<times> rxe_dev) + (resp_states \<times> rxe_pkt_info option \<times> rxe_qp \<times> rxe_dev)"

definition resp_err_rnr :: "run_ctx \<Rightarrow> rxe_pkt_info \<Rightarrow> rxe_qp \<times> rxe_dev \<Rightarrow> (rxe_qp \<times> rxe_dev) option" where
  "resp_err_rnr cx pkt qd = (case qd of (qp, dev) \<Rightarrow>
     if qp_type qp = IB_QPT_RC
     then send_ack cx pkt (AETH_RNR_NAK OR (NOT AETH_TYPE_MASK AND at_min_rnr_timer (qp_attr qp))) (pkt_psn pkt) qd
     else Some (set_resp (\<lambda>r. r\<lparr>resp_drop_msg := True\<rparr>) qp, dev))"

definition resp_err_rkey :: "rxe_qp \<Rightarrow> resp_states \<times> rxe_qp" where
  "resp_err_rkey qp =
     (if qp_type qp = IB_QPT_RC then (RESPST_COMPLETE, do_class_ac_error AETH_NAK_REM_ACC_ERR IB_WC_REM_ACCESS_ERR qp)
      else let qp = set_resp (\<lambda>r. r\<lparr>resp_drop_msg := True\<rparr>) qp
           in if qp_srq qp \<noteq> None then (RESPST_COMPLETE, set_resp (\<lambda>r. r\<lparr>resp_status := IB_WC_REM_ACCESS_ERR\<rparr>) qp)
              else (RESPST_CLEANUP, qp))"

definition resp_err_length :: "rxe_qp \<Rightarrow> resp_states \<times> rxe_qp" where
  "resp_err_length qp =
     (if qp_type qp = IB_QPT_RC then (RESPST_COMPLETE, do_class_ac_error AETH_NAK_INVALID_REQ IB_WC_REM_INV_REQ_ERR qp)
      else if qp_srq qp \<noteq> None then (RESPST_COMPLETE, set_resp (\<lambda>r. r\<lparr>resp_status := IB_WC_REM_INV_REQ_ERR\<rparr>) qp)
      else (RESPST_CLEANUP, set_resp (\<lambda>r. r\<lparr>resp_drop_msg := True\<rparr>) qp))"

text \<open>The states whose handlers read the packet.\<close>

fun resp_pkt_step :: "run_ctx \<Rightarrow> resp_states \<Rightarrow> rxe_pkt_info \<Rightarrow> rxe_qp \<times> rxe_dev \<Rightarrow> (resp_states \<times> rxe_qp \<times> rxe_dev) option" where
  "resp_pkt_step cx RESPST_CHK_PSN pkt (qp, dev) = (case resp_check_psn pkt qp of (st, qp) \<Rightarrow> Some (st, qp, dev))"
| "resp_pkt_step cx RESPST_CHK_OP_SEQ pkt (qp, dev) = (case check_op_seq pkt qp of (st, qp) \<Rightarrow> Some (st, qp, dev))"
| "resp_pkt_step cx RESPST_CHK_OP_VALID pkt (qp, dev) = (case check_op_valid pkt qp of (st, qp) \<Rightarrow> Some (st, qp, dev))"
| "resp_pkt_step cx RESPST_CHK_LENGTH pkt (qp, dev) = Some (check_length pkt qp, qp, dev)"
| "resp_pkt_step cx RESPST_CHK_RKEY pkt qd = Some (check_rkey pkt qd)"
| "resp_pkt_step cx RESPST_EXECUTE pkt qd = execute pkt qd"
| "resp_pkt_step cx RESPST_READ_REPLY pkt qd = read_reply cx pkt qd"
| "resp_pkt_step cx RESPST_ACKNOWLEDGE pkt qd = acknowledge cx pkt qd"
| "resp_pkt_step cx RESPST_DUPLICATE_REQUEST pkt qd = duplicate_request cx pkt qd"
| "resp_pkt_step cx RESPST_ERR_PSN_OUT_OF_SEQ pkt qd =
     map_option (Pair RESPST_CLEANUP) (send_ack cx pkt AETH_NAK_PSN_SEQ_ERROR (resp_psn (qp_resp (fst qd))) qd)"
| "resp_pkt_step cx RESPST_ERR_RNR pkt qd = map_option (Pair RESPST_CLEANUP) (resp_err_rnr cx pkt qd)"
| "resp_pkt_step cx _ pkt qd = None"

fun resp_step :: "run_ctx \<Rightarrow> resp_states \<Rightarrow> rxe_pkt_info option \<Rightarrow> rxe_qp \<times> rxe_dev \<Rightarrow> resp_result option" where
  "resp_step cx RESPST_GET_REQ pkt qd = Some (Inr (get_req pkt qd))"
| "resp_step cx RESPST_CHK_RESOURCE pkt qd = map_option (\<lambda>(st, qd). Inr (st, pkt, qd)) (check_resource pkt qd)"
| "resp_step cx RESPST_COMPLETE pkt qd = map_option (\<lambda>(st, qd). Inr (st, pkt, qd)) (resp_do_complete pkt qd)"
| "resp_step cx RESPST_CLEANUP pkt qd = map_option (\<lambda>(st, qd). Inr (st, pkt, qd)) (resp_cleanup pkt qd)"
| "resp_step cx RESPST_ERR_TOO_MANY_RDMA_ATM_REQ pkt (qp, dev) =
     Some (Inr (RESPST_COMPLETE, pkt, do_class_ac_error AETH_NAK_INVALID_REQ IB_WC_REM_INV_REQ_ERR qp, dev))"
| "resp_step cx RESPST_ERR_MISSING_OPCODE_FIRST pkt (qp, dev) =
     Some (Inr (RESPST_COMPLETE, pkt, do_class_ac_error AETH_NAK_INVALID_REQ IB_WC_REM_INV_REQ_ERR qp, dev))"
| "resp_step cx RESPST_ERR_MISSING_OPCODE_LAST_C pkt (qp, dev) =
     Some (Inr (RESPST_COMPLETE, pkt, do_class_ac_error AETH_NAK_INVALID_REQ IB_WC_REM_INV_REQ_ERR qp, dev))"
| "resp_step cx RESPST_ERR_UNSUPPORTED_OPCODE pkt (qp, dev) =
     Some (Inr (RESPST_COMPLETE, pkt, do_class_ac_error AETH_NAK_INVALID_REQ IB_WC_REM_INV_REQ_ERR qp, dev))"
| "resp_step cx RESPST_ERR_MISALIGNED_ATOMIC pkt (qp, dev) =
     Some (Inr (RESPST_COMPLETE, pkt, do_class_ac_error AETH_NAK_INVALID_REQ IB_WC_REM_INV_REQ_ERR qp, dev))"
| "resp_step cx RESPST_ERR_MISSING_OPCODE_LAST_D1E pkt qd = map_option (\<lambda>(st, qd). Inr (st, pkt, qd)) (do_class_d1e_error qd)"
| "resp_step cx RESPST_ERR_RKEY_VIOLATION pkt (qp, dev) = (case resp_err_rkey qp of (st, qp) \<Rightarrow> Some (Inr (st, pkt, qp, dev)))"
| "resp_step cx RESPST_ERR_LENGTH pkt (qp, dev) = (case resp_err_length qp of (st, qp) \<Rightarrow> Some (Inr (st, pkt, qp, dev)))"
| "resp_step cx RESPST_ERR_MALFORMED_WQE pkt (qp, dev) =
     Some (Inr (RESPST_COMPLETE, pkt, do_class_ac_error AETH_NAK_REM_OP_ERR IB_WC_LOC_QP_OP_ERR qp, dev))"
| "resp_step cx RESPST_ERR_CQ_OVERFLOW pkt qd = Some (Inr (RESPST_ERROR, pkt, qd))"
| "resp_step cx RESPST_DONE pkt qd = Some (if resp_goto_error (qp_resp (fst qd)) then Inr (RESPST_ERROR, pkt, qd) else Inl (0, qd))"
| "resp_step cx RESPST_EXIT pkt qd =
     Some (if resp_goto_error (qp_resp (fst qd)) then Inr (RESPST_ERROR, pkt, qd) else Inl (minus_EAGAIN, qd))"
| "resp_step cx RESPST_RESET pkt qd = map_option (\<lambda>qd. Inl (minus_EAGAIN, qd)) (resp_reset qd)"
| "resp_step cx RESPST_ERROR pkt (qp, dev) =
     map_option (\<lambda>qd. Inl (minus_EAGAIN, qd)) (rxe_qp_error (set_resp (\<lambda>r. r\<lparr>resp_goto_error := False\<rparr>) qp, dev))"
| "resp_step cx RESPST_NONE pkt qd = Some (Inr (RESPST_NONE, pkt, qd))"
| "resp_step cx st pkt qd = (case pkt of None \<Rightarrow> None
     | Some p \<Rightarrow> map_option (\<lambda>(st, qd). Inr (st, pkt, qd)) (resp_pkt_step cx st p qd))"

partial_function (option) resp_loop ::
    "run_ctx \<Rightarrow> resp_states \<Rightarrow> rxe_pkt_info option \<Rightarrow> rxe_qp \<times> rxe_dev \<Rightarrow> (int \<times> rxe_qp \<times> rxe_dev) option" where
  "resp_loop cx st pkt qd = (case resp_step cx st pkt qd of None \<Rightarrow> None
     | Some (Inl r) \<Rightarrow> Some r
     | Some (Inr (st, pkt, qd)) \<Rightarrow> resp_loop cx st pkt qd)"

definition rxe_responder :: "run_ctx \<Rightarrow> rxe_qp \<times> rxe_dev \<Rightarrow> (int \<times> rxe_qp \<times> rxe_dev) option" where
  "rxe_responder cx qd = (case qd of (qp, dev) \<Rightarrow>
     let qp = set_resp (\<lambda>r. r\<lparr>resp_aeth_syndrome := AETH_ACK_UNLIMITED\<rparr>) qp
     in if \<not> qp_valid qp then Some (-22, qp, dev)
        else resp_loop cx (if resp_state (qp_resp qp) = QP_STATE_RESET then RESPST_RESET else RESPST_GET_REQ) None (qp, dev))"


subsection \<open>Sending acknowledgements\<close>

lemma set_delay_form: "\<exists>z j. set_delay d dev = dev\<lparr>dev_arbiter := z, dev_now := (\<lambda>i. dev_now dev (i + j))\<rparr>"
proof (cases "0 < d")
  case True
  show ?thesis by (intro exI [of _ "(dev_arbiter dev)\<lparr>arb_delay := True,
      arb_time := carry_nsec ((dev_now dev 0)\<lparr>tv_nsec := tv_nsec (dev_now dev 0) + d\<rparr>)\<rparr>"] exI [of _ 1])
    (simp add: True set_delay_def getnstimeofday_def)
next
  case False
  show ?thesis by (intro exI [of _ "(dev_arbiter dev)\<lparr>arb_delay := False\<rparr>"] exI [of _ 0]) (simp add: False set_delay_def)
qed

lemma xmit_response:
  assumes "good_ifc ifc" and "clock_grows dev" and "qp_ready qp" and "pkt_mask (skb_pkt skb) AND RXE_REQ_MASK = 0"
  shows "\<exists>z k. xmit_one_packet ifc skb (qp, dev) = Some (0, qp\<lparr>qp_resp_skb_out := qp_resp_skb_out qp - 1\<rparr>,
      dev\<lparr>dev_arbiter := z, dev_now := (\<lambda>i. dev_now dev (i + k)), dev_sent := dev_sent dev @ [skb],
        dev_resp_skb_out := dev_resp_skb_out dev - 1\<rparr>)"
proof -
  obtain k where k: "(if arb_delay (dev_arbiter dev) then busy_wait dev else Some dev) = Some (dev\<lparr>dev_now := (\<lambda>i. dev_now dev (i + k))\<rparr>)"
    using wait_returns [OF assms(2)] by blast
  define d1 where "d1 = dev\<lparr>dev_now := (\<lambda>i. dev_now dev (i + k))\<rparr>"
  have "xmit_allowed 0 qp" using assms(3) by (simp add: xmit_allowed_def qp_ready_def)
  then have x: "xmit_one_packet ifc skb (qp, dev) = Some (0, account_skb 0 (qp, set_delay (xmit_delay skb d1) (d1\<lparr>dev_sent := dev_sent d1 @ [skb]\<rparr>)))"
    using k assms(1,4) by (simp add: xmit_one_packet_def Let_def good_ifc_def d1_def)
  obtain z j where d: "set_delay (xmit_delay skb d1) (d1\<lparr>dev_sent := dev_sent d1 @ [skb]\<rparr>)
      = (d1\<lparr>dev_sent := dev_sent d1 @ [skb]\<rparr>)\<lparr>dev_arbiter := z, dev_now := (\<lambda>i. dev_now (d1\<lparr>dev_sent := dev_sent d1 @ [skb]\<rparr>) (i + j))\<rparr>"
    using set_delay_form by blast
  show ?thesis unfolding x d by (intro exI [of _ z] exI [of _ "j + k"]) (simp add: account_skb_def d1_def add.assoc)
qed

text \<open>What a packet sent by the responder changes: nothing of the queue pair, and of the device the
  clock, the pacing of the arbiter and what has been sent.\<close>

definition dev_sends :: "rxe_dev \<Rightarrow> sk_buff list \<Rightarrow> rxe_dev \<Rightarrow> bool" where
  "dev_sends dev skbs dev' \<longleftrightarrow> (\<exists>z k. dev' = dev\<lparr>dev_arbiter := z, dev_now := (\<lambda>i. dev_now dev (i + k)), dev_sent := dev_sent dev @ skbs\<rparr>)"

definition resp_env :: "run_ctx \<Rightarrow> rxe_qp \<times> rxe_dev \<Rightarrow> bool" where
  "resp_env cx qd \<longleftrightarrow> (case qd of (qp, dev) \<Rightarrow>
     good_ifc (cx_ifc cx) \<and> iface_ok (cx_ifc cx) (qp_pri_av qp) \<and> clock_grows dev \<and> par_bypass_arbiter (dev_param dev)
     \<and> qp_ready qp \<and> qp_type qp = IB_QPT_RC \<and> qp_srq qp = None \<and> \<not> resp_goto_error (qp_resp qp) \<and> resp_res (qp_resp qp) = None
     \<and> resp_mr (qp_resp qp) = None)"

lemma dev_sends_kept:
  assumes "dev_sends dev skbs dev'"
  shows "dev_mem dev' = dev_mem dev" "dev_cq dev' = dev_cq dev" "dev_srq dev' = dev_srq dev" "dev_param dev' = dev_param dev"
    "dev_kfree dev' = dev_kfree dev" "dev_sent dev' = dev_sent dev @ skbs" "dev_qp_pool dev' = dev_qp_pool dev"
    "clock_grows dev \<Longrightarrow> clock_grows dev'" "dev_req_skb_in dev' = dev_req_skb_in dev" "dev_events dev' = dev_events dev"
  using assms clock_grows_shift [of dev dev'] unfolding dev_sends_def by auto

lemma ack_opcode:
  "oi_name (rxe_opcode IB_OPCODE_RC_ACKNOWLEDGE) \<noteq> None" "ext_hdrs (oi_mask (rxe_opcode IB_OPCODE_RC_ACKNOWLEDGE)) = [RXE_AETH]"
  "oi_offset (rxe_opcode IB_OPCODE_RC_ACKNOWLEDGE) RXE_PAYLOAD = oi_offset (rxe_opcode IB_OPCODE_RC_ACKNOWLEDGE) RXE_AETH + 4"
  "oi_mask (rxe_opcode IB_OPCODE_RC_ACKNOWLEDGE) AND RXE_REQ_MASK = 0" "oi_mask (rxe_opcode IB_OPCODE_RC_ACKNOWLEDGE) AND RXE_AETH_MASK \<noteq> 0"
  "oi_mask (rxe_opcode IB_OPCODE_RC_ACKNOWLEDGE) AND RXE_ATMACK_MASK = 0" "oi_offset (rxe_opcode IB_OPCODE_RC_ACKNOWLEDGE) RXE_AETH = 12"
  by code_simp+

lemma bth_sets:
  fixes pkt op qpn pad psn
  defines "pkt' \<equiv> bth_set_psn (bth_set_se (bth_set_pad (bth_set_qpn (bth_set_opcode pkt op) qpn) pad) 0) psn"
  shows "bth_opcode pkt' = op" "bth_psn pkt' = psn AND BTH_PSN_MASK" "\<exists>m. pkt' = pkt\<lparr>pkt_hdr := m\<rparr>"
proof -
  have "bth_view pkt' = (((((bth_view pkt)[0 := ucast op])[6 := qpn AND BTH_QPN_MASK])[3 := ucast (pad AND 3)])[1 := 0])[11 := psn AND BTH_PSN_MASK]"
    unfolding pkt'_def by (simp add: bth_setters_independent)
  then have "ucast (bth_opcode pkt') = (ucast op :: u32)" "bth_psn pkt' = psn AND BTH_PSN_MASK"
    by (simp_all add: bth_view_def)
  then show "bth_opcode pkt' = op" "bth_psn pkt' = psn AND BTH_PSN_MASK"
    by (simp_all add: bit_eq_iff bit_simps)
  show "\<exists>m. pkt' = pkt\<lparr>pkt_hdr := m\<rparr>" unfolding pkt'_def
    by (simp add: bth_set_psn_def bth_set_se_def bth_set_pad_def bth_set_qpn_def bth_set_opcode_def) (rule exI, rule refl)
qed

lemma ack_route_kept: "\<exists>m. ack_route pkt paylen ack = ack\<lparr>pkt_hdr := m\<rparr>"
  by (simp add: ack_route_def Let_def grh_set_paylen_def grh_set_dgid_def grh_set_sgid_def) blast

text \<open>The fields of an acknowledgement, which the check sequence behind them leaves alone.\<close>

definition ack_pkt :: "u32 \<Rightarrow> u8 \<Rightarrow> rxe_pkt_info \<Rightarrow> bool" where
  "ack_pkt psn syn pkt \<longleftrightarrow> pkt_opcode pkt = IB_OPCODE_RC_ACKNOWLEDGE \<and> pkt_psn pkt = psn
     \<and> (\<exists>n. net_mask n \<and> pkt_mask pkt = n OR oi_mask (rxe_opcode IB_OPCODE_RC_ACKNOWLEDGE))
     \<and> bth_opcode pkt = IB_OPCODE_RC_ACKNOWLEDGE \<and> bth_psn pkt = psn AND BTH_PSN_MASK \<and> aeth_syn pkt = syn"

lemma ucast_inj_u8: "(ucast a :: 'a::len word) = ucast b \<Longrightarrow> 8 \<le> LENGTH('a) \<Longrightarrow> a = (b :: u8)"
  by (drule arg_cong [where f = "ucast :: 'a word \<Rightarrow> u8"]) (simp add: bit_eq_iff bit_simps)

lemma ack_fields_pkt:
  assumes "pkt_opcode p1 = IB_OPCODE_RC_ACKNOWLEDGE" and "net_mask n" and "pkt_mask p1 = n OR oi_mask (rxe_opcode IB_OPCODE_RC_ACKNOWLEDGE)"
  shows "ack_pkt psn syn (ack_fields qp IB_OPCODE_RC_ACKNOWLEDGE pad psn syn p1)"
proof -
  let ?op = "IB_OPCODE_RC_ACKNOWLEDGE"
  have aeth: "pkt_mask p1 AND RXE_AETH_MASK \<noteq> 0" and atm: "pkt_mask p1 AND RXE_ATMACK_MASK = 0"
    using assms(2,3) ack_opcode(5,6) by (auto simp: net_mask_def bit.conj_disj_distrib2)
  define p2 where "p2 = bth_set_psn (bth_set_se (bth_set_pad (bth_set_qpn (bth_set_opcode p1 ?op) (at_dest_qp_num (qp_attr qp))) (word_of_int pad)) 0) psn"
  note b = bth_sets [of p1 ?op "at_dest_qp_num (qp_attr qp)" "word_of_int pad" psn, folded p2_def]
  obtain h2 where h2: "p2 = p1\<lparr>pkt_hdr := h2\<rparr>" using b(3) by blast
  define p3 where "p3 = p2\<lparr>pkt_psn := psn\<rparr>"
  have p3: "pkt_opcode p3 = ?op" "pkt_mask p3 = pkt_mask p1" "pkt_psn p3 = psn" "bth_opcode p3 = ?op" "bth_psn p3 = psn AND BTH_PSN_MASK"
    using assms(1) b(1,2) by (simp_all add: p3_def h2 bth_defs bth_ptr_def)
  define p4 where "p4 = aeth_set_syn p3 syn"
  define p5 where "p5 = aeth_set_msn p4 (resp_msn (qp_resp qp))"
  have h: "RXE_AETH \<in> set (pkt_hdrs p3)" "oi_name (rxe_opcode (pkt_opcode p3)) \<noteq> None" by (simp_all add: pkt_hdrs_def p3(1) ack_opcode)
  have u: "ucast (ucast x :: u64) = x" for x :: u8 by (rule bit_word_eqI) (simp add: bit_simps)
  have v: "ucast (ucast x :: u64) = x" for x :: u32 by (rule bit_word_eqI) (simp add: bit_simps)
  have low4: "keeps_low (bth_ptr p3 + RXE_BTH_BYTES) p3 p4"
    using setter_low [OF h(2,1), of "\<lambda>pkt. aeth_set_syn pkt (ucast (ucast syn :: u64))" "ucast syn"] by (simp add: u p4_def)
  note k4 = keeps_lowD [OF low4]
  have h4: "RXE_AETH \<in> set (pkt_hdrs p4)" "oi_name (rxe_opcode (pkt_opcode p4)) \<noteq> None" using h by (simp_all add: pkt_hdrs_def k4)
  have low5: "keeps_low (bth_ptr p3 + RXE_BTH_BYTES) p4 p5"
    using setter_low [OF h4(2,1), of "\<lambda>pkt. aeth_set_msn pkt (ucast (ucast (resp_msn (qp_resp qp)) :: u64))" "ucast (resp_msn (qp_resp qp))"]
    by (simp add: v p5_def k4)
  note low = keeps_low_trans [OF low4 low5]
  have "hdr_view RXE_AETH p5 = ((hdr_view RXE_AETH p3)[0 := ucast syn])[1 := ucast (resp_msn (qp_resp qp) AND AETH_MSN_MASK)]"
    unfolding p5_def p4_def by (simp only: ext_setters_roundtrip)
  then have syn: "aeth_syn p5 = syn" by (auto intro: ucast_inj_u8)
  have "ack_fields qp ?op pad psn syn p1 = p5"
    using aeth atm p3(2) keeps_lowD(2) [OF low] unfolding ack_fields_def Let_def p2_def [symmetric] p3_def [symmetric] p4_def [symmetric]
    by (simp add: p5_def)
  then show ?thesis using assms(2,3) p3 syn bth_view_fields [OF keeps_low_bth [OF low order_refl]] keeps_lowD [OF low] by (auto simp: ack_pkt_def)
qed

lemma put_icrc_ack:
  assumes "ack_pkt psn syn (skb_pkt skb)"
  shows "ack_pkt psn syn (skb_pkt (put_icrc cx dev skb))" "skb_qp (put_icrc cx dev skb) = skb_qp skb"
proof -
  let ?pkt = "skb_pkt skb"
  have o: "pkt_opcode ?pkt = IB_OPCODE_RC_ACKNOWLEDGE" using assms by (simp add: ack_pkt_def)
  have p: "payload_addr ?pkt = bth_ptr ?pkt + 16" "hdr_ptr RXE_AETH ?pkt = bth_ptr ?pkt + 12"
    using ack_opcode(3,7) by (simp_all add: payload_addr_def hdr_ptr_def bth_ptr_def o)
  have "ack_pkt psn syn (?pkt\<lparr>pkt_hdr := store32 (pkt_hdr ?pkt) (payload_addr ?pkt) x\<rparr>)" for x
  proof -
    let ?m = "store32 (pkt_hdr ?pkt) (payload_addr ?pkt) x"
    have f: "?m q = pkt_hdr ?pkt q" if "q < bth_ptr ?pkt + 16" for q using that p(1) by (simp add: store_frame)
    have "bth_view (?pkt\<lparr>pkt_hdr := ?m\<rparr>) = bth_view ?pkt" by (rule bth_view_local) (simp add: f)
    moreover have "hdr_view RXE_AETH (?pkt\<lparr>pkt_hdr := ?m\<rparr>) = hdr_view RXE_AETH ?pkt"
      by (rule hdr_view_local) (simp add: f p(2))
    then have "aeth_syn (?pkt\<lparr>pkt_hdr := ?m\<rparr>) = aeth_syn ?pkt" by (auto intro: ucast_inj_u8)
    ultimately show ?thesis using assms bth_view_fields [of "?pkt\<lparr>pkt_hdr := ?m\<rparr>" ?pkt] by (simp add: ack_pkt_def)
  qed
  then show "ack_pkt psn syn (skb_pkt (put_icrc cx dev skb))" using assms by (simp add: put_icrc_def)
  show "skb_qp (put_icrc cx dev skb) = skb_qp skb" by (simp add: put_icrc_def)
qed

lemma send_ack_good:
  assumes "resp_env cx (qp, dev)"
  shows "\<exists>skb dev'. send_ack cx pkt syn psn (qp, dev) = Some (qp, dev') \<and> dev_sends dev [skb] dev' \<and> ack_pkt psn syn (skb_pkt skb)
    \<and> skb_qp skb = Some (qp_self qp)"
proof -
  let ?op = "IB_OPCODE_RC_ACKNOWLEDGE" and ?pl = "oi_length (rxe_opcode IB_OPCODE_RC_ACKNOWLEDGE) + 0 + pad_len 0 + RXE_ICRC_SIZE"
  have env: "good_ifc (cx_ifc cx)" "iface_ok (cx_ifc cx) (qp_pri_av qp)" "clock_grows dev" "par_bypass_arbiter (dev_param dev)" "qp_ready qp"
    using assms by (simp_all add: resp_env_def)
  obtain skb0 where s0: "ifc_init_packet (cx_ifc cx) (qp_pri_av qp) ?pl (oi_length (rxe_opcode ?op) AND 15) dev = Some skb0"
    "net_mask (pkt_mask (skb_pkt skb0))" using env(2) unfolding iface_ok_def by blast
  define a0 where "a0 = (skb_pkt skb0)\<lparr>pkt_opcode := ?op, pkt_mask := pkt_mask (skb_pkt skb0) OR oi_mask (rxe_opcode ?op),
     pkt_offset := pkt_offset pkt, pkt_paylen := word_of_int ?pl\<rparr>"
  obtain m where m: "ack_route pkt ?pl a0 = a0\<lparr>pkt_hdr := m\<rparr>" using ack_route_kept by blast
  define skb1 where "skb1 = skb0\<lparr>skb_pkt := ack_fields qp ?op (pad_len 0) psn syn (a0\<lparr>pkt_hdr := m\<rparr>), skb_qp := Some (qp_self qp)\<rparr>"
  let ?qp = "qp\<lparr>qp_resp_skb_out := qp_resp_skb_out qp + 1\<rparr>" and ?dev = "dev\<lparr>dev_resp_skb_out := dev_resp_skb_out dev + 1\<rparr>"
  have pr: "prepare_ack_packet (cx_ifc cx) pkt ?op 0 psn syn (qp, dev) = (Some skb1, ?qp, ?dev)"
    unfolding prepare_ack_packet_def Let_def split s0(1) option.case a0_def [symmetric] m skb1_def by simp
  have "ack_pkt psn syn (skb_pkt skb1)" unfolding skb1_def
    using ack_fields_pkt [of "a0\<lparr>pkt_hdr := m\<rparr>" "pkt_mask (skb_pkt skb0)"] s0(2) by (simp add: a0_def)
  note ak = put_icrc_ack [OF this, of cx ?dev]
  let ?skb = "put_icrc cx ?dev skb1"
  have req: "pkt_mask (skb_pkt ?skb) AND RXE_REQ_MASK = 0" using ak(1) net_mask_and(1,12) ack_opcode(4) by (auto simp: ack_pkt_def)
  have "qp_ready ?qp" "clock_grows ?dev" using env(3,5) by (simp_all add: qp_ready_def clock_grows_def)
  from xmit_response [OF env(1) this(2,1) req] obtain z k where x: "xmit_one_packet (cx_ifc cx) ?skb (?qp, ?dev)
      = Some (0, ?qp\<lparr>qp_resp_skb_out := qp_resp_skb_out ?qp - 1\<rparr>,
        ?dev\<lparr>dev_arbiter := z, dev_now := (\<lambda>i. dev_now ?dev (i + k)), dev_sent := dev_sent ?dev @ [?skb], dev_resp_skb_out := dev_resp_skb_out ?dev - 1\<rparr>)"
    by blast
  have "send_ack cx pkt syn psn (qp, dev)
      = Some (qp, dev\<lparr>dev_arbiter := z, dev_now := (\<lambda>i. dev_now dev (i + k)), dev_sent := dev_sent dev @ [?skb]\<rparr>)"
    using x env(4) by (simp add: send_ack_def pr send_packet_def)
  moreover have "dev_sends dev [?skb] (dev\<lparr>dev_arbiter := z, dev_now := (\<lambda>i. dev_now dev (i + k)), dev_sent := dev_sent dev @ [?skb]\<rparr>)"
    by (auto simp: dev_sends_def)
  moreover have "skb_qp ?skb = Some (qp_self qp)" using ak(2) by (simp add: skb1_def)
  ultimately show ?thesis using ak(1) by blast
qed


subsection \<open>Runs of the state machine\<close>

lemma resp_loop_next: "resp_step cx st pkt qd = Some (Inr (st', pkt', qd')) \<Longrightarrow> resp_loop cx st pkt qd = resp_loop cx st' pkt' qd'"
  by (subst resp_loop.simps) simp

lemma resp_loop_exit: "resp_step cx st pkt qd = Some (Inl r) \<Longrightarrow> resp_loop cx st pkt qd = Some r"
  by (subst resp_loop.simps) simp

lemma resp_loop_pkt:
  assumes "resp_pkt_step cx st pkt qd = Some (st', qd')"
    and "st \<in> {RESPST_CHK_PSN, RESPST_CHK_OP_SEQ, RESPST_CHK_OP_VALID, RESPST_CHK_LENGTH, RESPST_CHK_RKEY, RESPST_EXECUTE, RESPST_READ_REPLY,
      RESPST_ACKNOWLEDGE, RESPST_DUPLICATE_REQUEST, RESPST_ERR_PSN_OUT_OF_SEQ, RESPST_ERR_RNR}"
  shows "resp_loop cx st (Some pkt) qd = resp_loop cx st' (Some pkt) qd'"
  using assms by (intro resp_loop_next) auto

abbreviation (input) unlimited :: "rxe_qp \<Rightarrow> rxe_qp" where
  "unlimited qp \<equiv> set_resp (\<lambda>r. r\<lparr>resp_aeth_syndrome := AETH_ACK_UNLIMITED\<rparr>) qp"

lemma rxe_responder_start:
  assumes "resp_env cx (qp, dev)" and "qp_req_pkts qp = skb # rest"
  shows "rxe_responder cx (qp, dev) = resp_loop cx RESPST_CHK_PSN (Some (skb_pkt skb)) (unlimited qp, dev)"
proof -
  have e: "qp_valid qp" "resp_state (qp_resp qp) = QP_STATE_READY" "resp_res (qp_resp qp) = None" using assms(1) by (simp_all add: resp_env_def qp_ready_def)
  have "resp_loop cx RESPST_GET_REQ None (unlimited qp, dev) = resp_loop cx RESPST_CHK_PSN (Some (skb_pkt skb)) (unlimited qp, dev)"
    using e assms(2) by (intro resp_loop_next) (simp add: get_req_def)
  then show ?thesis using e by (simp add: rxe_responder_def)
qed

lemma resp_loop_cleanup:
  assumes "qp_req_pkts qp = skb # rest" and "resp_mr (qp_resp qp) = None" and "\<not> resp_goto_error (qp_resp qp)"
  shows "resp_loop cx RESPST_CLEANUP (Some pkt) (qp, dev) = Some (0, free_req_pkt skb rest (qp, dev))"
proof -
  obtain qp' dev' where f: "free_req_pkt skb rest (qp, dev) = (qp', dev')" by force
  then have q: "qp_resp qp' = qp_resp qp" by (auto simp: free_req_pkt_def Let_def)
  have "resp_loop cx RESPST_CLEANUP (Some pkt) (qp, dev) = resp_loop cx RESPST_DONE (Some pkt) (qp', dev')"
    using assms f q by (intro resp_loop_next) (simp add: resp_cleanup_def)
  also have "\<dots> = Some (0, qp', dev')" using assms(3) q by (intro resp_loop_exit) simp
  finally show ?thesis by (simp add: f)
qed

lemma free_req_pkt_kept:
  assumes "free_req_pkt skb rest (qp, dev) = (qp', dev')"
  shows "qp' = qp\<lparr>qp_req_pkts := rest, qp_req_skb_in := qp_req_skb_in qp - 1\<rparr>" "dev_mem dev' = dev_mem dev" "dev_cq dev' = dev_cq dev"
    "dev_srq dev' = dev_srq dev" "dev_param dev' = dev_param dev" "dev_kfree dev' = dev_kfree dev @ [skb]" "dev_sent dev' = dev_sent dev"
    "dev_now dev' = dev_now dev" "dev_req_skb_in dev' = dev_req_skb_in dev - 1" "dev_events dev' = dev_events dev"
    "dev_qp_pool dev' = dev_qp_pool (drop_qp (qp_self qp) dev)"
  using assms by (auto simp: free_req_pkt_def Let_def kfree_skb_def drop_qp_def split: prod.splits)

lemma dev_sends_refl: "dev_sends dev [] dev"
  unfolding dev_sends_def by (intro exI [of _ "dev_arbiter dev"] exI [of _ 0]) simp



subsection \<open>Receiving data\<close>

text \<open>Storing bytes at a list of addresses.\<close>

definition ram_put :: "u32 list \<Rightarrow> u8 list \<Rightarrow> ram \<Rightarrow> ram" where
  "ram_put A p ram = fold (\<lambda>(x, b) ram. ram(x := b)) (zip A p) ram"

lemma ram_put_simps [simp]: "ram_put A [] ram = ram" "ram_put [] p ram = ram" "ram_put (x # A) (b # p) ram = ram_put A p (ram(x := b))"
  by (simp_all add: ram_put_def)

lemma ram_put_append: "length p \<le> length A \<Longrightarrow> ram_put A (p @ q) ram = ram_put (drop (length p) A) q (ram_put A p ram)"
proof (induction p arbitrary: A ram)
  case (Cons b p)
  then show ?case by (cases A) (simp_all add: fun_upd_def)
qed simp

lemma ram_put_take: "ram_put (take (length p) A) p ram = ram_put A p ram"
proof (induction p arbitrary: A ram)
  case (Cons b p)
  then show ?case by (cases A) (simp_all add: fun_upd_def)
qed simp

lemma ram_put_other: "x \<notin> set A \<Longrightarrow> ram_put A p ram x = ram x"
proof (induction A arbitrary: p ram)
  case (Cons y A)
  then show ?case by (cases p) simp_all
qed simp

text \<open>With distinct addresses the bytes can be read back.\<close>

lemma ram_put_read: "distinct A \<Longrightarrow> length p \<le> length A \<Longrightarrow> map (ram_put A p ram) (take (length p) A) = p"
proof (induction p arbitrary: A ram)
  case (Cons b p)
  then show ?case by (cases A) (simp_all add: ram_put_other)
qed simp

lemma copy_list_in_put: "snd (copy_list direction_in A a (m, ram)) = ram_put A (bytes_list m a (length A)) ram"
proof (induction A arbitrary: a ram)
  case (Cons x A)
  have "bytes_list m a (Suc (length A)) = m a # bytes_list m (a + 1) (length A)"
    by (simp add: bytes_list_def map_upt_Suc add.assoc del: upt_Suc)
  then show ?case using Cons by (simp add: fun_upd_def)
qed simp

text \<open>The kernel addresses a receive request has left for data.\<close>

definition recv_room :: "nat \<Rightarrow> rxe_mdev \<Rightarrow> rxe_dma_info \<Rightarrow> u32 list \<Rightarrow> bool" where
  "recv_room pd md dma A \<longleftrightarrow> length A < 2147483648 \<and> dma_resid dma = of_nat (length A)
     \<and> (A = [] \<or> (dma_wf dma \<and> length A \<le> dma_left dma \<and> (\<exists>xss.
          list_all2 (sge_backed md pd IB_ACCESS_LOCAL_WRITE) (drop (unat (dma_cur_sge dma)) (dma_sge dma)) xss
          \<and> A = take (length A) (drop (unat (dma_sge_offset dma)) (concat xss)))))"

lemma copy_data_room:
  assumes room: "recv_room pd md dma A" and n: "n \<le> length A"
  shows "\<exists>dma' crc'. copy_data pd IB_ACCESS_LOCAL_WRITE dma m a (int n) direction_in crc md
      = Some (None, dma', m, crc', md\<lparr>md_ram := ram_put A (bytes_list m a n) (md_ram md)\<rparr>)
    \<and> recv_room pd (md\<lparr>md_ram := ram\<rparr>) dma' (drop n A) \<and> dma_length dma' = dma_length dma"
proof (cases "n = 0")
  case True
  then show ?thesis using room by (auto simp: copy_data_def recv_room_def)
next
  case False
  have A: "dma_wf dma" "length A \<le> dma_left dma" "length A < 2147483648" "dma_resid dma = of_nat (length A)" using room n False by (auto simp: recv_room_def)
  obtain xss where x: "list_all2 (sge_backed md pd IB_ACCESS_LOCAL_WRITE) (drop (unat (dma_cur_sge dma)) (dma_sge dma)) xss"
    "A = take (length A) (drop (unat (dma_sge_offset dma)) (concat xss))" using room n False by (auto simp: recv_room_def)
  have len: "int n \<le> sint (dma_resid dma)" using n A(3,4) by (simp add: sint_of_nat_u32)
  have tn: "take n (drop (unat (dma_sge_offset dma)) (concat xss)) = take n A" using n by (subst x(2)) (simp add: min_absorb1)
  have put: "snd (copy_list direction_in (take n A) a (m, md_ram md)) = ram_put A (bytes_list m a n) (md_ram md)"
    using n ram_put_take [of "bytes_list m a n" A] by (simp add: copy_list_in_put min_absorb2)
  obtain xss' where y: "dma_wf (dma_adv dma n)" "list_all2 (sge_backed md pd IB_ACCESS_LOCAL_WRITE)
        (drop (unat (dma_cur_sge (dma_adv dma n))) (dma_sge (dma_adv dma n))) xss'"
      "drop (unat (dma_sge_offset (dma_adv dma n))) (concat xss') = drop (unat (dma_sge_offset dma) + n) (concat xss)"
      "dma_left (dma_adv dma n) = dma_left dma - n" using dma_adv_wf [OF A(1) x(1), of n] n A(2) by auto
  have "drop n A = take (length A - n) (drop (unat (dma_sge_offset (dma_adv dma n))) (concat xss'))"
    unfolding y(3) by (subst x(2)) (simp add: drop_take add.commute)
  moreover have "dma_resid (dma_adv dma n) = of_nat (length A - n)" "dma_length (dma_adv dma n) = dma_length dma"
    using n A(4) by (simp_all add: dma_adv_def of_nat_diff split: prod.splits)
  ultimately have "recv_room pd (md\<lparr>md_ram := ram\<rparr>) (dma_adv dma n) (drop n A)" "dma_length (dma_adv dma n) = dma_length dma"
    using y(1,2,4) A(2,3) unfolding recv_room_def length_drop md_ram_simps(3) by (simp_all only: diff_le_mono) auto
  moreover have "\<exists>crc'. copy_data pd IB_ACCESS_LOCAL_WRITE dma m a (int n) direction_in crc md
      = Some (None, dma_adv dma n, m, crc', md\<lparr>md_ram := ram_put A (bytes_list m a n) (md_ram md)\<rparr>)"
    using copy_data_backed [OF A(1) x(1) _ _ len refl refl, where dir = direction_in and a = a and buf = m and crcp = crc] n A(2) False tn put by auto
  ultimately show ?thesis by blast
qed

subsection \<open>One packet of a send\<close>

text \<open>What the opcode table says of the packets of a send.\<close>

definition recv_op :: "u8 \<Rightarrow> bool \<Rightarrow> bool \<Rightarrow> bool" where
  "recv_op op start fin \<longleftrightarrow> (let m = oi_mask (rxe_opcode op) in
     m AND RXE_SEND_MASK \<noteq> 0 \<and> m AND RXE_WRITE_MASK = 0 \<and> m AND RXE_READ_MASK = 0 \<and> m AND RXE_ATOMIC_MASK = 0
     \<and> m AND RXE_READ_OR_ATOMIC = 0 \<and> m AND (RXE_READ_MASK OR RXE_WRITE_MASK) = 0 \<and> (m AND RXE_RWR_MASK \<noteq> 0) = start
     \<and> (m AND RXE_COMP_MASK \<noteq> 0) = fin
     \<and> op \<in> (if start then {IB_OPCODE_RC_SEND_FIRST, IB_OPCODE_RC_SEND_ONLY, IB_OPCODE_RC_SEND_ONLY_WITH_IMMEDIATE}
             else {IB_OPCODE_RC_SEND_MIDDLE, IB_OPCODE_RC_SEND_LAST, IB_OPCODE_RC_SEND_LAST_WITH_IMMEDIATE}))"

lemma recv_ops:
  "recv_op IB_OPCODE_RC_SEND_FIRST True False" "recv_op IB_OPCODE_RC_SEND_MIDDLE False False" "recv_op IB_OPCODE_RC_SEND_LAST False True"
  "recv_op IB_OPCODE_RC_SEND_LAST_WITH_IMMEDIATE False True" "recv_op IB_OPCODE_RC_SEND_ONLY True True"
  "recv_op IB_OPCODE_RC_SEND_ONLY_WITH_IMMEDIATE True True"
  by code_simp+

text \<open>A packet with this opcode, sequence number and payload.\<close>

definition in_pkt :: "u8 \<Rightarrow> u32 \<Rightarrow> u8 list \<Rightarrow> rxe_pkt_info \<Rightarrow> bool" where
  "in_pkt op psn p pkt \<longleftrightarrow> pkt_opcode pkt = op \<and> pkt_psn pkt = psn \<and> (\<exists>n. net_mask n \<and> pkt_mask pkt = n OR oi_mask (rxe_opcode op))
     \<and> length p < 2147483648 \<and> payload_size pkt = of_nat (length p) \<and> bytes_list (pkt_hdr pkt) (payload_addr pkt) (length p) = p"

lemma in_pkt_mask:
  assumes "in_pkt op psn p pkt" and "recv_op op start fin"
  shows "pkt_mask pkt AND RXE_SEND_MASK \<noteq> 0" "pkt_mask pkt AND RXE_WRITE_MASK = 0" "pkt_mask pkt AND RXE_READ_MASK = 0"
    "pkt_mask pkt AND RXE_ATOMIC_MASK = 0" "pkt_mask pkt AND RXE_READ_OR_ATOMIC = 0" "pkt_mask pkt AND (RXE_READ_MASK OR RXE_WRITE_MASK) = 0"
    "(pkt_mask pkt AND RXE_RWR_MASK \<noteq> 0) = start" "(pkt_mask pkt AND RXE_COMP_MASK \<noteq> 0) = fin" "pkt_mask pkt \<noteq> 0"
proof -
  obtain n where n: "net_mask n" "pkt_mask pkt = n OR oi_mask (rxe_opcode op)" using assms(1) by (auto simp: in_pkt_def)
  have z: "n AND RXE_SEND_MASK = 0" "n AND RXE_WRITE_MASK = 0" "n AND RXE_READ_MASK = 0" "n AND RXE_ATOMIC_MASK = 0" "n AND RXE_READ_OR_ATOMIC = 0"
    "n AND (RXE_READ_MASK OR RXE_WRITE_MASK) = 0" "n AND RXE_RWR_MASK = 0" "n AND RXE_COMP_MASK = 0"
    using n(1) by (auto simp: net_mask_def bit.conj_disj_distrib2)
  have "pkt_mask pkt AND RXE_GRH_MASK \<noteq> 0" unfolding n(2) by (rule net_mask_grh [OF n(1)])
  then show "pkt_mask pkt \<noteq> 0" by auto
  show "pkt_mask pkt AND RXE_SEND_MASK \<noteq> 0" "pkt_mask pkt AND RXE_WRITE_MASK = 0" "pkt_mask pkt AND RXE_READ_MASK = 0"
    "pkt_mask pkt AND RXE_ATOMIC_MASK = 0" "pkt_mask pkt AND RXE_READ_OR_ATOMIC = 0" "pkt_mask pkt AND (RXE_READ_MASK OR RXE_WRITE_MASK) = 0"
    "(pkt_mask pkt AND RXE_RWR_MASK \<noteq> 0) = start" "(pkt_mask pkt AND RXE_COMP_MASK \<noteq> 0) = fin"
    using assms(2) unfolding n(2) recv_op_def Let_def by (simp_all only: net_mask_and(1) [OF n(1)] z) simp_all
qed

text \<open>Where the responder is in a message: the opcode seen last and the receive request in use.\<close>

definition resp_seq :: "bool \<Rightarrow> u32 \<Rightarrow> rxe_recv_wqe rxe_queue \<Rightarrow> rxe_resp_info \<Rightarrow> bool" where
  "resp_seq start a q r \<longleftrightarrow>
     (if start then resp_opcode r \<notin> {uint IB_OPCODE_RC_SEND_FIRST, uint IB_OPCODE_RC_SEND_MIDDLE, uint IB_OPCODE_RC_RDMA_WRITE_FIRST,
          uint IB_OPCODE_RC_RDMA_WRITE_MIDDLE} \<and> queue_head q = Some a
      else resp_opcode r \<in> {uint IB_OPCODE_RC_SEND_FIRST, uint IB_OPCODE_RC_SEND_MIDDLE} \<and> resp_wqe r = Rq_wqe a)"

lemma resp_loop_checked:
  assumes env: "resp_env cx (qp, dev)" and pkt: "in_pkt op (resp_psn (qp_resp qp)) p pkt" and op: "recv_op op start fin"
    and q: "rq_queue (qp_rq qp) = Some q" and seq: "resp_seq start a q (qp_resp qp)"
  shows "resp_loop cx RESPST_CHK_PSN (Some pkt) (unlimited qp, dev)
    = resp_loop cx RESPST_EXECUTE (Some pkt) (set_resp (\<lambda>r. r\<lparr>resp_aeth_syndrome := AETH_ACK_UNLIMITED, resp_sent_psn_nak := False,
        resp_wqe := Rq_wqe a\<rparr>) qp, dev)"
proof -
  note m = in_pkt_mask [OF pkt op]
  let ?q0 = "set_resp (\<lambda>r. r\<lparr>resp_aeth_syndrome := AETH_ACK_UNLIMITED, resp_sent_psn_nak := False\<rparr>) qp"
  let ?q1 = "set_resp (\<lambda>r. r\<lparr>resp_aeth_syndrome := AETH_ACK_UNLIMITED, resp_sent_psn_nak := False, resp_wqe := Rq_wqe a\<rparr>) qp"
  have t: "qp_type qp = IB_QPT_RC" "resp_state (qp_resp qp) = QP_STATE_READY" "qp_srq qp = None" using env by (simp_all add: resp_env_def qp_ready_def)
  have p: "pkt_opcode pkt = op" "psn_compare (pkt_psn pkt) (resp_psn (qp_resp qp)) = 0" using pkt by (simp_all add: in_pkt_def psn_compare_def)
  have "resp_loop cx RESPST_CHK_PSN (Some pkt) (unlimited qp, dev) = resp_loop cx RESPST_CHK_OP_SEQ (Some pkt) (?q0, dev)"
    using t p by (intro resp_loop_pkt) (simp_all add: resp_check_psn_def)
  also have "\<dots> = resp_loop cx RESPST_CHK_OP_VALID (Some pkt) (?q0, dev)"
    using t p op seq by (intro resp_loop_pkt) (auto simp: check_op_seq_def Let_def recv_op_def resp_seq_def split: if_splits)
  also have "\<dots> = resp_loop cx RESPST_CHK_RESOURCE (Some pkt) (?q0, dev)"
    using t m by (intro resp_loop_pkt) (simp_all add: check_op_valid_def Let_def)
  also have "\<dots> = resp_loop cx RESPST_CHK_LENGTH (Some pkt) (?q1, dev)"
    using t m q seq by (intro resp_loop_next) (cases start; simp add: check_resource_def Let_def take_rq_head_def resp_seq_def)
  also have "\<dots> = resp_loop cx RESPST_CHK_RKEY (Some pkt) (?q1, dev)" by (intro resp_loop_pkt) (simp_all add: check_length_def)
  also have "\<dots> = resp_loop cx RESPST_EXECUTE (Some pkt) (?q1, dev)"
    using m by (intro resp_loop_pkt) (simp_all add: check_rkey_def Let_def)
  finally show ?thesis .
qed

lemma execute_send:
  assumes pkt: "in_pkt op psn p pkt" and op: "recv_op op start fin" and qp: "qp_type qp = IB_QPT_RC" "resp_wqe (qp_resp qp) = Rq_wqe a"
    "rq_queue (qp_rq qp) = Some q" and room: "recv_room (qp_pd qp) (dev_mem dev) (rwqe_dma (queue_read q a)) A" "length p \<le> length A"
  shows "\<exists>dma'. execute pkt (qp, dev) = Some (if fin then RESPST_COMPLETE else RESPST_ACKNOWLEDGE,
      qp\<lparr>qp_rq := (qp_rq qp)\<lparr>rq_queue := Some (queue_write q a ((queue_read q a)\<lparr>rwqe_dma := dma'\<rparr>))\<rparr>,
         qp_resp := (qp_resp qp)\<lparr>resp_msn := resp_msn (qp_resp qp) + 1, resp_psn := (psn + 1) AND BTH_PSN_MASK, resp_opcode := uint op,
           resp_status := IB_WC_SUCCESS\<rparr>\<rparr>,
      dev\<lparr>dev_mem := (dev_mem dev)\<lparr>md_ram := ram_put A p (md_ram (dev_mem dev))\<rparr>\<rparr>)
    \<and> recv_room (qp_pd qp) ((dev_mem dev)\<lparr>md_ram := ram\<rparr>) dma' (drop (length p) A) \<and> dma_length dma' = dma_length (rwqe_dma (queue_read q a))"
proof -
  note m = in_pkt_mask [OF pkt op]
  have p: "pkt_opcode pkt = op" "pkt_psn pkt = psn" "payload_size pkt = of_nat (length p)" "bytes_list (pkt_hdr pkt) (payload_addr pkt) (length p) = p"
    "length p < 2147483648" using pkt by (simp_all add: in_pkt_def)
  obtain dma' crc' where c: "copy_data (qp_pd qp) IB_ACCESS_LOCAL_WRITE (rwqe_dma (queue_read q a)) (pkt_hdr pkt) (payload_addr pkt) (int (length p))
      direction_in None (dev_mem dev) = Some (None, dma', pkt_hdr pkt, crc', (dev_mem dev)\<lparr>md_ram := ram_put A p (md_ram (dev_mem dev))\<rparr>)"
    "recv_room (qp_pd qp) ((dev_mem dev)\<lparr>md_ram := ram\<rparr>) dma' (drop (length p) A)" "dma_length dma' = dma_length (rwqe_dma (queue_read q a))"
    using copy_data_room [OF room, of "pkt_hdr pkt" "payload_addr pkt" None ram] unfolding p(4) by blast
  have s: "sint (payload_size pkt) = int (length p)" using p(3,5) by (simp add: sint_of_nat_u32)
  have "execute_data pkt (qp, dev) = Some (RESPST_NONE, qp\<lparr>qp_rq := (qp_rq qp)\<lparr>rq_queue := Some (queue_write q a ((queue_read q a)\<lparr>rwqe_dma := dma'\<rparr>))\<rparr>\<rparr>,
      dev\<lparr>dev_mem := (dev_mem dev)\<lparr>md_ram := ram_put A p (md_ram (dev_mem dev))\<rparr>\<rparr>)"
    using m qp c(1) unfolding execute_data_def send_data_in_def s by (simp add: ud_type_def get_recv_wqe_def put_recv_wqe_def)
  then show ?thesis using m qp c(2,3) p(1,2) by (intro exI [of _ dma']) (simp add: execute_def)
qed

text \<open>The completion of a receive, in either layout.\<close>

definition recv_cqe :: "u64 \<Rightarrow> u32 \<Rightarrow> rxe_cqe \<Rightarrow> bool" where
  "recv_cqe i n cqe \<longleftrightarrow> (case cqe of
     ibwc wc \<Rightarrow> wc_wr_id wc = i \<and> wc_status wc = IB_WC_SUCCESS \<and> wc_opcode wc = IB_WC_RECV \<and> wc_byte_len wc = n
   | uibwc wc \<Rightarrow> uwc_wr_id wc = i \<and> uwc_status wc = IB_WC_SUCCESS \<and> uwc_opcode wc = IB_WC_RECV \<and> uwc_byte_len wc = n)"

lemma complete_recv:
  assumes env: "resp_env cx (qp, dev)" and qp: "resp_wqe (qp_resp qp) = Rq_wqe a" "rq_queue (qp_rq qp) = Some q" "resp_status (qp_resp qp) = IB_WC_SUCCESS"
    and pkt: "pkt_mask pkt AND RXE_READ_MASK = 0" and cqs: "cqs_inv dev" and room: "length (cq_list dev (qp_rcq qp)) < cq_cap dev (qp_rcq qp)"
  shows "\<exists>cqe cq. resp_do_complete (Some pkt) (qp, dev) = Some (RESPST_ACKNOWLEDGE,
      qp\<lparr>qp_rq := (qp_rq qp)\<lparr>rq_queue := Some (advance_consumer q)\<rparr>, qp_resp := (qp_resp qp)\<lparr>resp_wqe := No_wqe\<rparr>\<rparr>, dev\<lparr>dev_cq := cq\<rparr>)
    \<and> recv_cqe (rwqe_wr_id (queue_read q a)) (dma_length (rwqe_dma (queue_read q a)) - dma_resid (rwqe_dma (queue_read q a))) cqe
    \<and> cq_list (dev\<lparr>dev_cq := cq\<rparr>) = (cq_list dev)(qp_rcq qp := cq_list dev (qp_rcq qp) @ [cqe])
    \<and> cqs_inv (dev\<lparr>dev_cq := cq\<rparr>) \<and> cq_cap (dev\<lparr>dev_cq := cq\<rparr>) = cq_cap dev"
proof -
  have t: "qp_type qp = IB_QPT_RC" "resp_state (qp_resp qp) = QP_STATE_READY" "qp_srq qp = None" using env by (simp_all add: resp_env_def qp_ready_def)
  let ?w = "queue_read q a"
  obtain cqe where c: "make_recv_cqe qp dev ?w (Some pkt) = Some cqe"
    "recv_cqe (rwqe_wr_id ?w) (dma_length (rwqe_dma ?w) - dma_resid (rwqe_dma ?w)) cqe"
    using qp(3) pkt by (auto simp: make_recv_cqe_def Let_def recv_cqe_def)
  have full: "\<not> queue_full (cq_queue (dev_cq dev (qp_rcq qp)))"
    using room rq.contents_full [OF cqs_invD [OF cqs], of "qp_rcq qp"] by (simp add: cq_list_def cq_cap_def del: length_queue_list)
  let ?post = "rxe_cq_post (qp_rcq qp) cqe (bth_se pkt \<noteq> 0) dev"
  obtain cq where p: "?post = (None, dev\<lparr>dev_cq := cq\<rparr>)" using full by (simp add: rxe_cq_post_def Let_def)
  have "resp_do_complete (Some pkt) (qp, dev) = Some (RESPST_ACKNOWLEDGE,
      qp\<lparr>qp_rq := (qp_rq qp)\<lparr>rq_queue := Some (advance_consumer q)\<rparr>, qp_resp := (qp_resp qp)\<lparr>resp_wqe := No_wqe\<rparr>\<rparr>, dev\<lparr>dev_cq := cq\<rparr>)"
    using qp t c(1) p by (simp add: resp_do_complete_def get_recv_wqe_def)
  moreover have "cq_list (dev\<lparr>dev_cq := cq\<rparr>) c = ((cq_list dev)(qp_rcq qp := cq_list dev (qp_rcq qp) @ [cqe])) c"
    "cqs_inv (dev\<lparr>dev_cq := cq\<rparr>)" "cq_cap (dev\<lparr>dev_cq := cq\<rparr>) c = cq_cap dev c" for c
    using rxe_cq_post_list [OF cqs, of "qp_rcq qp" cqe "bth_se pkt \<noteq> 0" c] p room by auto
  ultimately show ?thesis using c(2) by (intro exI [of _ cqe] exI [of _ cq]) (simp add: fun_eq_iff)
qed

lemma resp_loop_ack:
  assumes env: "resp_env cx (qp, dev)" and pkts: "qp_req_pkts qp = skb # rest" and syn: "resp_aeth_syndrome (qp_resp qp) = AETH_ACK_UNLIMITED"
    and pkt: "pkt_mask pkt AND RXE_ATOMIC_MASK = 0"
  shows "\<exists>dev1 acks. resp_loop cx RESPST_ACKNOWLEDGE (Some pkt) (qp, dev) = Some (0, free_req_pkt skb rest (qp, dev1)) \<and> dev_sends dev acks dev1
    \<and> (if bth_ack pkt \<noteq> 0 then \<exists>ack. acks = [ack] \<and> ack_pkt (pkt_psn pkt) AETH_ACK_UNLIMITED (skb_pkt ack) else acks = [])"
proof -
  have t: "qp_type qp = IB_QPT_RC" "resp_mr (qp_resp qp) = None" "\<not> resp_goto_error (qp_resp qp)" using env by (simp_all add: resp_env_def)
  have fin: "resp_loop cx RESPST_CLEANUP (Some pkt) (qp, dev1) = Some (0, free_req_pkt skb rest (qp, dev1))" for dev1
    using t pkts by (intro resp_loop_cleanup)
  show ?thesis
  proof (cases "bth_ack pkt = 0")
    case True
    have "resp_loop cx RESPST_ACKNOWLEDGE (Some pkt) (qp, dev) = resp_loop cx RESPST_CLEANUP (Some pkt) (qp, dev)"
      using True t syn pkt by (intro resp_loop_pkt) (simp_all add: acknowledge_def)
    then show ?thesis using True fin dev_sends_refl by auto
  next
    case False
    obtain ack dev1 where s: "send_ack cx pkt AETH_ACK_UNLIMITED (pkt_psn pkt) (qp, dev) = Some (qp, dev1)" "dev_sends dev [ack] dev1"
      "ack_pkt (pkt_psn pkt) AETH_ACK_UNLIMITED (skb_pkt ack)" using send_ack_good [OF env] by blast
    have "resp_loop cx RESPST_ACKNOWLEDGE (Some pkt) (qp, dev) = resp_loop cx RESPST_CLEANUP (Some pkt) (qp, dev1)"
      using False t syn pkt s(1) by (intro resp_loop_pkt) (simp_all add: acknowledge_def)
    then show ?thesis using False fin s(2,3) by auto
  qed
qed

lemma resp_env_freed:
  assumes "resp_env cx (qp, dev)" and "dev_sends dev acks dev1" and "free_req_pkt skb rest (qp, dev1) = (qp', dev')"
  shows "resp_env cx (qp', dev')"
proof -
  have "clock_grows dev1" using assms(1) dev_sends_kept(8) [OF assms(2)] by (simp add: resp_env_def)
  then have "clock_grows dev'" by (simp add: clock_grows_def free_req_pkt_kept [OF assms(3)])
  then show ?thesis using assms(1) by (simp add: resp_env_def qp_ready_def free_req_pkt_kept [OF assms(3)] dev_sends_kept [OF assms(2)])
qed

text \<open>The acknowledgements of packets, one for each that asks.\<close>

definition acks_of :: "sk_buff list \<Rightarrow> sk_buff list \<Rightarrow> bool" where
  "acks_of skbs acks \<longleftrightarrow> list_all2 (\<lambda>skb ack. ack_pkt (pkt_psn (skb_pkt skb)) AETH_ACK_UNLIMITED (skb_pkt ack))
     (filter (\<lambda>skb. bth_ack (skb_pkt skb) \<noteq> 0) skbs) acks"

lemma acks_of_Cons:
  "(if bth_ack (skb_pkt skb) \<noteq> 0 then \<exists>ack. acks = [ack] \<and> ack_pkt (pkt_psn (skb_pkt skb)) AETH_ACK_UNLIMITED (skb_pkt ack) else acks = [])
   \<Longrightarrow> acks_of skbs acks' \<Longrightarrow> acks_of (skb # skbs) (acks @ acks')"
  by (auto simp: acks_of_def split: if_splits)

text \<open>The receive request at the head of the queue has the addresses \<open>A\<close> left.\<close>

definition recv_at :: "bool \<Rightarrow> u32 list \<Rightarrow> u64 \<Rightarrow> u32 \<Rightarrow> rxe_recv_wqe list \<Rightarrow> rxe_qp \<times> rxe_dev \<Rightarrow> bool" where
  "recv_at start A i len ws qd \<longleftrightarrow> (case qd of (qp, dev) \<Rightarrow> \<exists>q a. rq_queue (qp_rq qp) = Some q \<and> queue_inv q \<and> queue_head q = Some a
     \<and> tl (queue_list q) = ws \<and> resp_seq start a q (qp_resp qp) \<and> recv_room (qp_pd qp) (dev_mem dev) (rwqe_dma (queue_read q a)) A
     \<and> rwqe_wr_id (queue_read q a) = i \<and> dma_length (rwqe_dma (queue_read q a)) = len)"

lemma queue_write_at_head:
  assumes "queue_inv q" and "queue_head q = Some a"
  shows "queue_inv (queue_write q a x)" "tl (queue_list (queue_write q a x)) = tl (queue_list q)"
    "queue_inv (advance_consumer (queue_write q a x))" "queue_list (advance_consumer (queue_write q a x)) = tl (queue_list q)"
proof -
  have a: "\<not> queue_empty q" "a = consumer_addr q" using assms(2) by (auto simp: queue_head_def split: if_splits)
  show i: "queue_inv (queue_write q a x)" using assms(1) by simp
  show t: "tl (queue_list (queue_write q a x)) = tl (queue_list q)" using queue_list_write_head [OF assms(1) a(1)] by (simp add: a(2))
  show "queue_inv (advance_consumer (queue_write q a x))" using i by simp
  show "queue_list (advance_consumer (queue_write q a x)) = tl (queue_list q)" using queue_list_pop [OF i] a(1) t by simp
qed

lemma responder_executes:
  assumes env: "resp_env cx (qp, dev)" and pkts: "qp_req_pkts qp = skb # rest" and pkt: "in_pkt op (resp_psn (qp_resp qp)) p (skb_pkt skb)"
    and op: "recv_op op start fin" and at: "recv_at start A i len ws (qp, dev)" and p: "length p \<le> length A"
  obtains q a dma' r2 where "rq_queue (qp_rq qp) = Some q" "queue_inv q" "queue_head q = Some a" "tl (queue_list q) = ws" "rwqe_wr_id (queue_read q a) = i"
    "recv_room (qp_pd qp) ((dev_mem dev)\<lparr>md_ram := ram_put A p (md_ram (dev_mem dev))\<rparr>) dma' (drop (length p) A)" "dma_length dma' = len"
    "r2 = (qp_resp qp)\<lparr>resp_aeth_syndrome := AETH_ACK_UNLIMITED, resp_sent_psn_nak := False, resp_wqe := Rq_wqe a,
       resp_msn := resp_msn (qp_resp qp) + 1, resp_psn := (resp_psn (qp_resp qp) + 1) AND BTH_PSN_MASK, resp_opcode := uint op, resp_status := IB_WC_SUCCESS\<rparr>"
    "rxe_responder cx (qp, dev) = resp_loop cx (if fin then RESPST_COMPLETE else RESPST_ACKNOWLEDGE) (Some (skb_pkt skb))
      (qp\<lparr>qp_rq := (qp_rq qp)\<lparr>rq_queue := Some (queue_write q a ((queue_read q a)\<lparr>rwqe_dma := dma'\<rparr>))\<rparr>, qp_resp := r2\<rparr>,
       dev\<lparr>dev_mem := (dev_mem dev)\<lparr>md_ram := ram_put A p (md_ram (dev_mem dev))\<rparr>\<rparr>)"
proof -
  obtain q a where q: "rq_queue (qp_rq qp) = Some q" "queue_inv q" "queue_head q = Some a" "tl (queue_list q) = ws" "resp_seq start a q (qp_resp qp)"
    "recv_room (qp_pd qp) (dev_mem dev) (rwqe_dma (queue_read q a)) A" "rwqe_wr_id (queue_read q a) = i" "dma_length (rwqe_dma (queue_read q a)) = len"
    using at by (auto simp: recv_at_def)
  let ?qp = "set_resp (\<lambda>r. r\<lparr>resp_aeth_syndrome := AETH_ACK_UNLIMITED, resp_sent_psn_nak := False, resp_wqe := Rq_wqe a\<rparr>) qp"
  have "qp_type ?qp = IB_QPT_RC" using env by (simp add: resp_env_def)
  from execute_send [OF pkt op this, of a q dev A "ram_put A p (md_ram (dev_mem dev))"] q p obtain dma' where
    x: "execute (skb_pkt skb) (?qp, dev) = Some (if fin then RESPST_COMPLETE else RESPST_ACKNOWLEDGE,
      qp\<lparr>qp_rq := (qp_rq qp)\<lparr>rq_queue := Some (queue_write q a ((queue_read q a)\<lparr>rwqe_dma := dma'\<rparr>))\<rparr>,
         qp_resp := (qp_resp ?qp)\<lparr>resp_msn := resp_msn (qp_resp qp) + 1, resp_psn := (resp_psn (qp_resp qp) + 1) AND BTH_PSN_MASK, resp_opcode := uint op,
           resp_status := IB_WC_SUCCESS\<rparr>\<rparr>,
      dev\<lparr>dev_mem := (dev_mem dev)\<lparr>md_ram := ram_put A p (md_ram (dev_mem dev))\<rparr>\<rparr>)"
    "recv_room (qp_pd qp) ((dev_mem dev)\<lparr>md_ram := ram_put A p (md_ram (dev_mem dev))\<rparr>) dma' (drop (length p) A)" "dma_length dma' = len" by auto
  have "rxe_responder cx (qp, dev) = resp_loop cx RESPST_EXECUTE (Some (skb_pkt skb)) (?qp, dev)"
    using rxe_responder_start [OF env pkts] resp_loop_checked [OF env pkt op q(1,5)] by simp
  also have "\<dots> = resp_loop cx (if fin then RESPST_COMPLETE else RESPST_ACKNOWLEDGE) (Some (skb_pkt skb))
      (qp\<lparr>qp_rq := (qp_rq qp)\<lparr>rq_queue := Some (queue_write q a ((queue_read q a)\<lparr>rwqe_dma := dma'\<rparr>))\<rparr>,
         qp_resp := (qp_resp ?qp)\<lparr>resp_msn := resp_msn (qp_resp qp) + 1, resp_psn := (resp_psn (qp_resp qp) + 1) AND BTH_PSN_MASK, resp_opcode := uint op,
           resp_status := IB_WC_SUCCESS\<rparr>\<rparr>,
      dev\<lparr>dev_mem := (dev_mem dev)\<lparr>md_ram := ram_put A p (md_ram (dev_mem dev))\<rparr>\<rparr>)"
    using x(1) by (intro resp_loop_pkt) simp_all
  finally show ?thesis using that q x(2,3) by simp
qed

text \<open>A packet that is not the last of its message.\<close>

lemma responder_more:
  assumes env: "resp_env cx (qp, dev)" and pkts: "qp_req_pkts qp = skb # rest" and pkt: "in_pkt op (resp_psn (qp_resp qp)) p (skb_pkt skb)"
    and op: "recv_op op start False" and at: "recv_at start A i len ws (qp, dev)" and p: "length p \<le> length A"
    and mid: "op = IB_OPCODE_RC_SEND_FIRST \<or> op = IB_OPCODE_RC_SEND_MIDDLE"
  shows "\<exists>qp' dev' acks. rxe_responder cx (qp, dev) = Some (0, qp', dev') \<and> resp_env cx (qp', dev') \<and> qp_req_pkts qp' = rest \<and> qp_rcq qp' = qp_rcq qp
    \<and> resp_psn (qp_resp qp') = (resp_psn (qp_resp qp) + 1) AND BTH_PSN_MASK \<and> recv_at False (drop (length p) A) i len ws (qp', dev')
    \<and> dev_mem dev' = (dev_mem dev)\<lparr>md_ram := ram_put A p (md_ram (dev_mem dev))\<rparr> \<and> dev_cq dev' = dev_cq dev
    \<and> dev_kfree dev' = dev_kfree dev @ [skb] \<and> dev_sent dev' = dev_sent dev @ acks
    \<and> (if bth_ack (skb_pkt skb) \<noteq> 0 then \<exists>ack. acks = [ack] \<and> ack_pkt (pkt_psn (skb_pkt skb)) AETH_ACK_UNLIMITED (skb_pkt ack) else acks = [])"
proof -
  obtain q a dma' r2 where x: "rq_queue (qp_rq qp) = Some q" "queue_inv q" "queue_head q = Some a" "tl (queue_list q) = ws" "rwqe_wr_id (queue_read q a) = i"
    "recv_room (qp_pd qp) ((dev_mem dev)\<lparr>md_ram := ram_put A p (md_ram (dev_mem dev))\<rparr>) dma' (drop (length p) A)" "dma_length dma' = len"
    and r2: "r2 = (qp_resp qp)\<lparr>resp_aeth_syndrome := AETH_ACK_UNLIMITED, resp_sent_psn_nak := False, resp_wqe := Rq_wqe a,
       resp_msn := resp_msn (qp_resp qp) + 1, resp_psn := (resp_psn (qp_resp qp) + 1) AND BTH_PSN_MASK, resp_opcode := uint op, resp_status := IB_WC_SUCCESS\<rparr>"
    and run: "rxe_responder cx (qp, dev) = resp_loop cx (if False then RESPST_COMPLETE else RESPST_ACKNOWLEDGE) (Some (skb_pkt skb))
      (qp\<lparr>qp_rq := (qp_rq qp)\<lparr>rq_queue := Some (queue_write q a ((queue_read q a)\<lparr>rwqe_dma := dma'\<rparr>))\<rparr>, qp_resp := r2\<rparr>,
       dev\<lparr>dev_mem := (dev_mem dev)\<lparr>md_ram := ram_put A p (md_ram (dev_mem dev))\<rparr>\<rparr>)"
    by (rule responder_executes [OF env pkts pkt op at p])
  define qp2 dev2 where q2: "qp2 = qp\<lparr>qp_rq := (qp_rq qp)\<lparr>rq_queue := Some (queue_write q a ((queue_read q a)\<lparr>rwqe_dma := dma'\<rparr>))\<rparr>, qp_resp := r2\<rparr>"
    and d2: "dev2 = dev\<lparr>dev_mem := (dev_mem dev)\<lparr>md_ram := ram_put A p (md_ram (dev_mem dev))\<rparr>\<rparr>"
  have env2: "resp_env cx (qp2, dev2)" using env by (simp add: resp_env_def q2 d2 r2 qp_ready_def clock_grows_def)
  have z: "qp_req_pkts qp2 = skb # rest" "resp_aeth_syndrome (qp_resp qp2) = AETH_ACK_UNLIMITED" using pkts by (simp_all add: q2 r2)
  obtain dev3 acks where a: "resp_loop cx RESPST_ACKNOWLEDGE (Some (skb_pkt skb)) (qp2, dev2) = Some (0, free_req_pkt skb rest (qp2, dev3))" "dev_sends dev2 acks dev3"
    "if bth_ack (skb_pkt skb) \<noteq> 0 then \<exists>ack. acks = [ack] \<and> ack_pkt (pkt_psn (skb_pkt skb)) AETH_ACK_UNLIMITED (skb_pkt ack) else acks = []"
    using resp_loop_ack [OF env2 z in_pkt_mask(4) [OF pkt op]] by blast
  obtain qp' dev' where f: "free_req_pkt skb rest (qp2, dev3) = (qp', dev')" by force
  note k = free_req_pkt_kept [OF f] dev_sends_kept [OF a(2)]
  have "rxe_responder cx (qp, dev) = Some (0, qp', dev')" using run a(1) f by (simp add: q2 d2)
  moreover have "resp_env cx (qp', dev')" by (rule resp_env_freed [OF env2 a(2) f])
  moreover have "recv_at False (drop (length p) A) i len ws (qp', dev')"
    using x mid queue_write_at_head [OF x(2,3)] by (auto simp: recv_at_def k q2 d2 r2 resp_seq_def)
  ultimately show ?thesis using a(3) by (intro exI [of _ qp'] exI [of _ dev'] exI [of _ acks]) (simp add: k q2 d2 r2)
qed

text \<open>The last packet of a message.\<close>

lemma responder_last:
  assumes env: "resp_env cx (qp, dev)" and pkts: "qp_req_pkts qp = skb # rest" and pkt: "in_pkt op (resp_psn (qp_resp qp)) p (skb_pkt skb)"
    and op: "recv_op op start True" and at: "recv_at start A i len ws (qp, dev)" and p: "length p \<le> length A"
    and cqs: "cqs_inv dev" and room: "length (cq_list dev (qp_rcq qp)) < cq_cap dev (qp_rcq qp)"
  shows "\<exists>qp' dev' acks cqe. rxe_responder cx (qp, dev) = Some (0, qp', dev') \<and> resp_env cx (qp', dev') \<and> qp_req_pkts qp' = rest
    \<and> resp_psn (qp_resp qp') = (resp_psn (qp_resp qp) + 1) AND BTH_PSN_MASK \<and> resp_opcode (qp_resp qp') = uint op
    \<and> (\<exists>q. rq_queue (qp_rq qp') = Some q \<and> queue_inv q \<and> queue_list q = ws)
    \<and> dev_mem dev' = (dev_mem dev)\<lparr>md_ram := ram_put A p (md_ram (dev_mem dev))\<rparr>
    \<and> recv_cqe i (len - of_nat (length A - length p)) cqe \<and> cq_list dev' = (cq_list dev)(qp_rcq qp := cq_list dev (qp_rcq qp) @ [cqe])
    \<and> dev_kfree dev' = dev_kfree dev @ [skb] \<and> dev_sent dev' = dev_sent dev @ acks
    \<and> (if bth_ack (skb_pkt skb) \<noteq> 0 then \<exists>ack. acks = [ack] \<and> ack_pkt (pkt_psn (skb_pkt skb)) AETH_ACK_UNLIMITED (skb_pkt ack) else acks = [])"
proof -
  obtain q a dma' r2 where x: "rq_queue (qp_rq qp) = Some q" "queue_inv q" "queue_head q = Some a" "tl (queue_list q) = ws" "rwqe_wr_id (queue_read q a) = i"
    "recv_room (qp_pd qp) ((dev_mem dev)\<lparr>md_ram := ram_put A p (md_ram (dev_mem dev))\<rparr>) dma' (drop (length p) A)" "dma_length dma' = len"
    and r2: "r2 = (qp_resp qp)\<lparr>resp_aeth_syndrome := AETH_ACK_UNLIMITED, resp_sent_psn_nak := False, resp_wqe := Rq_wqe a,
       resp_msn := resp_msn (qp_resp qp) + 1, resp_psn := (resp_psn (qp_resp qp) + 1) AND BTH_PSN_MASK, resp_opcode := uint op, resp_status := IB_WC_SUCCESS\<rparr>"
    and run: "rxe_responder cx (qp, dev) = resp_loop cx (if True then RESPST_COMPLETE else RESPST_ACKNOWLEDGE) (Some (skb_pkt skb))
      (qp\<lparr>qp_rq := (qp_rq qp)\<lparr>rq_queue := Some (queue_write q a ((queue_read q a)\<lparr>rwqe_dma := dma'\<rparr>))\<rparr>, qp_resp := r2\<rparr>,
       dev\<lparr>dev_mem := (dev_mem dev)\<lparr>md_ram := ram_put A p (md_ram (dev_mem dev))\<rparr>\<rparr>)"
    by (rule responder_executes [OF env pkts pkt op at p])
  let ?q = "queue_write q a ((queue_read q a)\<lparr>rwqe_dma := dma'\<rparr>)"
  define qp2 dev2 where q2: "qp2 = qp\<lparr>qp_rq := (qp_rq qp)\<lparr>rq_queue := Some ?q\<rparr>, qp_resp := r2\<rparr>"
    and d2: "dev2 = dev\<lparr>dev_mem := (dev_mem dev)\<lparr>md_ram := ram_put A p (md_ram (dev_mem dev))\<rparr>\<rparr>"
  have env2: "resp_env cx (qp2, dev2)" using env by (simp add: resp_env_def q2 d2 r2 qp_ready_def clock_grows_def)
  have w: "resp_wqe (qp_resp qp2) = Rq_wqe a" "rq_queue (qp_rq qp2) = Some ?q" "resp_status (qp_resp qp2) = IB_WC_SUCCESS" "qp_rcq qp2 = qp_rcq qp" by (simp_all add: q2 r2)
  have cq2: "cq_list dev2 = cq_list dev" "cq_cap dev2 = cq_cap dev" "cqs_inv dev2" using cqs by (simp_all add: d2 cq_list_def cq_cap_def cqs_inv_def fun_eq_iff)
  obtain cqe cq where c: "resp_do_complete (Some (skb_pkt skb)) (qp2, dev2) = Some (RESPST_ACKNOWLEDGE,
      qp2\<lparr>qp_rq := (qp_rq qp2)\<lparr>rq_queue := Some (advance_consumer ?q)\<rparr>, qp_resp := (qp_resp qp2)\<lparr>resp_wqe := No_wqe\<rparr>\<rparr>, dev2\<lparr>dev_cq := cq\<rparr>)"
    "recv_cqe i (dma_length dma' - dma_resid dma') cqe"
    "cq_list (dev2\<lparr>dev_cq := cq\<rparr>) = (cq_list dev)(qp_rcq qp := cq_list dev (qp_rcq qp) @ [cqe])" "cqs_inv (dev2\<lparr>dev_cq := cq\<rparr>)"
    using complete_recv [OF env2 w(1-3) in_pkt_mask(3) [OF pkt op] cq2(3)] room x(5) unfolding w(4) cq2 by auto
  define qp3 dev3 where q3: "qp3 = qp2\<lparr>qp_rq := (qp_rq qp2)\<lparr>rq_queue := Some (advance_consumer ?q)\<rparr>, qp_resp := (qp_resp qp2)\<lparr>resp_wqe := No_wqe\<rparr>\<rparr>"
    and d3: "dev3 = dev2\<lparr>dev_cq := cq\<rparr>"
  have env3: "resp_env cx (qp3, dev3)" using env2 by (simp add: resp_env_def q3 d3 qp_ready_def clock_grows_def)
  have z: "qp_req_pkts qp3 = skb # rest" "resp_aeth_syndrome (qp_resp qp3) = AETH_ACK_UNLIMITED" using pkts by (simp_all add: q3 q2 r2)
  obtain dev4 acks where a: "resp_loop cx RESPST_ACKNOWLEDGE (Some (skb_pkt skb)) (qp3, dev3) = Some (0, free_req_pkt skb rest (qp3, dev4))" "dev_sends dev3 acks dev4"
    "if bth_ack (skb_pkt skb) \<noteq> 0 then \<exists>ack. acks = [ack] \<and> ack_pkt (pkt_psn (skb_pkt skb)) AETH_ACK_UNLIMITED (skb_pkt ack) else acks = []"
    using resp_loop_ack [OF env3 z in_pkt_mask(4) [OF pkt op]] by blast
  obtain qp' dev' where f: "free_req_pkt skb rest (qp3, dev4) = (qp', dev')" by force
  note k = free_req_pkt_kept [OF f] dev_sends_kept [OF a(2)]
  have "resp_loop cx RESPST_COMPLETE (Some (skb_pkt skb)) (qp2, dev2) = resp_loop cx RESPST_ACKNOWLEDGE (Some (skb_pkt skb)) (qp3, dev3)"
    using c(1) by (intro resp_loop_next) (simp add: q3 d3)
  then have "rxe_responder cx (qp, dev) = Some (0, qp', dev')" using run a(1) f by (simp add: q2 d2)
  moreover have "resp_env cx (qp', dev')" by (rule resp_env_freed [OF env3 a(2) f])
  moreover have "dma_resid dma' = of_nat (length A - length p)" using x(6) by (simp add: recv_room_def)
  moreover have "cq_list dev' = cq_list dev3" by (simp add: cq_list_def k fun_eq_iff)
  ultimately show ?thesis using a(3) c(2,3) queue_write_at_head(3,4) [OF x(2,3)] x(4,7)
    by (intro exI [of _ qp'] exI [of _ dev'] exI [of _ acks] exI [of _ cqe]) (simp add: k q3 d3 q2 d2 r2)
qed

subsection \<open>A whole message\<close>

primrec responder_runs :: "run_ctx \<Rightarrow> nat \<Rightarrow> rxe_qp \<times> rxe_dev \<Rightarrow> (rxe_qp \<times> rxe_dev) option" where
  "responder_runs cx 0 qd = Some qd"
| "responder_runs cx (Suc n) qd = (case rxe_responder cx qd of None \<Rightarrow> None
     | Some (ret, qd) \<Rightarrow> if ret = 0 then responder_runs cx n qd else None)"

definition send_ops :: "u8 \<times> u8 \<times> u8 \<times> u8 \<Rightarrow> bool" where
  "send_ops ops \<longleftrightarrow> ops = (IB_OPCODE_RC_SEND_FIRST, IB_OPCODE_RC_SEND_MIDDLE, IB_OPCODE_RC_SEND_LAST, IB_OPCODE_RC_SEND_ONLY)
     \<or> ops = (IB_OPCODE_RC_SEND_FIRST, IB_OPCODE_RC_SEND_MIDDLE, IB_OPCODE_RC_SEND_LAST_WITH_IMMEDIATE, IB_OPCODE_RC_SEND_ONLY_WITH_IMMEDIATE)"

abbreviation (input) carries :: "sk_buff list \<Rightarrow> (u8 \<times> u32 \<times> u8 list) list \<Rightarrow> bool" where
  "carries skbs ps \<equiv> list_all2 (\<lambda>skb (op, psn, p). in_pkt op psn p (skb_pkt skb)) skbs ps"

lemma responder_message:
  assumes "resp_env cx (qp, dev)" and "send_ops ops" and "qp_req_pkts qp = skbs @ rest"
    and "carries skbs (msg_packets ops start mtu (resp_psn (qp_resp qp)) bs)" and "recv_at start A i len ws (qp, dev)" and "length bs \<le> length A"
    and "cqs_inv dev" and "length (cq_list dev (qp_rcq qp)) < cq_cap dev (qp_rcq qp)"
  shows "\<exists>qp' dev' acks cqe. responder_runs cx (length skbs) (qp, dev) = Some (qp', dev') \<and> resp_env cx (qp', dev') \<and> qp_req_pkts qp' = rest
    \<and> resp_psn (qp_resp qp') = (resp_psn (qp_resp qp) + of_nat (length skbs)) AND BTH_PSN_MASK
    \<and> (\<exists>q. rq_queue (qp_rq qp') = Some q \<and> queue_inv q \<and> queue_list q = ws)
    \<and> dev_mem dev' = (dev_mem dev)\<lparr>md_ram := ram_put A bs (md_ram (dev_mem dev))\<rparr>
    \<and> recv_cqe i (len - of_nat (length A - length bs)) cqe \<and> cq_list dev' = (cq_list dev)(qp_rcq qp := cq_list dev (qp_rcq qp) @ [cqe])
    \<and> dev_kfree dev' = dev_kfree dev @ skbs \<and> dev_sent dev' = dev_sent dev @ acks \<and> acks_of skbs acks"
  using assms
proof (induction "length bs" arbitrary: start bs A qp dev skbs rule: less_induct)
  case less
  let ?psn = "resp_psn (qp_resp qp)"
  obtain f m l e where ops: "ops = (f, m, l, e)" by (cases ops)
  have o: "recv_op f True False" "recv_op m False False" "recv_op l False True" "recv_op e True True"
    "f = IB_OPCODE_RC_SEND_FIRST" "m = IB_OPCODE_RC_SEND_MIDDLE"
    using less.prems(2) recv_ops by (auto simp: send_ops_def ops)
  show ?case
  proof (cases "mtu = 0 \<or> length bs \<le> mtu")
    case True
    then have "msg_packets ops start mtu ?psn bs = [(if start then e else l, ?psn, bs)]" by (subst ops, subst msg_packets.simps) (simp add: ops)
    then obtain skb where s: "skbs = [skb]" "in_pkt (if start then e else l) ?psn bs (skb_pkt skb)" using less.prems(4) by (auto simp: list_all2_Cons2)
    have r: "recv_op (if start then e else l) start True" using o by simp
    have k: "acks_of [skb] acks" if "if bth_ack (skb_pkt skb) \<noteq> 0 then \<exists>ack. acks = [ack] \<and> ack_pkt (pkt_psn (skb_pkt skb)) AETH_ACK_UNLIMITED (skb_pkt ack) else acks = []" for acks
      using acks_of_Cons [OF that, of "[]" "[]"] by (simp add: acks_of_def)
    show ?thesis using responder_last [OF less.prems(1) _ s(2) r less.prems(5,6,7,8)] less.prems(3) s(1) k by fastforce
  next
    case False
    then have "msg_packets ops start mtu ?psn bs = (if start then f else m, ?psn, take mtu bs) # msg_packets ops False mtu ((?psn + 1) AND BTH_PSN_MASK) (drop mtu bs)"
      unfolding ops by (subst msg_packets.simps) simp
    then obtain skb skbs' where s: "skbs = skb # skbs'" "in_pkt (if start then f else m) ?psn (take mtu bs) (skb_pkt skb)"
      "carries skbs' (msg_packets ops False mtu ((?psn + 1) AND BTH_PSN_MASK) (drop mtu bs))" using less.prems(4) by (auto simp: list_all2_Cons2)
    have r: "recv_op (if start then f else m) start False" using o by simp
    have pk: "qp_req_pkts qp = skb # skbs' @ rest" using less.prems(3) s(1) by simp
    have tl: "length (take mtu bs) \<le> length A" "length (take mtu bs) = mtu" using less.prems(6) False by simp_all
    have fm: "(if start then f else m) = IB_OPCODE_RC_SEND_FIRST \<or> (if start then f else m) = IB_OPCODE_RC_SEND_MIDDLE" using o(5,6) by simp
    obtain qp1 dev1 acks1 where x: "rxe_responder cx (qp, dev) = Some (0, qp1, dev1)" "resp_env cx (qp1, dev1)" "qp_req_pkts qp1 = skbs' @ rest"
      "qp_rcq qp1 = qp_rcq qp" "resp_psn (qp_resp qp1) = (?psn + 1) AND BTH_PSN_MASK" "recv_at False (drop mtu A) i len ws (qp1, dev1)"
      "dev_mem dev1 = (dev_mem dev)\<lparr>md_ram := ram_put A (take mtu bs) (md_ram (dev_mem dev))\<rparr>" "dev_cq dev1 = dev_cq dev"
      "dev_kfree dev1 = dev_kfree dev @ [skb]" "dev_sent dev1 = dev_sent dev @ acks1"
      "if bth_ack (skb_pkt skb) \<noteq> 0 then \<exists>ack. acks1 = [ack] \<and> ack_pkt (pkt_psn (skb_pkt skb)) AETH_ACK_UNLIMITED (skb_pkt ack) else acks1 = []"
      using responder_more [OF less.prems(1) pk s(2) r less.prems(5) tl(1) fm] unfolding tl(2) by blast
    have c: "cqs_inv dev1" "cq_list dev1 = cq_list dev" "cq_cap dev1 = cq_cap dev" using less.prems(7) x(8) by (simp_all add: cqs_inv_def cq_list_def cq_cap_def fun_eq_iff)
    have "length (drop mtu bs) < length bs" "length (drop mtu bs) \<le> length (drop mtu A)" using False less.prems(6) by auto
    from less.hyps [OF this(1) x(2) less.prems(2) x(3) _ x(6) this(2) c(1)] s(3) less.prems(8) obtain qp' dev' acks cqe where
      y: "responder_runs cx (length skbs') (qp1, dev1) = Some (qp', dev')" "resp_env cx (qp', dev')" "qp_req_pkts qp' = rest"
      "resp_psn (qp_resp qp') = (((?psn + 1) AND BTH_PSN_MASK) + of_nat (length skbs')) AND BTH_PSN_MASK"
      "\<exists>q. rq_queue (qp_rq qp') = Some q \<and> queue_inv q \<and> queue_list q = ws"
      "dev_mem dev' = (dev_mem dev1)\<lparr>md_ram := ram_put (drop mtu A) (drop mtu bs) (md_ram (dev_mem dev1))\<rparr>"
      "recv_cqe i (len - of_nat (length (drop mtu A) - length (drop mtu bs))) cqe"
      "cq_list dev' = (cq_list dev)(qp_rcq qp := cq_list dev (qp_rcq qp) @ [cqe])"
      "dev_kfree dev' = dev_kfree dev1 @ skbs'" "dev_sent dev' = dev_sent dev1 @ acks" "acks_of skbs' acks"
      unfolding x(4,5) c(2,3) by blast
    have ram: "ram_put (drop mtu A) (drop mtu bs) (ram_put A (take mtu bs) ram) = ram_put A bs ram" for ram
      using ram_put_append [OF tl(1), of "drop mtu bs" ram] unfolding tl(2) by simp
    have n: "length (drop mtu A) - length (drop mtu bs) = length A - length bs" using False less.prems(6) by simp
    show ?thesis using y x(1,7,9,10) acks_of_Cons [OF x(11) y(11)]
      by (intro exI [of _ qp'] exI [of _ dev'] exI [of _ "acks1 @ acks"] exI [of _ cqe]) (simp add: s(1) psn_step ram n [simplified] del: of_nat_Suc)
  qed
qed

subsection \<open>Properties\<close>






end
