(* ===== verification/Spec2Isabelle.thy ===== *)
theory Spec2Isabelle
  imports Rxe_Resp
begin

text \<open>
  A verification development for the soft RoCE driver of this repository, the RDMA transport
  under \<open>src/linux/drivers/infiniband/hw/rxe\<close>.

  The model fixes the platform the repository is written for, a 32-bit little-endian ARM board:
  \<open>unsigned int\<close>, \<open>size_t\<close> and pointers are 32-bit words, and a cache line is
  64 bytes. Allocation outcomes and code outside \<open>src/\<close> are parameters.

  \<^item> \<open>Rxe_Prelude\<close>: word types, error numbers, powers of two and masked arithmetic.
  \<^item> \<open>Rxe_Queue\<close>: the circular buffer of \<open>rxe_queue.h\<close> and
    \<open>rxe_queue.c\<close>.
\<close>

end
